theory Spec2Isabelle
  imports Complex_Main
begin

section \<open>Camera-path utilities of utils/pose\_utils.py\<close>

text \<open>
  The module works on numpy arrays of float64. The embedding reads every array entry as a
  real number and every numpy operation as the exact operation on the reals, so that a
  statement "up to floating-point tolerance" becomes an equation. Where float64 decides
  a statement it is written out: the squared norm of \<open>normalize\<close> keeps the range of
  float64, and the lines that scale the poses in \<open>transform_poses_pca\<close> and that compute
  the radius in \<open>generate_spherify_path\<close> are embedded a second time with the rounding of
  every operation (the definitions with the suffix \<open>_f64\<close>). What numpy does outside the
  reals is kept as a value of its own:
  \<^item> \<open>NotFinite\<close>: numpy goes on with \<open>nan\<close> or \<open>inf\<close> entries (a division by zero, the
    square root of a negative number, the mean of an empty axis); no exception is raised,
    but the result is no array of reals any more;
  \<^item> \<open>LinAlgError\<close>: \<open>np.linalg.inv\<close> raises on a matrix that is singular over the reals;
  \<^item> \<open>ValueError\<close>: \<open>np.max\<close> of an empty array and \<open>np.stack\<close> of an empty list raise;
  \<^item> \<open>EmptyInputError\<close>: the failure the specification names for zero input poses. No
    line of the module raises it; it is here so that statements about it can be written.
\<close>

datatype failure = NotFinite | LinAlgError | ValueError | EmptyInputError

definition and_then :: "failure + 'a \<Rightarrow> ('a \<Rightarrow> failure + 'b) \<Rightarrow> failure + 'b" where
  "and_then m f = (case m of Inl e \<Rightarrow> Inl e | Inr x \<Rightarrow> f x)"

subsection \<open>Vectors and matrices\<close>

text \<open>Arrays of shape (3,), (4,), (3,3), (3,4) and (4,4); matrices are held by rows.\<close>

datatype vec3 = Vec3 (vx: real) (vy: real) (vz: real)

datatype vec4 = Vec4 (wx: real) (wy: real) (wz: real) (ww: real)

datatype mat3 = Mat3 (r0: vec3) (r1: vec3) (r2: vec3)

datatype mat34 = Mat34 (p0: vec4) (p1: vec4) (p2: vec4)

datatype mat4 = Mat4 (q0: vec4) (q1: vec4) (q2: vec4) (q3: vec4)

definition zero3 :: vec3 where
  "zero3 = Vec3 0 0 0"

definition add3 :: "vec3 \<Rightarrow> vec3 \<Rightarrow> vec3" where
  "add3 a b = Vec3 (vx a + vx b) (vy a + vy b) (vz a + vz b)"

definition sub3 :: "vec3 \<Rightarrow> vec3 \<Rightarrow> vec3" where
  "sub3 a b = Vec3 (vx a - vx b) (vy a - vy b) (vz a - vz b)"

definition neg3 :: "vec3 \<Rightarrow> vec3" where
  "neg3 a = Vec3 (- vx a) (- vy a) (- vz a)"

definition smul3 :: "real \<Rightarrow> vec3 \<Rightarrow> vec3" where
  "smul3 c a = Vec3 (c * vx a) (c * vy a) (c * vz a)"

definition sdiv3 :: "vec3 \<Rightarrow> real \<Rightarrow> vec3" where
  "sdiv3 a c = Vec3 (vx a / c) (vy a / c) (vz a / c)"

definition dot3 :: "vec3 \<Rightarrow> vec3 \<Rightarrow> real" where
  "dot3 a b = vx a * vx b + vy a * vy b + vz a * vz b"

text \<open>\<open>np.cross\<close> and \<open>np.linalg.norm\<close> on vectors of length 3.\<close>

definition cross3 :: "vec3 \<Rightarrow> vec3 \<Rightarrow> vec3" where
  "cross3 a b = Vec3 (vy a * vz b - vz a * vy b)
                     (vz a * vx b - vx a * vz b)
                     (vx a * vy b - vy a * vx b)"

definition norm3 :: "vec3 \<Rightarrow> real" where
  "norm3 a = sqrt (dot3 a a)"

text \<open>\<open>np.stack([a, b, c, d], 1)\<close>: the four vectors become the columns of a 3x4 array.\<close>

definition stack_cols :: "vec3 \<Rightarrow> vec3 \<Rightarrow> vec3 \<Rightarrow> vec3 \<Rightarrow> mat34" where
  "stack_cols a b c d = Mat34 (Vec4 (vx a) (vx b) (vx c) (vx d))
                              (Vec4 (vy a) (vy b) (vy c) (vy d))
                              (Vec4 (vz a) (vz b) (vz c) (vz d))"

text \<open>The slices \<open>p[:3, 0]\<close>, \<open>p[:3, 1]\<close>, \<open>p[:3, 2]\<close> and \<open>p[:3, 3]\<close> of a pose.\<close>

definition pcol0 :: "mat34 \<Rightarrow> vec3" where
  "pcol0 p = Vec3 (wx (p0 p)) (wx (p1 p)) (wx (p2 p))"

definition pcol1 :: "mat34 \<Rightarrow> vec3" where
  "pcol1 p = Vec3 (wy (p0 p)) (wy (p1 p)) (wy (p2 p))"

definition pcol2 :: "mat34 \<Rightarrow> vec3" where
  "pcol2 p = Vec3 (wz (p0 p)) (wz (p1 p)) (wz (p2 p))"

definition pcol3 :: "mat34 \<Rightarrow> vec3" where
  "pcol3 p = Vec3 (ww (p0 p)) (ww (p1 p)) (ww (p2 p))"

text \<open>\<open>np.linalg.det\<close> of a 3x3 array, by the rule of Sarrus.\<close>

definition det3 :: "mat3 \<Rightarrow> real" where
  "det3 m = dot3 (r0 m) (cross3 (r1 m) (r2 m))"

definition transpose3 :: "mat3 \<Rightarrow> mat3" where
  "transpose3 m = Mat3 (Vec3 (vx (r0 m)) (vx (r1 m)) (vx (r2 m)))
                       (Vec3 (vy (r0 m)) (vy (r1 m)) (vy (r2 m)))
                       (Vec3 (vz (r0 m)) (vz (r1 m)) (vz (r2 m)))"

text \<open>The block \<open>p[:3, :3]\<close> of a pose.\<close>

definition rot_block :: "mat34 \<Rightarrow> mat3" where
  "rot_block p = transpose3 (Mat3 (pcol0 p) (pcol1 p) (pcol2 p))"

subsection \<open>normalize and viewmatrix\<close>

text \<open>
  \<open>normalize(x) = x / np.linalg.norm(x)\<close>, and \<open>np.linalg.norm(x)\<close> is
  \<open>sqrt(x.dot(x))\<close>. The squared norm is the first value of this quotient to leave the
  range of float64, and the embedding keeps what numpy does there:
  \<^item> a squared norm of \<open>2^1024\<close> or more is \<open>inf\<close> in float64; the norm is \<open>inf\<close> and
    \<open>x / inf\<close> is the zero vector;
  \<^item> a squared norm of \<open>2^-1075\<close> or less, that of the zero vector included, is 0 in
    float64; the norm is 0 and \<open>x / 0\<close> has \<open>nan\<close> or \<open>inf\<close> entries.

  Between the two the quotient is the exact one. The bounds are taken of the exact squared
  norm, which float64 reaches within a rounding error. A squared norm is \<open>sq_normal\<close> when
  it is a normal float64 number (at least \<open>2^-1022\<close>) and at most \<open>2^1023\<close>: there float64
  carries its full precision, and the norm lies between about 1.5e-154 and 9.4e153.
\<close>

definition sq_overflows :: "real \<Rightarrow> bool" where
  "sq_overflows s \<longleftrightarrow> 2 ^ 1024 \<le> s"

definition sq_underflows :: "real \<Rightarrow> bool" where
  "sq_underflows s \<longleftrightarrow> s \<le> 1 / 2 ^ 1075"

definition sq_normal :: "real \<Rightarrow> bool" where
  "sq_normal s \<longleftrightarrow> 1 / 2 ^ 1022 \<le> s \<and> s \<le> 2 ^ 1023"

definition normalize :: "vec3 \<Rightarrow> failure + vec3" where
  "normalize x =
     (if sq_overflows (dot3 x x) then Inr zero3
      else if sq_underflows (dot3 x x) then Inl NotFinite
      else Inr (sdiv3 x (norm3 x)))"

definition viewmatrix :: "vec3 \<Rightarrow> vec3 \<Rightarrow> vec3 \<Rightarrow> failure + mat34" where
  "viewmatrix z up pos =
     and_then (normalize z) (\<lambda>vec2.
     and_then (normalize (cross3 up vec2)) (\<lambda>vec0.
     and_then (normalize (cross3 vec2 vec0)) (\<lambda>vec1.
       Inr (stack_cols vec0 vec1 vec2 pos))))"

subsection \<open>integrate\_weights\_np\<close>

text \<open>\<open>np.cumsum\<close> along the last axis, here a list.\<close>

fun cumsum_from :: "real \<Rightarrow> real list \<Rightarrow> real list" where
  "cumsum_from acc [] = []"
| "cumsum_from acc (x # xs) = (acc + x) # cumsum_from (acc + x) xs"

definition cumsum :: "real list \<Rightarrow> real list" where
  "cumsum xs = cumsum_from 0 xs"

text \<open>
  \<open>cw = np.minimum(1, np.cumsum(w[..., :-1], axis=-1))\<close>, then a 0 in front and a 1
  behind. The leading axes of \<open>w\<close> are independent rows; the model is one row.
\<close>

definition integrate_weights_np :: "real list \<Rightarrow> real list" where
  "integrate_weights_np w =
     (let cw = map (min 1) (cumsum (butlast w)) in [0] @ cw @ [1])"

subsection \<open>The focal depth of the second generate\_spiral\_path\<close>

text \<open>The fields of a camera view that the module reads.\<close>

record view =
  R :: mat3
  T :: vec3
  FoVx :: real

definition get_focal :: "view \<Rightarrow> real" where
  "get_focal camera = FoVx camera"

text \<open>
  The second definition of \<open>generate_spiral_path\<close> (the one with a \<open>focal\<close> parameter)
  sets \<open>focal = 0\<close>, adds \<open>get_focal(views[0])\<close> once per view in its loop over the
  views, and later divides by \<open>len(views)\<close>. With no view, \<open>np.stack\<close> of the empty pose
  list raises before the division.
\<close>

definition spiral_focal_sum :: "view list \<Rightarrow> real" where
  "spiral_focal_sum views = foldl (\<lambda>focal view. focal + get_focal (views ! 0)) 0 views"

definition spiral_focal :: "view list \<Rightarrow> failure + real" where
  "spiral_focal views =
     (if views = [] then Inl ValueError
      else Inr (spiral_focal_sum views / real (length views)))"

text \<open>The mean of \<open>get_focal\<close> over the views, as the specification words it.\<close>

definition mean_focal :: "view list \<Rightarrow> real" where
  "mean_focal views = sum_list (map get_focal views) / real (length views)"

subsection \<open>Products of matrices, rotations\<close>

definition id3 :: mat3 where
  "id3 = Mat3 (Vec3 1 0 0) (Vec3 0 1 0) (Vec3 0 0 1)"

text \<open>A row vector times a matrix, and \<open>a @ b\<close> for 3x3 arrays.\<close>

definition vm3 :: "vec3 \<Rightarrow> mat3 \<Rightarrow> vec3" where
  "vm3 a m = add3 (smul3 (vx a) (r0 m)) (add3 (smul3 (vy a) (r1 m)) (smul3 (vz a) (r2 m)))"

definition mm3 :: "mat3 \<Rightarrow> mat3 \<Rightarrow> mat3" where
  "mm3 a b = Mat3 (vm3 (r0 a) b) (vm3 (r1 a) b) (vm3 (r2 a) b)"

text \<open>
  Orthonormal and right-handed: the columns are unit vectors, orthogonal to each other,
  and the determinant is +1.
\<close>

definition is_rotation :: "mat3 \<Rightarrow> bool" where
  "is_rotation m \<longleftrightarrow> mm3 (transpose3 m) m = id3 \<and> det3 m = 1"

definition sub_m3 :: "mat3 \<Rightarrow> mat3 \<Rightarrow> mat3" where
  "sub_m3 a b = Mat3 (sub3 (r0 a) (r0 b)) (sub3 (r1 a) (r1 b)) (sub3 (r2 a) (r2 b))"

definition add_m3 :: "mat3 \<Rightarrow> mat3 \<Rightarrow> mat3" where
  "add_m3 a b = Mat3 (add3 (r0 a) (r0 b)) (add3 (r1 a) (r1 b)) (add3 (r2 a) (r2 b))"

definition sdiv_m3 :: "mat3 \<Rightarrow> real \<Rightarrow> mat3" where
  "sdiv_m3 a c = Mat3 (sdiv3 (r0 a) c) (sdiv3 (r1 a) c) (sdiv3 (r2 a) c)"

definition zero_m3 :: mat3 where
  "zero_m3 = Mat3 zero3 zero3 zero3"

definition diag3 :: "real \<Rightarrow> real \<Rightarrow> real \<Rightarrow> mat3" where
  "diag3 a b c = Mat3 (Vec3 a 0 0) (Vec3 0 b 0) (Vec3 0 0 c)"

text \<open>A matrix times a column vector.\<close>

definition mv3 :: "mat3 \<Rightarrow> vec3 \<Rightarrow> vec3" where
  "mv3 m v = Vec3 (dot3 (r0 m) v) (dot3 (r1 m) v) (dot3 (r2 m) v)"

text \<open>The outer product \<open>a * b.T\<close> of a column (3,1) and a row (1,3), by broadcasting.\<close>

definition outer3 :: "vec3 \<Rightarrow> vec3 \<Rightarrow> mat3" where
  "outer3 a b = Mat3 (smul3 (vx a) b) (smul3 (vy a) b) (smul3 (vz a) b)"

text \<open>Column \<open>j\<close> of a 3x3 array, for \<open>j\<close> in 0, 1, 2.\<close>

definition mcol3 :: "mat3 \<Rightarrow> nat \<Rightarrow> vec3" where
  "mcol3 m j = (if j = 0 then Vec3 (vx (r0 m)) (vx (r1 m)) (vx (r2 m))
                else if j = 1 then Vec3 (vy (r0 m)) (vy (r1 m)) (vy (r2 m))
                else Vec3 (vz (r0 m)) (vz (r1 m)) (vz (r2 m)))"

definition add4 :: "vec4 \<Rightarrow> vec4 \<Rightarrow> vec4" where
  "add4 a b = Vec4 (wx a + wx b) (wy a + wy b) (wz a + wz b) (ww a + ww b)"

definition smul4 :: "real \<Rightarrow> vec4 \<Rightarrow> vec4" where
  "smul4 c a = Vec4 (c * wx a) (c * wy a) (c * wz a) (c * ww a)"

definition dot4 :: "vec4 \<Rightarrow> vec4 \<Rightarrow> real" where
  "dot4 a b = wx a * wx b + wy a * wy b + wz a * wz b + ww a * ww b"

definition id4 :: mat4 where
  "id4 = Mat4 (Vec4 1 0 0 0) (Vec4 0 1 0 0) (Vec4 0 0 1 0) (Vec4 0 0 0 1)"

definition diag4 :: "real \<Rightarrow> real \<Rightarrow> real \<Rightarrow> real \<Rightarrow> mat4" where
  "diag4 a b c d = Mat4 (Vec4 a 0 0 0) (Vec4 0 b 0 0) (Vec4 0 0 c 0) (Vec4 0 0 0 d)"

text \<open>
  The products \<open>a @ b\<close> of a 4x4 with a 4x4, of a 3x4 with a 4x4 and of a 3x3 with a
  3x4 array: each row of the result is the row of \<open>a\<close> times \<open>b\<close>.
\<close>

definition vm4 :: "vec4 \<Rightarrow> mat4 \<Rightarrow> vec4" where
  "vm4 a m = add4 (smul4 (wx a) (q0 m)) (add4 (smul4 (wy a) (q1 m))
               (add4 (smul4 (wz a) (q2 m)) (smul4 (ww a) (q3 m))))"

definition mm4 :: "mat4 \<Rightarrow> mat4 \<Rightarrow> mat4" where
  "mm4 a b = Mat4 (vm4 (q0 a) b) (vm4 (q1 a) b) (vm4 (q2 a) b) (vm4 (q3 a) b)"

definition mm344 :: "mat34 \<Rightarrow> mat4 \<Rightarrow> mat34" where
  "mm344 a b = Mat34 (vm4 (p0 a) b) (vm4 (p1 a) b) (vm4 (p2 a) b)"

definition vm34 :: "vec3 \<Rightarrow> mat34 \<Rightarrow> vec4" where
  "vm34 a m = add4 (smul4 (vx a) (p0 m)) (add4 (smul4 (vy a) (p1 m)) (smul4 (vz a) (p2 m)))"

definition mm334 :: "mat3 \<Rightarrow> mat34 \<Rightarrow> mat34" where
  "mm334 a b = Mat34 (vm34 (r0 a) b) (vm34 (r1 a) b) (vm34 (r2 a) b)"

text \<open>\<open>np.concatenate([m, v[:, None]], -1)\<close>: a column appended to a 3x3 array.\<close>

definition hcat :: "mat3 \<Rightarrow> vec3 \<Rightarrow> mat34" where
  "hcat m v = Mat34 (Vec4 (vx (r0 m)) (vy (r0 m)) (vz (r0 m)) (vx v))
                    (Vec4 (vx (r1 m)) (vy (r1 m)) (vz (r1 m)) (vy v))
                    (Vec4 (vx (r2 m)) (vy (r2 m)) (vz (r2 m)) (vz v))"

subsection \<open>pad\_poses and unpad\_poses\<close>

definition pad_poses :: "mat34 \<Rightarrow> mat4" where
  "pad_poses p = Mat4 (p0 p) (p1 p) (p2 p) (Vec4 0 0 0 1)"

definition unpad_poses :: "mat4 \<Rightarrow> mat34" where
  "unpad_poses p = Mat34 (q0 p) (q1 p) (q2 p)"

subsection \<open>np.linalg.inv\<close>

text \<open>
  \<open>np.linalg.inv\<close> raises \<open>LinAlgError\<close> on a singular matrix and returns the inverse
  otherwise; over the reals the inverse is the adjugate divided by the determinant.
  For a 3x3 array the columns of the adjugate are the cross products of the rows.
  The determinant is the exact one. In float64 numpy raises when the elimination meets a
  pivot that is exactly zero, so a \<open>LinAlgError\<close> of the embedding is one of the code
  where the elimination is exact (entries such as 0, 1 and 1/2, as in the examples
  below); a matrix that is singular over the reals but has rounded entries may be
  inverted by numpy without an error, to entries that are huge or not finite.
\<close>

definition inv3 :: "mat3 \<Rightarrow> failure + mat3" where
  "inv3 m =
     (if det3 m = 0 then Inl LinAlgError
      else Inr (transpose3 (Mat3 (sdiv3 (cross3 (r1 m) (r2 m)) (det3 m))
                                 (sdiv3 (cross3 (r2 m) (r0 m)) (det3 m))
                                 (sdiv3 (cross3 (r0 m) (r1 m)) (det3 m)))))"

text \<open>
  For a 4x4 array: \<open>del0\<close> .. \<open>del3\<close> drop one entry of a row, \<open>cofactors a b c\<close> are the
  signed 3x3 minors of the three rows \<open>a\<close>, \<open>b\<close>, \<open>c\<close> (one for each dropped column).
\<close>

definition del0 :: "vec4 \<Rightarrow> vec3" where
  "del0 a = Vec3 (wy a) (wz a) (ww a)"

definition del1 :: "vec4 \<Rightarrow> vec3" where
  "del1 a = Vec3 (wx a) (wz a) (ww a)"

definition del2 :: "vec4 \<Rightarrow> vec3" where
  "del2 a = Vec3 (wx a) (wy a) (ww a)"

definition del3 :: "vec4 \<Rightarrow> vec3" where
  "del3 a = Vec3 (wx a) (wy a) (wz a)"

definition cofactors :: "vec4 \<Rightarrow> vec4 \<Rightarrow> vec4 \<Rightarrow> vec4" where
  "cofactors a b c =
     Vec4 (det3 (Mat3 (del0 a) (del0 b) (del0 c)))
          (- det3 (Mat3 (del1 a) (del1 b) (del1 c)))
          (det3 (Mat3 (del2 a) (del2 b) (del2 c)))
          (- det3 (Mat3 (del3 a) (del3 b) (del3 c)))"

definition det4 :: "mat4 \<Rightarrow> real" where
  "det4 m = dot4 (q0 m) (cofactors (q1 m) (q2 m) (q3 m))"

definition transpose4 :: "mat4 \<Rightarrow> mat4" where
  "transpose4 m = Mat4 (Vec4 (wx (q0 m)) (wx (q1 m)) (wx (q2 m)) (wx (q3 m)))
                       (Vec4 (wy (q0 m)) (wy (q1 m)) (wy (q2 m)) (wy (q3 m)))
                       (Vec4 (wz (q0 m)) (wz (q1 m)) (wz (q2 m)) (wz (q3 m)))
                       (Vec4 (ww (q0 m)) (ww (q1 m)) (ww (q2 m)) (ww (q3 m)))"

definition adjugate4 :: "mat4 \<Rightarrow> mat4" where
  "adjugate4 m =
     transpose4 (Mat4 (cofactors (q1 m) (q2 m) (q3 m))
                      (smul4 (- 1) (cofactors (q0 m) (q2 m) (q3 m)))
                      (cofactors (q0 m) (q1 m) (q3 m))
                      (smul4 (- 1) (cofactors (q0 m) (q1 m) (q2 m))))"

definition smul_m4 :: "real \<Rightarrow> mat4 \<Rightarrow> mat4" where
  "smul_m4 c m = Mat4 (smul4 c (q0 m)) (smul4 c (q1 m)) (smul4 c (q2 m)) (smul4 c (q3 m))"

definition inv4 :: "mat4 \<Rightarrow> failure + mat4" where
  "inv4 m = (if det4 m = 0 then Inl LinAlgError else Inr (smul_m4 (1 / det4 m) (adjugate4 m)))"

subsection \<open>Means over the poses\<close>

text \<open>
  \<open>a.sum(0)\<close> and \<open>a.mean(0)\<close> over the first axis. The mean of an empty axis is \<open>nan\<close>
  (numpy warns and goes on).
\<close>

definition sum3 :: "vec3 list \<Rightarrow> vec3" where
  "sum3 vs = foldr add3 vs zero3"

definition sum_m3 :: "mat3 list \<Rightarrow> mat3" where
  "sum_m3 ms = foldr add_m3 ms zero_m3"

definition mean3 :: "vec3 list \<Rightarrow> failure + vec3" where
  "mean3 vs = (if vs = [] then Inl NotFinite else Inr (sdiv3 (sum3 vs) (real (length vs))))"

definition mean_m3 :: "mat3 list \<Rightarrow> failure + mat3" where
  "mean_m3 ms = (if ms = [] then Inl NotFinite else Inr (sdiv_m3 (sum_m3 ms) (real (length ms))))"

subsection \<open>average\_pose and focus\_point\_fn\<close>

definition average_pose :: "mat34 list \<Rightarrow> failure + mat34" where
  "average_pose poses =
     and_then (mean3 (map pcol3 poses)) (\<lambda>position.
     and_then (mean3 (map pcol2 poses)) (\<lambda>z_axis.
     and_then (mean3 (map pcol1 poses)) (\<lambda>up.
       viewmatrix z_axis up position)))"

text \<open>
  \<open>m = np.eye(3) - directions * np.transpose(directions, [0, 2, 1])\<close> and
  \<open>mt_m = np.transpose(m, [0, 2, 1]) @ m\<close>, for one pose.
\<close>

definition focus_m :: "mat34 \<Rightarrow> mat3" where
  "focus_m p = sub_m3 id3 (outer3 (pcol2 p) (pcol2 p))"

definition focus_mt_m :: "mat34 \<Rightarrow> mat3" where
  "focus_mt_m p = mm3 (transpose3 (focus_m p)) (focus_m p)"

definition focus_point_fn :: "mat34 list \<Rightarrow> failure + vec3" where
  "focus_point_fn poses =
     and_then (mean_m3 (map focus_mt_m poses)) (\<lambda>a.
     and_then (inv3 a) (\<lambda>a_inv.
     and_then (mean3 (map (\<lambda>p. mv3 (focus_mt_m p) (pcol3 p)) poses)) (\<lambda>b.
       Inr (mv3 a_inv b))))"

subsection \<open>transform\_poses\_pca\<close>

text \<open>
  \<open>np.argsort\<close> of a short array: the indices in ascending order of the values, equal
  values in their original order (numpy sorts arrays this short by insertion).
\<close>

definition argsort :: "real list \<Rightarrow> nat list" where
  "argsort xs = map fst (sort_key snd (enumerate 0 xs))"

definition list_of_vec3 :: "vec3 \<Rightarrow> real list" where
  "list_of_vec3 v = [vx v, vy v, vz v]"

text \<open>\<open>t = poses[:, :3, 3]; t_mean = t.mean(axis=0); t = t - t_mean\<close>, for at least one pose.\<close>

definition pca_t_mean :: "mat34 list \<Rightarrow> vec3" where
  "pca_t_mean poses = sdiv3 (sum3 (map pcol3 poses)) (real (length poses))"

definition pca_centered :: "mat34 list \<Rightarrow> vec3 list" where
  "pca_centered poses = map (\<lambda>p. sub3 (pcol3 p) (pca_t_mean poses)) poses"

text \<open>\<open>t.T @ t\<close> for an array \<open>t\<close> of shape (N, 3): the sum of the outer products of its rows.\<close>

definition gram3 :: "vec3 list \<Rightarrow> mat3" where
  "gram3 t = sum_m3 (map (\<lambda>v. outer3 v v) t)"

text \<open>
  \<open>np.linalg.eig\<close> is a parameter \<open>eig\<close> of the model: a function from the 3x3 array to
  the pair (eigval, eigvec). The lines from \<open>np.linalg.eig\<close> to the handedness fix
  give \<open>rot\<close>.
\<close>

definition pca_rot :: "(mat3 \<Rightarrow> vec3 \<times> mat3) \<Rightarrow> mat34 list \<Rightarrow> mat3" where
  "pca_rot eig poses =
     (let (eigval, eigvec) = eig (gram3 (pca_centered poses));
          inds = rev (argsort (list_of_vec3 eigval));
          eigvec = transpose3 (Mat3 (mcol3 eigvec (inds ! 0)) (mcol3 eigvec (inds ! 1))
                                    (mcol3 eigvec (inds ! 2)));
          rot = transpose3 eigvec
      in if det3 rot < 0 then mm3 (diag3 1 1 (- 1)) rot else rot)"

text \<open>\<open>poses_recentered.mean(axis=0)[2, 1]\<close>.\<close>

definition mean_entry21 :: "mat34 list \<Rightarrow> real" where
  "mean_entry21 ps = sum_list (map (\<lambda>p. wy (p2 p)) ps) / real (length ps)"

text \<open>
  The poses and the 4x4 transform after the flip of the y and z axes, before the
  scaling.
\<close>

definition pca_recenter :: "(mat3 \<Rightarrow> vec3 \<times> mat3) \<Rightarrow> mat34 list \<Rightarrow> mat34 list \<times> mat4" where
  "pca_recenter eig poses =
     (let rot = pca_rot eig poses;
          transform = hcat rot (mv3 rot (neg3 (pca_t_mean poses)));
          poses_recentered = map (\<lambda>p. mm344 transform (pad_poses p)) poses;
          transform = Mat4 (p0 transform) (p1 transform) (p2 transform) (Vec4 0 0 0 1)
      in if mean_entry21 poses_recentered < 0
         then (map (mm334 (diag3 1 (- 1) (- 1))) poses_recentered,
               mm4 (diag4 1 (- 1) (- 1) 1) transform)
         else (poses_recentered, transform))"

text \<open>\<open>np.max\<close> of a non-empty array (the callers deal with the empty one).\<close>

fun amax :: "real list \<Rightarrow> real" where
  "amax [] = 0"
| "amax [x] = x"
| "amax (x # y # ys) = max x (amax (y # ys))"

text \<open>\<open>np.max(np.abs(poses[:, :3, 3]))\<close>.\<close>

definition max_abs_translation :: "mat34 list \<Rightarrow> real" where
  "max_abs_translation ps =
     amax (concat (map (\<lambda>p. [\<bar>ww (p0 p)\<bar>, \<bar>ww (p1 p)\<bar>, \<bar>ww (p2 p)\<bar>]) ps))"

text \<open>\<open>p[:3, 3] *= s\<close>.\<close>

definition scale_translation :: "real \<Rightarrow> mat34 \<Rightarrow> mat34" where
  "scale_translation s p =
     Mat34 (Vec4 (wx (p0 p)) (wy (p0 p)) (wz (p0 p)) (ww (p0 p) * s))
           (Vec4 (wx (p1 p)) (wy (p1 p)) (wz (p1 p)) (ww (p1 p) * s))
           (Vec4 (wx (p2 p)) (wy (p2 p)) (wz (p2 p)) (ww (p2 p) * s))"

text \<open>
  With no pose, \<open>t_mean\<close> is \<open>nan\<close>, \<open>t.T @ t\<close> is the zero matrix, the recentered array is
  empty, the comparison of its (\<open>nan\<close>) mean with 0 is false, and \<open>np.max\<close> of the empty
  array of translations raises \<open>ValueError\<close>. With poses whose recentered translations
  are all zero, \<open>scale_factor\<close> is 1/0 = \<open>inf\<close> and the scaled translations are \<open>nan\<close>.
\<close>

definition transform_poses_pca ::
  "(mat3 \<Rightarrow> vec3 \<times> mat3) \<Rightarrow> mat34 list \<Rightarrow> failure + (mat34 list \<times> mat4)" where
  "transform_poses_pca eig poses =
     (if poses = [] then Inl ValueError
      else
        let (poses_recentered, transform) = pca_recenter eig poses;
            m = max_abs_translation poses_recentered
        in if m = 0 then Inl NotFinite
           else
             let scale_factor = 1 / m
             in Inr (map (scale_translation scale_factor) poses_recentered,
                     mm4 (diag4 scale_factor scale_factor scale_factor 1) transform))"

text \<open>
  The round trip of the specification: the inverse of the returned transform applied to
  the padded recentered poses.
\<close>

definition pca_round_trip :: "(mat3 \<Rightarrow> vec3 \<times> mat3) \<Rightarrow> mat34 list \<Rightarrow> failure + mat34 list" where
  "pca_round_trip eig poses =
     and_then (transform_poses_pca eig poses) (\<lambda>(poses_recentered, transform).
     and_then (inv4 transform) (\<lambda>transform_inv.
       Inr (map (\<lambda>p. unpad_poses (mm4 transform_inv (pad_poses p))) poses_recentered)))"

text \<open>A pose with its 3x3 block multiplied by \<open>c\<close> and its translation column kept.\<close>

definition scale_rot :: "real \<Rightarrow> mat34 \<Rightarrow> mat34" where
  "scale_rot c p =
     Mat34 (Vec4 (c * wx (p0 p)) (c * wy (p0 p)) (c * wz (p0 p)) (ww (p0 p)))
           (Vec4 (c * wx (p1 p)) (c * wy (p1 p)) (c * wz (p1 p)) (ww (p1 p)))
           (Vec4 (c * wx (p2 p)) (c * wy (p2 p)) (c * wz (p2 p)) (ww (p2 p)))"

text \<open>
  What \<open>np.linalg.eig\<close> returns on a diagonal matrix: the diagonal entries as
  eigenvalues, in their order, and the unit vectors as eigenvectors.
\<close>

definition diag_eig :: "mat3 \<Rightarrow> vec3 \<times> mat3" where
  "diag_eig m = (Vec3 (vx (r0 m)) (vy (r1 m)) (vz (r2 m)), id3)"

text \<open>Two poses with the identity as rotation, at (2, 0, 0) and (-2, 0, 0).\<close>

definition two_poses :: "mat34 list" where
  "two_poses = [Mat34 (Vec4 1 0 0 2) (Vec4 0 1 0 0) (Vec4 0 0 1 0),
                Mat34 (Vec4 1 0 0 (- 2)) (Vec4 0 1 0 0) (Vec4 0 0 1 0)]"

subsection \<open>The scenario of four cameras on a square\<close>

text \<open>
  A camera at the corner \<open>(a * h, b * h, 0)\<close> of a square in the XY plane (\<open>a\<close>, \<open>b\<close> are
  1 or -1), whose viewing-axis column (column 2) is the unit vector along the line through
  the origin: towards the origin for \<open>s = -1\<close>, away from it for \<open>s = 1\<close> (a camera that
  looks along its own -Z axis). Columns 0 and 1 are \<open>c0\<close> and \<open>c1\<close>.
\<close>

definition square_pose :: "real \<Rightarrow> real \<Rightarrow> real \<Rightarrow> real \<Rightarrow> vec3 \<Rightarrow> vec3 \<Rightarrow> mat34" where
  "square_pose s h a b c0 c1 =
     stack_cols c0 c1 (Vec3 (s * a / sqrt 2) (s * b / sqrt 2) 0) (Vec3 (a * h) (b * h) 0)"

subsection \<open>From the views to the poses\<close>

text \<open>The first failure of a list of results, or all the values.\<close>

fun sequence :: "(failure + 'a) list \<Rightarrow> failure + 'a list" where
  "sequence [] = Inr []"
| "sequence (m # ms) = and_then m (\<lambda>x. and_then (sequence ms) (\<lambda>xs. Inr (x # xs)))"

text \<open>\<open>m[:, 1:3] *= -1\<close> on a 4x4 array: columns 1 and 2 change their sign.\<close>

definition flip_cols12 :: "mat4 \<Rightarrow> mat4" where
  "flip_cols12 m = Mat4 (Vec4 (wx (q0 m)) (- wy (q0 m)) (- wz (q0 m)) (ww (q0 m)))
                        (Vec4 (wx (q1 m)) (- wy (q1 m)) (- wz (q1 m)) (ww (q1 m)))
                        (Vec4 (wx (q2 m)) (- wy (q2 m)) (- wz (q2 m)) (ww (q2 m)))
                        (Vec4 (wx (q3 m)) (- wy (q3 m)) (- wz (q3 m)) (ww (q3 m)))"

text \<open>
  The loop at the head of every generator: \<open>tmp_view\<close> is the identity with
  \<open>[view.R.T | view.T]\<close> as its first three rows, then inverted, then columns 1 and 2
  negated; \<open>np.stack\<close> of the list raises when there is no view.
\<close>

definition view_pose :: "view \<Rightarrow> failure + mat4" where
  "view_pose view =
     and_then (inv4 (pad_poses (hcat (transpose3 (R view)) (T view)))) (\<lambda>tmp_view.
       Inr (flip_cols12 tmp_view))"

definition view_poses :: "view list \<Rightarrow> failure + mat4 list" where
  "view_poses views =
     and_then (sequence (map view_pose views)) (\<lambda>poses.
       if poses = [] then Inl ValueError else Inr poses)"

subsection \<open>generate\_spherify\_path\<close>

definition neg_m3 :: "mat3 \<Rightarrow> mat3" where
  "neg_m3 a = Mat3 (neg3 (r0 a)) (neg3 (r1 a)) (neg3 (r2 a))"

text \<open>\<open>A_i = np.eye(3) - rays_d * np.transpose(rays_d, [0, 2, 1])\<close>, for one ray.\<close>

definition line_a :: "vec3 \<Rightarrow> mat3" where
  "line_a d = sub_m3 id3 (outer3 d d)"

text \<open>The rays are the pairs (origin, direction) of the poses.\<close>

definition min_line_dist :: "(vec3 \<times> vec3) list \<Rightarrow> failure + vec3" where
  "min_line_dist rays =
     and_then (mean3 (map (\<lambda>(orig, d). neg3 (mv3 (line_a d) orig)) rays)) (\<lambda>b.
     and_then (mean_m3 (map (\<lambda>(orig, d). mm3 (transpose3 (line_a d)) (line_a d)) rays)) (\<lambda>a.
     and_then (inv3 a) (\<lambda>a_inv.
       Inr (mv3 (neg_m3 a_inv) b))))"

text \<open>
  The poses in the frame of the fitted center: \<open>poses_reset\<close>, before the scaling.
\<close>

definition spherify_reset :: "view list \<Rightarrow> failure + mat4 list" where
  "spherify_reset views =
     and_then (view_poses views) (\<lambda>poses.
     and_then (min_line_dist (map (\<lambda>p. (pcol3 (unpad_poses p), pcol2 (unpad_poses p))) poses))
       (\<lambda>center.
     and_then (mean3 (map (\<lambda>p. sub3 (pcol3 (unpad_poses p)) center) poses)) (\<lambda>up.
     and_then (normalize up) (\<lambda>vec0.
     and_then (normalize (cross3 (Vec3 (1/10) (2/10) (3/10)) vec0)) (\<lambda>vec1.
     and_then (normalize (cross3 vec0 vec1)) (\<lambda>vec2.
     and_then (inv4 (pad_poses (stack_cols vec1 vec2 vec0 center))) (\<lambda>c2w_inv.
       Inr (map (\<lambda>p. mm4 c2w_inv (pad_poses (unpad_poses p))) poses))))))))"

definition mean_list :: "real list \<Rightarrow> real" where
  "mean_list xs = sum_list xs / real (length xs)"

text \<open>
  \<open>rad\<close>, \<open>sc\<close>, the scaling of the translations and of \<open>rad\<close>, the centroid and \<open>zh\<close>.
  When all translations are zero, \<open>sc\<close> is 1/0 = \<open>inf\<close> and \<open>rad * sc\<close> is \<open>nan\<close>. The
  result is the pair of \<open>rad\<close> (after \<open>rad *= sc\<close>) and \<open>zh\<close>.
\<close>

definition spherify_rad_zh :: "mat4 list \<Rightarrow> failure + (real \<times> real)" where
  "spherify_rad_zh poses_reset =
     (let t = map (\<lambda>p. pcol3 (unpad_poses p)) poses_reset;
          rad = sqrt (mean_list (map (\<lambda>v. vx v * vx v + vy v * vy v + vz v * vz v) t))
      in if rad = 0 then Inl NotFinite
         else
           let sc = 1 / rad;
               t = map (\<lambda>v. smul3 sc v) t;
               rad = rad * sc
           in and_then (mean3 t) (\<lambda>centroid. Inr (rad, vz centroid)))"

text \<open>\<open>np.sqrt\<close>: \<open>nan\<close> on a negative number.\<close>

definition np_sqrt :: "real \<Rightarrow> failure + real" where
  "np_sqrt x = (if x < 0 then Inl NotFinite else Inr (sqrt x))"

text \<open>\<open>np.linspace(start, stop, num)\<close> with the end point, for \<open>num\<close> above 1.\<close>

definition linspace :: "real \<Rightarrow> real \<Rightarrow> nat \<Rightarrow> real list" where
  "linspace start stop num =
     map (\<lambda>k. start + real k * ((stop - start) / real (num - 1))) [0..<num]"

text \<open>The body of the loop over the angles.\<close>

definition spherify_pose :: "real \<Rightarrow> real \<Rightarrow> real \<Rightarrow> failure + mat4" where
  "spherify_pose radcircle zh th =
     (let camorigin = Vec3 (radcircle * cos th) (radcircle * sin th) zh;
          up = Vec3 0 0 (- 1)
      in and_then (normalize camorigin) (\<lambda>vec2.
         and_then (normalize (cross3 vec2 up)) (\<lambda>vec0.
         and_then (normalize (cross3 vec2 vec0)) (\<lambda>vec1.
           Inr (pad_poses (stack_cols vec0 vec1 vec2 camorigin))))))"

definition generate_spherify_path :: "view list \<Rightarrow> failure + mat4 list" where
  "generate_spherify_path views =
     and_then (spherify_reset views) (\<lambda>poses_reset.
     and_then (spherify_rad_zh poses_reset) (\<lambda>(rad, zh).
     and_then (np_sqrt (rad ^ 2 - zh ^ 2)) (\<lambda>radcircle.
       sequence (map (spherify_pose radcircle zh) (linspace 0 (2 * pi) 120)))))"

text \<open>
  Two views: a camera at (0, 1, 4) whose viewing-axis column is (0, 0, -1), and a camera
  at (0, -1, 0) whose viewing-axis column is (-1, 0, 0). One view, at the origin.
\<close>

definition two_views :: "view list" where
  "two_views =
     [\<lparr>R = Mat3 (Vec3 1 0 0) (Vec3 0 1 0) (Vec3 0 0 1), T = Vec3 0 (- 1) (- 4), FoVx = 1\<rparr>,
      \<lparr>R = Mat3 (Vec3 0 0 1) (Vec3 0 1 0) (Vec3 (- 1) 0 0), T = Vec3 0 1 0, FoVx = 1\<rparr>]"

definition one_view :: "view list" where
  "one_view = [\<lparr>R = Mat3 (Vec3 1 0 0) (Vec3 0 1 0) (Vec3 0 0 1), T = Vec3 0 0 0, FoVx = 1\<rparr>]"

subsection \<open>The loop of generate\_ellipse\_path\<close>

text \<open>\<open>m[:3, 1:3] *= -1\<close> on a 4x4 array: columns 1 and 2 of the first three rows.\<close>

definition flip_top_cols12 :: "mat4 \<Rightarrow> mat4" where
  "flip_top_cols12 m = Mat4 (Vec4 (wx (q0 m)) (- wy (q0 m)) (- wz (q0 m)) (ww (q0 m)))
                            (Vec4 (wx (q1 m)) (- wy (q1 m)) (- wz (q1 m)) (ww (q1 m)))
                            (Vec4 (wx (q2 m)) (- wy (q2 m)) (- wz (q2 m)) (ww (q2 m)))
                            (q3 m)"

text \<open>
  The body of the loop over the positions: the look-at pose at \<open>p\<close>, mapped back by the
  inverse of the PCA transform, columns 1 and 2 negated, and inverted.
\<close>

definition ellipse_render_pose :: "mat4 \<Rightarrow> vec3 \<Rightarrow> vec3 \<Rightarrow> vec3 \<Rightarrow> failure + mat4" where
  "ellipse_render_pose transform center up p =
     and_then (viewmatrix (sub3 p center) up p) (\<lambda>vm.
     and_then (inv4 transform) (\<lambda>transform_inv.
       inv4 (flip_top_cols12 (mm4 transform_inv (pad_poses vm)))))"

text \<open>
  The up vector of the path: \<open>avg_up\<close> normalised, the first index of its largest
  absolute entry, and the unit vector of that axis times the sign of the entry.
\<close>

definition ellipse_up :: "mat34 list \<Rightarrow> failure + vec3" where
  "ellipse_up poses =
     and_then (mean3 (map pcol1 poses)) (\<lambda>avg_up.
     and_then (normalize avg_up) (\<lambda>avg_up.
       Inr (if \<bar>vx avg_up\<bar> \<ge> \<bar>vy avg_up\<bar> \<and> \<bar>vx avg_up\<bar> \<ge> \<bar>vz avg_up\<bar>
              then smul3 (sgn (vx avg_up)) (Vec3 1 0 0)
            else if \<bar>vy avg_up\<bar> \<ge> \<bar>vz avg_up\<bar>
              then smul3 (sgn (vy avg_up)) (Vec3 0 1 0)
            else smul3 (sgn (vz avg_up)) (Vec3 0 0 1))))"

text \<open>
  \<open>generate_ellipse_path\<close> with the positions of the path as a parameter: the lines
  that compute \<open>positions\<close> (percentiles of the camera positions, the angles and their
  resampling) are not modelled, the poses, the transform, the focus point, the up vector
  and the loop over the positions are.
\<close>

definition ellipse_render_poses ::
  "(mat3 \<Rightarrow> vec3 \<times> mat3) \<Rightarrow> view list \<Rightarrow> vec3 list \<Rightarrow> failure + mat4 list" where
  "ellipse_render_poses eig views positions =
     and_then (view_poses views) (\<lambda>poses.
     and_then (transform_poses_pca eig (map unpad_poses poses)) (\<lambda>(poses, transform).
     and_then (focus_point_fn poses) (\<lambda>center.
     and_then (ellipse_up poses) (\<lambda>up.
       sequence (map (ellipse_render_pose transform center up) positions)))))"

text \<open>
  Four views on a circle of radius 2 in the XY plane, at the angles 0, 90, 180 and 270
  degrees, looking at the origin with the Z axis up: the camera-to-world pose of each
  (after the sign flip of the loader) has the columns (-sin, cos, 0), (0, 0, 1),
  (cos, sin, 0) and the position (2 cos, 2 sin, 0).
\<close>

definition ring_views :: "view list" where
  "ring_views =
     [\<lparr>R = Mat3 (Vec3 0 0 (- 1)) (Vec3 1 0 0) (Vec3 0 (- 1) 0), T = Vec3 0 0 2, FoVx = 1\<rparr>,
      \<lparr>R = Mat3 (Vec3 (- 1) 0 0) (Vec3 0 0 (- 1)) (Vec3 0 (- 1) 0), T = Vec3 0 0 2, FoVx = 1\<rparr>,
      \<lparr>R = Mat3 (Vec3 0 0 1) (Vec3 (- 1) 0 0) (Vec3 0 (- 1) 0), T = Vec3 0 0 2, FoVx = 1\<rparr>,
      \<lparr>R = Mat3 (Vec3 1 0 0) (Vec3 0 0 1) (Vec3 0 (- 1) 0), T = Vec3 0 0 2, FoVx = 1\<rparr>]"

text \<open>The poses that the loop at the head of the generators makes of \<open>ring_views\<close>.\<close>

definition ring_poses :: "mat4 list" where
  "ring_poses =
     [Mat4 (Vec4 0 0 1 2) (Vec4 1 0 0 0) (Vec4 0 1 0 0) (Vec4 0 0 0 1),
      Mat4 (Vec4 (- 1) 0 0 0) (Vec4 0 0 1 2) (Vec4 0 1 0 0) (Vec4 0 0 0 1),
      Mat4 (Vec4 0 0 (- 1) (- 2)) (Vec4 (- 1) 0 0 0) (Vec4 0 1 0 0) (Vec4 0 0 0 1),
      Mat4 (Vec4 1 0 0 0) (Vec4 0 0 (- 1) (- 2)) (Vec4 0 1 0 0) (Vec4 0 0 0 1)]"

text \<open>\<open>scale_factor\<close> of \<open>transform_poses_pca\<close>.\<close>

definition pca_scale_factor :: "(mat3 \<Rightarrow> vec3 \<times> mat3) \<Rightarrow> mat34 list \<Rightarrow> real" where
  "pca_scale_factor eig poses = 1 / max_abs_translation (fst (pca_recenter eig poses))"

subsection \<open>Rounding to float64\<close>

text \<open>
  Two statements below are about the last bit of a float64 result, which the exact reading
  cannot see. For them the lines concerned are embedded a second time (suffix \<open>_f64\<close>),
  every float64 operation of the line being the exact operation followed by \<open>fl64\<close>:
  the rounding of IEEE 754 binary64 to the nearest number, ties to the even significand.
  A normal number has 53 significant bits; below \<open>2^-1022\<close> the numbers are spaced
  \<open>2^-1074\<close> apart. \<open>round_even\<close> rounds to the nearest integer, ties to the even one;
  \<open>binade x\<close> is the binary exponent of \<open>x\<close>, not below that of the subnormal numbers;
  \<open>ulp x\<close> is the spacing of the float64 numbers around \<open>x\<close>. A rounded value of
  \<open>2^1024\<close> or more is \<open>inf\<close> in float64: \<open>f64\<close> returns \<open>NotFinite\<close> for it.
\<close>

definition round_even :: "real \<Rightarrow> int" where
  "round_even x =
     (let f = \<lfloor>x\<rfloor>; d = x - of_int f
      in if d < 1 / 2 then f else if 1 / 2 < d then f + 1 else if even f then f else f + 1)"

definition binade :: "real \<Rightarrow> int" where
  "binade x = max \<lfloor>log 2 \<bar>x\<bar>\<rfloor> (- 1022)"

definition ulp :: "real \<Rightarrow> real" where
  "ulp x = 2 powr of_int (binade x - 52)"

definition fl64 :: "real \<Rightarrow> real" where
  "fl64 x = of_int (round_even (x / ulp x)) * ulp x"

definition f64 :: "real \<Rightarrow> failure + real" where
  "f64 x = (if 2 ^ 1024 \<le> \<bar>fl64 x\<bar> then Inl NotFinite else Inr (fl64 x))"

subsection \<open>The scale step of transform\_poses\_pca in float64\<close>

text \<open>\<open>p[:3, 3] *= s\<close>, each product rounded.\<close>

definition scale_translation_f64 :: "real \<Rightarrow> mat34 \<Rightarrow> mat34" where
  "scale_translation_f64 s p =
     Mat34 (Vec4 (wx (p0 p)) (wy (p0 p)) (wz (p0 p)) (fl64 (ww (p0 p) * s)))
           (Vec4 (wx (p1 p)) (wy (p1 p)) (wz (p1 p)) (fl64 (ww (p1 p) * s)))
           (Vec4 (wx (p2 p)) (wy (p2 p)) (wz (p2 p)) (fl64 (ww (p2 p) * s)))"

text \<open>
  The poses that \<open>transform_poses_pca\<close> returns (the first component of its result), with
  the rounding of the two lines that scale them: \<open>scale_factor = 1. / np.max(...)\<close> is a
  rounded quotient, \<open>inf\<close> when it overflows, and \<open>poses_recentered[:, :3, 3] *= scale_factor\<close>
  rounds each product. The lines before are read as in \<open>transform_poses_pca\<close>.
\<close>

definition transform_poses_pca_poses_f64 ::
  "(mat3 \<Rightarrow> vec3 \<times> mat3) \<Rightarrow> mat34 list \<Rightarrow> failure + mat34 list" where
  "transform_poses_pca_poses_f64 eig poses =
     (if poses = [] then Inl ValueError
      else
        let poses_recentered = fst (pca_recenter eig poses);
            m = max_abs_translation poses_recentered
        in if m = 0 then Inl NotFinite
           else and_then (f64 (1 / m)) (\<lambda>scale_factor.
                  Inr (map (scale_translation_f64 scale_factor) poses_recentered)))"

text \<open>Two poses with the identity as rotation, at (49, 0, 0) and (-49, 0, 0).\<close>

definition far_poses :: "mat34 list" where
  "far_poses = [Mat34 (Vec4 1 0 0 49) (Vec4 0 1 0 0) (Vec4 0 0 1 0),
                Mat34 (Vec4 1 0 0 (- 49)) (Vec4 0 1 0 0) (Vec4 0 0 1 0)]"

subsection \<open>The radius and the height of generate\_spherify\_path in float64\<close>

text \<open>
  \<open>np.sum(np.square(v), -1)\<close> on a row of three numbers: the squares are rounded, and
  they are added from left to right with a rounding after each addition.
\<close>

definition sq_norm_f64 :: "vec3 \<Rightarrow> failure + real" where
  "sq_norm_f64 v =
     and_then (f64 (vx v * vx v)) (\<lambda>a.
     and_then (f64 (vy v * vy v)) (\<lambda>b.
     and_then (f64 (vz v * vz v)) (\<lambda>c.
     and_then (f64 (a + b)) (\<lambda>s. f64 (s + c)))))"

text \<open>
  \<open>np.mean\<close> along an axis of fewer than 8 numbers: the sum from left to right, starting
  from 0, then the quotient by the count (numpy adds longer contiguous arrays pairwise; the
  arrays below have two numbers). The mean of an empty axis is \<open>nan\<close>.
\<close>

fun sum_f64 :: "real \<Rightarrow> real list \<Rightarrow> failure + real" where
  "sum_f64 acc [] = Inr acc"
| "sum_f64 acc (x # xs) = and_then (f64 (acc + x)) (\<lambda>a. sum_f64 a xs)"

definition mean_f64 :: "real list \<Rightarrow> failure + real" where
  "mean_f64 xs =
     (if xs = [] then Inl NotFinite
      else and_then (sum_f64 0 xs) (\<lambda>s. f64 (s / real (length xs))))"

text \<open>
  Lines 408 to 415: \<open>rad\<close>, \<open>sc\<close>, the scaling of the translations and of \<open>rad\<close>, the
  centroid and \<open>zh\<close>, each operation rounded. Of the scaled translations and of the
  centroid only the z coordinates are read afterwards, and only they are computed here.
  The result is the pair of \<open>rad\<close> (after \<open>rad *= sc\<close>) and \<open>zh\<close>.
\<close>

definition spherify_rad_zh_f64 :: "mat4 list \<Rightarrow> failure + (real \<times> real)" where
  "spherify_rad_zh_f64 poses_reset =
     (let t = map (\<lambda>p. pcol3 (unpad_poses p)) poses_reset
      in and_then (sequence (map sq_norm_f64 t)) (\<lambda>sq.
         and_then (mean_f64 sq) (\<lambda>msq.
           let rad = fl64 (sqrt msq)
           in if rad = 0 then Inl NotFinite
              else
                and_then (f64 (1 / rad)) (\<lambda>sc.
                and_then (sequence (map (\<lambda>v. f64 (vz v * sc)) t)) (\<lambda>tz.
                and_then (f64 (rad * sc)) (\<lambda>rad.
                and_then (mean_f64 tz) (\<lambda>zh. Inr (rad, zh))))))))"

text \<open>Line 416: \<open>radcircle = np.sqrt(rad**2 - zh**2)\<close>, with no test of the sign before the root.\<close>

definition radcircle_f64 :: "real \<Rightarrow> real \<Rightarrow> failure + real" where
  "radcircle_f64 rad zh =
     and_then (f64 (rad * rad)) (\<lambda>a.
     and_then (f64 (zh * zh)) (\<lambda>b.
     and_then (f64 (a - b)) (\<lambda>d.
     and_then (np_sqrt d) (\<lambda>r. Inr (fl64 r)))))"

text \<open>Lines 408 to 435 on the recentered poses: the radius, the height and the loop.\<close>

definition spherify_orbit_f64 :: "mat4 list \<Rightarrow> failure + mat4 list" where
  "spherify_orbit_f64 poses_reset =
     and_then (spherify_rad_zh_f64 poses_reset) (\<lambda>(rad, zh).
     and_then (radcircle_f64 rad zh) (\<lambda>radcircle.
       sequence (map (spherify_pose radcircle zh) (linspace 0 (2 * pi) 120))))"

text \<open>
  A recentered array of two cameras on the axis, at the heights 49 - 2^-28 and 49 + 2^-28
  (rotation blocks the identity).
\<close>

definition near_axis_reset :: "mat4 list" where
  "near_axis_reset =
     [Mat4 (Vec4 1 0 0 0) (Vec4 0 1 0 0) (Vec4 0 0 1 (49 - 1 / 2 ^ 28)) (Vec4 0 0 0 1),
      Mat4 (Vec4 1 0 0 0) (Vec4 0 1 0 0) (Vec4 0 0 1 (49 + 1 / 2 ^ 28)) (Vec4 0 0 0 1)]"

section \<open>Basic facts\<close>

lemma and_then_simps [simp]:
  "and_then (Inl e) f = Inl e"
  "and_then (Inr x) f = f x"
  by (simp_all add: and_then_def)

lemmas vec_defs = zero3_def add3_def sub3_def neg3_def smul3_def sdiv3_def dot3_def cross3_def

lemma cumsum_from_ge: "\<forall>x\<in>set xs. 0 \<le> x \<Longrightarrow> y \<in> set (cumsum_from acc xs) \<Longrightarrow> acc \<le> y"
proof (induction xs arbitrary: acc)
  case Nil
  then show ?case by simp
next
  case (Cons x xs)
  from Cons.prems have x: "0 \<le> x" and xs: "\<forall>x\<in>set xs. 0 \<le> x" by simp_all
  from Cons.prems(2) have "y = acc + x \<or> y \<in> set (cumsum_from (acc + x) xs)" by simp
  then show ?case
  proof
    assume "y = acc + x" with x show ?thesis by simp
  next
    assume "y \<in> set (cumsum_from (acc + x) xs)"
    from Cons.IH [OF xs this] x show ?thesis by simp
  qed
qed

lemma cumsum_from_sorted: "\<forall>x\<in>set xs. 0 \<le> x \<Longrightarrow> sorted (cumsum_from acc xs)"
proof (induction xs arbitrary: acc)
  case Nil
  then show ?case by simp
next
  case (Cons x xs)
  from Cons.prems have xs: "\<forall>x\<in>set xs. 0 \<le> x" by simp
  have "\<forall>y\<in>set (cumsum_from (acc + x) xs). acc + x \<le> y"
    using cumsum_from_ge [OF xs] by blast
  with Cons.IH [OF xs] show ?case by simp
qed

lemma sorted_map_min: "sorted xs \<Longrightarrow> sorted (map (min (c::real)) xs)"
  by (induction xs) (auto simp: min_def)

lemma length_cumsum_from: "length (cumsum_from acc xs) = length xs"
  by (induction xs arbitrary: acc) simp_all

lemma integrate_weights_np_sorted:
  assumes "\<forall>x\<in>set w. 0 \<le> x"
  shows "sorted (integrate_weights_np w)"
proof -
  have nn: "\<forall>x\<in>set (butlast w). 0 \<le> x"
    using assms by (meson in_set_butlastD)
  let ?cw = "map (min 1) (cumsum (butlast w))"
  have s: "sorted ?cw"
    unfolding cumsum_def by (rule sorted_map_min) (rule cumsum_from_sorted [OF nn])
  have lo: "\<forall>y\<in>set ?cw. 0 \<le> y"
    using cumsum_from_ge [OF nn, of _ 0] by (auto simp: cumsum_def)
  have hi: "\<forall>y\<in>set ?cw. y \<le> 1" by auto
  show ?thesis
    using s lo hi by (simp add: integrate_weights_np_def sorted_append)
qed

text \<open>
  Claim C4. For weights that are nonnegative and sum to 1 along the last axis, the CDF
  that \<open>integrate_weights_np\<close> builds is non-decreasing, its first entry is 0 and its
  last entry is 1 (and it is one entry longer than the weights).
\<close>

theorem integrate_weights_np_cdf:
  assumes "\<forall>x\<in>set w. 0 \<le> x" and "sum_list w = 1"
  shows "sorted (integrate_weights_np w) \<and>
         integrate_weights_np w ! 0 = 0 \<and>
         last (integrate_weights_np w) = 1 \<and>
         length (integrate_weights_np w) = length w + 1"
proof -
  from assms(2) have "w \<noteq> []" by auto
  then have "length (integrate_weights_np w) = length w + 1"
    by (simp add: integrate_weights_np_def cumsum_def length_cumsum_from)
  moreover have "integrate_weights_np w ! 0 = 0" "last (integrate_weights_np w) = 1"
    by (simp_all add: integrate_weights_np_def)
  ultimately show ?thesis using integrate_weights_np_sorted [OF assms(1)] by simp
qed

theorem integrate_weights_np_cdf_witness:
  "list_all (\<lambda>x. 0 \<le> x) [1/4, 1/2, 1/4 :: real] \<and> sum_list [1/4, 1/2, 1/4 :: real] = 1 \<and>
   integrate_weights_np [1/4, 1/2, 1/4] = [0, 1/4, 3/4, 1] \<and>
   sorted (integrate_weights_np [1/4, 1/2, 1/4])"
proof -
  have h1: "\<forall>x\<in>set [1/4, 1/2, 1/4 :: real]. 0 \<le> x" by simp
  have h2: "sum_list [1/4, 1/2, 1/4 :: real] = 1" by simp
  have "integrate_weights_np [1/4, 1/2, 1/4] = [0, 1/4, 3/4, 1]"
    by (simp add: integrate_weights_np_def cumsum_def)
  with h1 h2 integrate_weights_np_cdf [OF h1 h2] show ?thesis by simp
qed

lemma spiral_focal_sum_aux:
  "foldl (\<lambda>focal view. focal + c) a vs = a + real (length vs) * c"
  by (induction vs arbitrary: a) (simp_all add: algebra_simps)

lemma spiral_focal_first:
  "views \<noteq> [] \<Longrightarrow> spiral_focal views = Inr (get_focal (views ! 0))"
  by (simp add: spiral_focal_def spiral_focal_sum_def spiral_focal_sum_aux)

text \<open>
  Claim C7. The second \<open>generate_spiral_path\<close> is said to use the mean of
  \<open>get_focal\<close> over all views. Its loop adds \<open>get_focal(views[0])\<close> each time, so
  the focal depth is that of the first view: on two views with \<open>FoVx\<close> 1 and 3 the
  code computes 1, the mean is 2.
\<close>

theorem spiral_focal_not_mean:
  "spiral_focal [\<lparr>R = r, T = t, FoVx = 1\<rparr>, \<lparr>R = r, T = t, FoVx = 3\<rparr>] = Inr 1 \<and>
   mean_focal [\<lparr>R = r, T = t, FoVx = 1\<rparr>, \<lparr>R = r, T = t, FoVx = 3\<rparr>] = 2"
  by (simp add: spiral_focal_def spiral_focal_sum_def mean_focal_def get_focal_def)


lemma dot3_cross3_self [simp]:
  "dot3 (cross3 a b) a = 0" "dot3 (cross3 a b) b = 0"
  "dot3 a (cross3 a b) = 0" "dot3 b (cross3 a b) = 0"
  by (simp_all add: vec_defs algebra_simps)

lemma dot3_commute: "dot3 a b = dot3 b a"
  by (simp add: dot3_def mult.commute)

lemma dot3_self_nonneg [simp]: "0 \<le> dot3 a a"
  by (simp add: dot3_def)

lemma dot3_self_zero_iff: "dot3 a a = 0 \<longleftrightarrow> a = zero3"
proof
  assume h: "dot3 a a = 0"
  have "vx a * vx a \<ge> 0" "vy a * vy a \<ge> 0" "vz a * vz a \<ge> 0" by simp_all
  with h have "vx a * vx a = 0 \<and> vy a * vy a = 0 \<and> vz a * vz a = 0"
    unfolding dot3_def by linarith
  then show "a = zero3" by (simp add: zero3_def vec3.expand)
next
  assume "a = zero3" then show "dot3 a a = 0" by (simp add: zero3_def dot3_def)
qed

lemma norm3_zero_iff: "norm3 a = 0 \<longleftrightarrow> a = zero3"
  by (simp add: norm3_def dot3_self_zero_iff)

lemma norm3_nonneg [simp]: "0 \<le> norm3 a"
  by (simp add: norm3_def)

lemma norm3_pos: "a \<noteq> zero3 \<Longrightarrow> 0 < norm3 a"
  using norm3_zero_iff [of a] norm3_nonneg [of a] by linarith

lemma norm3_sq: "norm3 a * norm3 a = dot3 a a"
  by (simp add: norm3_def)

lemma dot3_sdiv3: "dot3 (sdiv3 a c) (sdiv3 b d) = dot3 a b / (c * d)"
  by (simp add: dot3_def sdiv3_def add_divide_distrib)

lemma dot3_sdiv3_left: "dot3 (sdiv3 a c) b = dot3 a b / c"
  by (simp add: dot3_def sdiv3_def add_divide_distrib)

lemma dot3_sdiv3_right: "dot3 a (sdiv3 b c) = dot3 a b / c"
  by (simp add: dot3_def sdiv3_def add_divide_distrib)

lemma cross3_sdiv3_left: "cross3 (sdiv3 a c) b = sdiv3 (cross3 a b) c"
  by (simp add: cross3_def sdiv3_def diff_divide_distrib)

lemma cross3_sdiv3_right: "cross3 a (sdiv3 b c) = sdiv3 (cross3 a b) c"
  by (simp add: cross3_def sdiv3_def diff_divide_distrib)

lemma sdiv3_zero_iff: "c \<noteq> 0 \<Longrightarrow> sdiv3 a c = zero3 \<longleftrightarrow> a = zero3"
  by (auto simp: sdiv3_def zero3_def vec3.expand)

lemma sdiv3_one [simp]: "sdiv3 a 1 = a"
  by (simp add: sdiv3_def)

lemma sq_normal_range: "sq_normal s \<Longrightarrow> \<not> sq_overflows s \<and> \<not> sq_underflows s"
proof -
  assume "sq_normal s"
  then have a: "1 / 2 ^ 1022 \<le> s" and b: "s \<le> 2 ^ 1023" by (simp_all add: sq_normal_def)
  have "(2::real) ^ 1023 < 2 ^ 1024" by (rule power_strict_increasing) simp_all
  with b have o: "s < 2 ^ 1024" by linarith
  have "(2::real) ^ 1022 < 2 ^ 1075" by (rule power_strict_increasing) simp_all
  then have "1 / (2::real) ^ 1075 < 1 / 2 ^ 1022" by (simp add: frac_less2)
  with a have "1 / 2 ^ 1075 < s" by linarith
  with o show ?thesis by (simp add: sq_overflows_def sq_underflows_def)
qed

lemma sq_underflows_pos: "\<not> sq_underflows s \<Longrightarrow> 0 < s"
proof -
  assume "\<not> sq_underflows s"
  then have "1 / 2 ^ 1075 < s" by (simp add: sq_underflows_def)
  moreover have "0 < 1 / (2::real) ^ 1075" by simp
  ultimately show ?thesis by linarith
qed

lemma sq_one_range [simp]: "\<not> sq_overflows 1" "\<not> sq_underflows 1"
proof -
  have "(1::real) < 2 ^ 1024" by (rule one_less_power) simp_all
  then show "\<not> sq_overflows 1" by (simp add: sq_overflows_def)
  have "(1::real) < 2 ^ 1075" by (rule one_less_power) simp_all
  then show "\<not> sq_underflows 1" by (simp add: sq_underflows_def)
qed

lemma sq_zero_range [simp]: "\<not> sq_overflows 0" "sq_underflows 0"
  by (simp_all add: sq_overflows_def sq_underflows_def)

lemma normalize_value:
  assumes "\<not> sq_overflows (dot3 a a)" "\<not> sq_underflows (dot3 a a)"
  shows "normalize a = Inr (sdiv3 a (norm3 a))"
  using assms by (simp add: normalize_def)

lemma normalize_zero3 [simp]: "normalize zero3 = Inl NotFinite"
  by (simp add: normalize_def dot3_def zero3_def)

lemma normalize_Inr:
  assumes "normalize a = Inr v"
  shows "(sq_overflows (dot3 a a) \<and> v = zero3) \<or>
         (\<not> sq_overflows (dot3 a a) \<and> \<not> sq_underflows (dot3 a a) \<and> v = sdiv3 a (norm3 a))"
  using assms by (auto simp: normalize_def split: if_splits)

lemma sdiv3_norm3_unit:
  assumes "0 < dot3 a a" shows "dot3 (sdiv3 a (norm3 a)) (sdiv3 a (norm3 a)) = 1"
  using assms by (simp add: dot3_sdiv3 norm3_sq)

lemma normalize_of_unit:
  assumes "dot3 a a = 1" shows "normalize a = Inr a"
proof -
  from assms have "norm3 a = 1" by (simp add: norm3_def)
  then show ?thesis by (simp add: normalize_def assms)
qed

lemma lagrange3:
  "dot3 (cross3 a b) (cross3 a b) = dot3 a a * dot3 b b - dot3 a b * dot3 a b"
  by (simp add: vec_defs algebra_simps)

lemma cross3_triple:
  "cross3 a (cross3 b c) = sub3 (smul3 (dot3 a c) b) (smul3 (dot3 a b) c)"
  by (simp add: vec_defs algebra_simps)

lemma norm3_smul3: "norm3 (smul3 c a) = \<bar>c\<bar> * norm3 a"
proof -
  have "dot3 (smul3 c a) (smul3 c a) = (c * c) * dot3 a a"
    by (simp add: vec_defs algebra_simps)
  then show ?thesis by (simp add: norm3_def real_sqrt_mult)
qed

lemma sdiv3_smul3_norm3:
  assumes "0 < c" shows "sdiv3 (smul3 c a) (norm3 (smul3 c a)) = sdiv3 a (norm3 a)"
proof -
  from assms have n: "norm3 (smul3 c a) = c * norm3 a" by (simp add: norm3_smul3)
  from assms show ?thesis unfolding n by (simp add: sdiv3_def smul3_def)
qed

lemma cross3_smul3_left: "cross3 (smul3 c a) b = smul3 c (cross3 a b)"
  by (simp add: vec_defs algebra_simps)

lemma cross3_zero3_right [simp]: "cross3 a zero3 = zero3"
  by (simp add: vec_defs)

lemma rot_block_stack_cols:
  "rot_block (stack_cols a b c d) = transpose3 (Mat3 a b c)"
  by (simp add: rot_block_def stack_cols_def pcol0_def pcol1_def pcol2_def)

lemma gram_cols:
  "mm3 (transpose3 (transpose3 (Mat3 a b c))) (transpose3 (Mat3 a b c)) =
     Mat3 (Vec3 (dot3 a a) (dot3 a b) (dot3 a c))
          (Vec3 (dot3 b a) (dot3 b b) (dot3 b c))
          (Vec3 (dot3 c a) (dot3 c b) (dot3 c c))"
  by (simp add: mm3_def vm3_def transpose3_def vec_defs)

lemma det3_transpose3: "det3 (transpose3 m) = det3 m"
  by (simp add: det3_def transpose3_def vec_defs algebra_simps)

lemma viewmatrix_frame:
  assumes "\<not> sq_overflows (dot3 z z)" "\<not> sq_underflows (dot3 z z)"
    and "\<not> sq_overflows (dot3 (cross3 up (sdiv3 z (norm3 z))) (cross3 up (sdiv3 z (norm3 z))))"
    and "\<not> sq_underflows (dot3 (cross3 up (sdiv3 z (norm3 z))) (cross3 up (sdiv3 z (norm3 z))))"
  obtains vec0 vec1 vec2 where
    "normalize z = Inr vec2"
    "normalize (cross3 up vec2) = Inr vec0"
    "normalize (cross3 vec2 vec0) = Inr vec1"
    "vec1 = cross3 vec2 vec0"
    "dot3 vec2 vec2 = 1" "dot3 vec0 vec0 = 1" "dot3 vec0 vec2 = 0"
    "cross3 vec2 (cross3 up vec2) = sub3 up (smul3 (dot3 up vec2) vec2)"
    "vec0 = sdiv3 (cross3 up vec2) (norm3 (cross3 up vec2))"
    "norm3 (cross3 up vec2) \<noteq> 0"
    "vec2 = sdiv3 z (norm3 z)"
proof -
  define vec2 where "vec2 = sdiv3 z (norm3 z)"
  have n2: "normalize z = Inr vec2" unfolding vec2_def by (rule normalize_value [OF assms(1,2)])
  have u2: "dot3 vec2 vec2 = 1"
    unfolding vec2_def by (rule sdiv3_norm3_unit) (rule sq_underflows_pos [OF assms(2)])
  have cpos: "0 < dot3 (cross3 up vec2) (cross3 up vec2)"
    unfolding vec2_def by (rule sq_underflows_pos [OF assms(4)])
  then have nc: "norm3 (cross3 up vec2) \<noteq> 0" by (simp add: norm3_def)
  define vec0 where "vec0 = sdiv3 (cross3 up vec2) (norm3 (cross3 up vec2))"
  have n0: "normalize (cross3 up vec2) = Inr vec0"
    unfolding vec0_def using assms(3,4) unfolding vec2_def [symmetric] by (rule normalize_value)
  have u0: "dot3 vec0 vec0 = 1" unfolding vec0_def by (rule sdiv3_norm3_unit [OF cpos])
  have o02: "dot3 vec0 vec2 = 0" by (simp add: vec0_def dot3_sdiv3_left)
  have o20: "dot3 vec2 vec0 = 0" using o02 by (simp add: dot3_commute)
  define vec1 where "vec1 = cross3 vec2 vec0"
  have "dot3 vec1 vec1 = 1" by (simp add: vec1_def lagrange3 u2 u0 o20)
  then have "normalize vec1 = Inr vec1" by (rule normalize_of_unit)
  then have nn1: "normalize (cross3 vec2 vec0) = Inr vec1" by (simp add: vec1_def)
  have p: "cross3 vec2 (cross3 up vec2) = sub3 up (smul3 (dot3 up vec2) vec2)"
    by (simp add: cross3_triple u2 dot3_commute [of vec2 up]) (simp add: vec_defs)
  show thesis
    by (rule that [OF n2 n0 nn1 vec1_def u2 u0 o02 p vec0_def nc vec2_def])
qed

lemma pcols_stack_cols [simp]:
  "pcol0 (stack_cols a b c d) = a" "pcol1 (stack_cols a b c d) = b"
  "pcol2 (stack_cols a b c d) = c" "pcol3 (stack_cols a b c d) = d"
  by (simp_all add: stack_cols_def pcol0_def pcol1_def pcol2_def pcol3_def)

lemma cross3_triple_left:
  "cross3 (cross3 a b) c = sub3 (smul3 (dot3 c a) b) (smul3 (dot3 c b) a)"
  by (simp add: vec_defs algebra_simps)

lemma viewmatrix_facts:
  assumes "\<not> sq_overflows (dot3 z z)" "\<not> sq_underflows (dot3 z z)"
    and "\<not> sq_overflows (dot3 (cross3 up (sdiv3 z (norm3 z))) (cross3 up (sdiv3 z (norm3 z))))"
    and "\<not> sq_underflows (dot3 (cross3 up (sdiv3 z (norm3 z))) (cross3 up (sdiv3 z (norm3 z))))"
  shows "\<exists>P. viewmatrix z up pos = Inr P \<and> is_rotation (rot_block P) \<and> pcol3 P = pos \<and>
           pcol2 P = sdiv3 z (norm3 z) \<and>
           normalize (sub3 up (smul3 (dot3 up (pcol2 P)) (pcol2 P))) = Inr (pcol1 P) \<and>
           (\<forall>a b. 0 < a \<and> 0 < b \<and>
                  \<not> sq_overflows (dot3 (smul3 a z) (smul3 a z)) \<and>
                  \<not> sq_underflows (dot3 (smul3 a z) (smul3 a z)) \<and>
                  \<not> sq_overflows (dot3 (cross3 (smul3 b up) (pcol2 P)) (cross3 (smul3 b up) (pcol2 P))) \<and>
                  \<not> sq_underflows (dot3 (cross3 (smul3 b up) (pcol2 P)) (cross3 (smul3 b up) (pcol2 P)))
                \<longrightarrow> viewmatrix (smul3 a z) (smul3 b up) pos = Inr P)"
proof -
  from viewmatrix_frame [OF assms] obtain vec0 vec1 vec2 where
    n2: "normalize z = Inr vec2" and
    n0: "normalize (cross3 up vec2) = Inr vec0" and
    n1: "normalize (cross3 vec2 vec0) = Inr vec1" and
    v1: "vec1 = cross3 vec2 vec0" and
    u2: "dot3 vec2 vec2 = 1" and u0: "dot3 vec0 vec0 = 1" and o02: "dot3 vec0 vec2 = 0" and
    p: "cross3 vec2 (cross3 up vec2) = sub3 up (smul3 (dot3 up vec2) vec2)" and
    v0: "vec0 = sdiv3 (cross3 up vec2) (norm3 (cross3 up vec2))" and
    nc: "norm3 (cross3 up vec2) \<noteq> 0" and
    v2: "vec2 = sdiv3 z (norm3 z)"
    by blast
  let ?P = "stack_cols vec0 vec1 vec2 pos"
  have vm: "viewmatrix z up pos = Inr ?P"
    by (simp add: viewmatrix_def n2 n0 n1 and_then_def)
  have o20: "dot3 vec2 vec0 = 0" using o02 by (simp add: dot3_commute)
  have u1: "dot3 vec1 vec1 = 1" by (simp add: v1 lagrange3 u2 u0 o20)
  have o01: "dot3 vec0 vec1 = 0" "dot3 vec1 vec0 = 0" "dot3 vec1 vec2 = 0" "dot3 vec2 vec1 = 0"
    by (simp_all add: v1)
  have "cross3 vec1 vec2 = vec0"
    unfolding v1 by (simp add: cross3_triple_left u2 o20) (simp add: vec_defs)
  then have d: "det3 (Mat3 vec0 vec1 vec2) = 1"
    by (simp add: det3_def u0)
  have rot: "is_rotation (rot_block ?P)"
    unfolding is_rotation_def rot_block_stack_cols gram_cols det3_transpose3
    by (simp add: u0 u1 u2 o01 o02 o20 d id3_def)
  have v1p: "vec1 = sdiv3 (sub3 up (smul3 (dot3 up vec2) vec2)) (norm3 (cross3 up vec2))"
    unfolding v1 v0 cross3_sdiv3_right p ..
  let ?q = "sub3 up (smul3 (dot3 up vec2) vec2)"
  let ?n = "norm3 (cross3 up vec2)"
  have npos: "0 < ?n" using nc norm3_nonneg [of "cross3 up vec2"] by linarith
  have "dot3 vec1 vec1 = dot3 ?q ?q / (?n * ?n)" by (subst (1 2) v1p) (rule dot3_sdiv3)
  from this [symmetric] u1 have "dot3 ?q ?q / (?n * ?n) = 1" by (rule trans)
  then have "dot3 ?q ?q = ?n * ?n" by (simp only: divide_eq_1_iff)
  then have qq: "dot3 ?q ?q = dot3 (cross3 up vec2) (cross3 up vec2)" by (simp only: norm3_sq)
  then have nq: "norm3 ?q = ?n" by (simp only: norm3_def)
  have "normalize ?q = Inr (sdiv3 ?q (norm3 ?q))"
  proof (rule normalize_value)
    show "\<not> sq_overflows (dot3 ?q ?q)" unfolding qq unfolding v2 by (rule assms(3))
    show "\<not> sq_underflows (dot3 ?q ?q)" unfolding qq unfolding v2 by (rule assms(4))
  qed
  then have proj: "normalize ?q = Inr vec1" by (simp only: nq v1p [symmetric])
  have inv: "viewmatrix (smul3 a z) (smul3 b up) pos = Inr ?P"
    if "0 < a" "0 < b"
      "\<not> sq_overflows (dot3 (smul3 a z) (smul3 a z))"
      "\<not> sq_underflows (dot3 (smul3 a z) (smul3 a z))"
      "\<not> sq_overflows (dot3 (cross3 (smul3 b up) vec2) (cross3 (smul3 b up) vec2))"
      "\<not> sq_underflows (dot3 (cross3 (smul3 b up) vec2) (cross3 (smul3 b up) vec2))" for a b
  proof -
    have "normalize (smul3 a z) = Inr (sdiv3 (smul3 a z) (norm3 (smul3 a z)))"
      by (rule normalize_value [OF that(3,4)])
    then have a: "normalize (smul3 a z) = Inr vec2"
      by (simp only: sdiv3_smul3_norm3 [OF that(1)] v2)
    have "normalize (cross3 (smul3 b up) vec2) =
          Inr (sdiv3 (cross3 (smul3 b up) vec2) (norm3 (cross3 (smul3 b up) vec2)))"
      by (rule normalize_value [OF that(5,6)])
    then have b: "normalize (cross3 (smul3 b up) vec2) = Inr vec0"
      by (simp only: cross3_smul3_left sdiv3_smul3_norm3 [OF that(2)] v0)
    show ?thesis by (simp add: viewmatrix_def a b n1 and_then_def)
  qed
  show ?thesis
    using vm rot proj v2 inv by (intro exI [of _ ?P]) simp
qed




lemmas mat_defs = id3_def vm3_def mm3_def sub_m3_def add_m3_def sdiv_m3_def zero_m3_def diag3_def
  mv3_def outer3_def add4_def smul4_def dot4_def id4_def diag4_def vm4_def mm4_def mm344_def
  vm34_def mm334_def hcat_def pad_poses_def unpad_poses_def transpose3_def transpose4_def det3_def
  del0_def del1_def del2_def del3_def cofactors_def det4_def adjugate4_def smul_m4_def

lemma adjugate4_left: "mm4 (adjugate4 m) m = smul_m4 (det4 m) id4"
  by (simp add: mat_defs vec_defs algebra_simps)

lemma adjugate4_right: "mm4 m (adjugate4 m) = smul_m4 (det4 m) id4"
  by (simp add: mat_defs vec_defs algebra_simps)

lemma mm4_assoc: "mm4 (mm4 a b) c = mm4 a (mm4 b c)"
  by (simp add: mat_defs vec_defs algebra_simps)

lemmas pose_defs = pcol0_def pcol1_def pcol2_def pcol3_def stack_cols_def rot_block_def

lemma mm4_smul_m4_left: "mm4 (smul_m4 c a) b = smul_m4 c (mm4 a b)"
  by (simp add: mat_defs vec_defs algebra_simps)

lemma smul_m4_id4: "c \<noteq> 0 \<Longrightarrow> smul_m4 (1 / c) (smul_m4 c id4) = id4"
  by (simp add: smul_m4_def smul4_def id4_def)

lemma mm4_id4_left [simp]: "mm4 id4 a = a"
  by (simp add: mat_defs vec_defs)

lemma inv4_left:
  assumes "det4 m \<noteq> 0"
  obtains mi where "inv4 m = Inr mi" "mm4 mi m = id4"
proof
  show "inv4 m = Inr (smul_m4 (1 / det4 m) (adjugate4 m))"
    using assms by (simp add: inv4_def)
  show "mm4 (smul_m4 (1 / det4 m) (adjugate4 m)) m = id4"
    using assms by (simp add: mm4_smul_m4_left adjugate4_left smul_m4_id4)
qed

lemma det4_pad_hcat: "det4 (Mat4 (p0 (hcat m v)) (p1 (hcat m v)) (p2 (hcat m v)) (Vec4 0 0 0 1)) = det3 m"
  by (simp add: mat_defs vec_defs algebra_simps)

lemma det4_flip: "det4 (mm4 (diag4 1 (- 1) (- 1) 1) m) = det4 m"
  by (simp add: mat_defs vec_defs algebra_simps)

lemma det4_scale: "det4 (mm4 (diag4 s s s 1) m) = s * s * s * det4 m"
  by (simp add: mat_defs vec_defs algebra_simps)

lemma rev_argsort3:
  "rev (argsort [a, b, c]) \<in> {[0, 1, 2], [0, 2, 1], [1, 0, 2], [1, 2, 0], [2, 0, 1], [2, 1, 0]}"
  by (simp add: argsort_def)

lemma det3_cols_perm:
  assumes "is \<in> {[0, 1, 2], [0, 2, 1], [1, 0, 2], [1, 2, 0], [2, 0, 1], [2, 1, 0]}"
  shows "\<bar>det3 (Mat3 (mcol3 e (is ! 0)) (mcol3 e (is ! 1)) (mcol3 e (is ! 2)))\<bar> = \<bar>det3 e\<bar>"
proof -
  have t: "det3 (Mat3 (mcol3 e 0) (mcol3 e 1) (mcol3 e 2)) = det3 e"
    by (simp add: mcol3_def det3_def vec_defs algebra_simps)
  have "det3 (Mat3 (mcol3 e 0) (mcol3 e 2) (mcol3 e 1)) = - det3 e"
       "det3 (Mat3 (mcol3 e 1) (mcol3 e 0) (mcol3 e 2)) = - det3 e"
       "det3 (Mat3 (mcol3 e 1) (mcol3 e 2) (mcol3 e 0)) = det3 e"
       "det3 (Mat3 (mcol3 e 2) (mcol3 e 0) (mcol3 e 1)) = det3 e"
       "det3 (Mat3 (mcol3 e 2) (mcol3 e 1) (mcol3 e 0)) = - det3 e"
    by (simp_all add: mcol3_def det3_def vec_defs algebra_simps)
  with t assms show ?thesis by auto
qed

lemma det3_flip_z: "det3 (mm3 (diag3 1 1 (- 1)) m) = - det3 m"
  by (simp add: mat_defs vec_defs algebra_simps)

lemma transpose3_transpose3 [simp]: "transpose3 (transpose3 m) = m"
  by (simp add: transpose3_def)

lemma det3_pca_rot:
  "det3 (pca_rot eig poses) = \<bar>det3 (snd (eig (gram3 (pca_centered poses))))\<bar>"
proof -
  obtain eigval eigvec where e: "eig (gram3 (pca_centered poses)) = (eigval, eigvec)"
    by (cases "eig (gram3 (pca_centered poses))")
  define js where "js = rev (argsort (list_of_vec3 eigval))"
  define rot where "rot = Mat3 (mcol3 eigvec (js ! 0)) (mcol3 eigvec (js ! 1)) (mcol3 eigvec (js ! 2))"
  have a: "\<bar>det3 rot\<bar> = \<bar>det3 eigvec\<bar>"
    unfolding rot_def by (rule det3_cols_perm) (simp only: js_def list_of_vec3_def rev_argsort3)
  have "pca_rot eig poses = (if det3 rot < 0 then mm3 (diag3 1 1 (- 1)) rot else rot)"
    by (simp add: pca_rot_def e Let_def rot_def js_def)
  then have "det3 (pca_rot eig poses) = \<bar>det3 rot\<bar>"
    by (simp add: det3_flip_z)
  with a show ?thesis by (simp add: e)
qed

lemma unpad_pad [simp]: "unpad_poses (pad_poses p) = p"
  by (simp add: pad_poses_def unpad_poses_def)

lemma recenter_plain:
  "mm344 tr (pad_poses p) =
     unpad_poses (mm4 (Mat4 (p0 tr) (p1 tr) (p2 tr) (Vec4 0 0 0 1)) (pad_poses p))"
  by (simp add: mm344_def mm4_def unpad_poses_def)

lemma recenter_flipped:
  "mm334 (diag3 1 (- 1) (- 1)) (mm344 tr (pad_poses p)) =
     unpad_poses (mm4 (mm4 (diag4 1 (- 1) (- 1) 1) (Mat4 (p0 tr) (p1 tr) (p2 tr) (Vec4 0 0 0 1)))
                      (pad_poses p))"
  by (simp add: mat_defs vec_defs algebra_simps)

lemma pca_recenter_affine:
  obtains t1 where
    "pca_recenter eig poses = (map (\<lambda>p. unpad_poses (mm4 t1 (pad_poses p))) poses, t1)"
    "q3 t1 = Vec4 0 0 0 1"
    "det4 t1 = det3 (pca_rot eig poses)"
proof -
  define tr where "tr = hcat (pca_rot eig poses) (mv3 (pca_rot eig poses) (neg3 (pca_t_mean poses)))"
  define t0 where "t0 = Mat4 (p0 tr) (p1 tr) (p2 tr) (Vec4 0 0 0 1)"
  have d0: "det4 t0 = det3 (pca_rot eig poses)"
    unfolding t0_def tr_def by (rule det4_pad_hcat)
  show thesis
  proof (cases "mean_entry21 (map (\<lambda>p. mm344 tr (pad_poses p)) poses) < 0")
    case True
    have "pca_recenter eig poses =
       (map (\<lambda>p. unpad_poses (mm4 (mm4 (diag4 1 (- 1) (- 1) 1) t0) (pad_poses p))) poses,
        mm4 (diag4 1 (- 1) (- 1) 1) t0)"
      using True by (simp add: pca_recenter_def Let_def tr_def [symmetric] t0_def [symmetric] o_def)
        (simp add: recenter_flipped t0_def)
    moreover have "q3 (mm4 (diag4 1 (- 1) (- 1) 1) t0) = Vec4 0 0 0 1"
      by (simp add: t0_def mat_defs vec_defs)
    moreover have "det4 (mm4 (diag4 1 (- 1) (- 1) 1) t0) = det3 (pca_rot eig poses)"
      by (simp add: det4_flip d0)
    ultimately show ?thesis by (rule that)
  next
    case False
    have "pca_recenter eig poses = (map (\<lambda>p. unpad_poses (mm4 t0 (pad_poses p))) poses, t0)"
      using False by (simp add: pca_recenter_def Let_def tr_def [symmetric] t0_def [symmetric])
        (simp add: recenter_plain t0_def)
    moreover have "q3 t0 = Vec4 0 0 0 1" by (simp add: t0_def)
    ultimately show ?thesis using d0 by (rule that)
  qed
qed

lemma scale_round_trip:
  assumes "q3 t1 = Vec4 0 0 0 1" and "s \<noteq> 0"
  shows "pad_poses (scale_translation s (unpad_poses (mm4 t1 (pad_poses p)))) =
         mm4 (mm4 (diag4 s s s 1) t1) (pad_poses (scale_rot (1 / s) p))"
  using assms by (simp add: mat_defs vec_defs scale_translation_def scale_rot_def algebra_simps)

lemma amax_nonneg: "\<forall>x\<in>set xs. 0 \<le> x \<Longrightarrow> 0 \<le> amax xs"
  by (induction xs rule: amax.induct) auto

lemma amax_scale: "0 \<le> c \<Longrightarrow> amax (map (\<lambda>x. c * x) xs) = c * amax xs"
proof (induction xs rule: amax.induct)
  case (3 x y ys)
  then show ?case by (simp add: max_mult_distrib_left)
qed simp_all

lemma abs_translations_scale:
  "0 \<le> s \<Longrightarrow>
   concat (map (\<lambda>p. [\<bar>ww (p0 p)\<bar>, \<bar>ww (p1 p)\<bar>, \<bar>ww (p2 p)\<bar>]) (map (scale_translation s) ps)) =
   map (\<lambda>x. s * x) (concat (map (\<lambda>p. [\<bar>ww (p0 p)\<bar>, \<bar>ww (p1 p)\<bar>, \<bar>ww (p2 p)\<bar>]) ps))"
  by (induction ps) (simp_all add: scale_translation_def abs_mult mult.commute)

lemma max_abs_translation_nonneg: "0 \<le> max_abs_translation ps"
  unfolding max_abs_translation_def by (rule amax_nonneg) auto

lemma max_abs_translation_scale:
  "0 \<le> s \<Longrightarrow> max_abs_translation (map (scale_translation s) ps) = s * max_abs_translation ps"
  by (simp only: max_abs_translation_def abs_translations_scale amax_scale)

lemma transform_poses_pca_value:
  assumes "poses \<noteq> []" and "max_abs_translation (fst (pca_recenter eig poses)) \<noteq> 0"
  shows "transform_poses_pca eig poses =
         Inr (map (scale_translation (1 / max_abs_translation (fst (pca_recenter eig poses))))
                  (fst (pca_recenter eig poses)),
              mm4 (diag4 (1 / max_abs_translation (fst (pca_recenter eig poses)))
                         (1 / max_abs_translation (fst (pca_recenter eig poses)))
                         (1 / max_abs_translation (fst (pca_recenter eig poses))) 1)
                  (snd (pca_recenter eig poses)))"
  using assms by (simp add: transform_poses_pca_def Let_def split_beta)

lemma unit_max_after_scaling:
  assumes "poses \<noteq> []" and "max_abs_translation (fst (pca_recenter eig poses)) \<noteq> 0"
  shows "\<exists>ps t. transform_poses_pca eig poses = Inr (ps, t) \<and> max_abs_translation ps = 1"
proof -
  let ?m = "max_abs_translation (fst (pca_recenter eig poses))"
  have m: "0 < ?m" using assms(2) max_abs_translation_nonneg [of "fst (pca_recenter eig poses)"]
    by linarith
  then have "max_abs_translation (map (scale_translation (1 / ?m)) (fst (pca_recenter eig poses))) = 1"
    by (simp add: max_abs_translation_scale)
  with transform_poses_pca_value [OF assms] show ?thesis by blast
qed

lemma round_trip_value:
  assumes "poses \<noteq> []"
    and "det3 (snd (eig (gram3 (pca_centered poses)))) \<noteq> 0"
    and "max_abs_translation (fst (pca_recenter eig poses)) \<noteq> 0"
  shows "pca_round_trip eig poses =
         Inr (map (scale_rot (max_abs_translation (fst (pca_recenter eig poses)))) poses)"
proof -
  let ?m = "max_abs_translation (fst (pca_recenter eig poses))"
  define s where "s = 1 / ?m"
  have s: "s \<noteq> 0" and ms: "1 / s = ?m" using assms(3) by (simp_all add: s_def)
  obtain t1 where
    r: "pca_recenter eig poses = (map (\<lambda>p. unpad_poses (mm4 t1 (pad_poses p))) poses, t1)" and
    b: "q3 t1 = Vec4 0 0 0 1" and
    d: "det4 t1 = det3 (pca_rot eig poses)"
    by (rule pca_recenter_affine)
  let ?t = "mm4 (diag4 s s s 1) t1"
  have v: "transform_poses_pca eig poses =
      Inr (map (scale_translation s) (map (\<lambda>p. unpad_poses (mm4 t1 (pad_poses p))) poses), ?t)"
    using transform_poses_pca_value [OF assms(1,3)] by (simp add: r s_def)
  have "det4 ?t \<noteq> 0"
    using s assms(2) by (simp add: det4_scale d det3_pca_rot)
  then obtain ti where i: "inv4 ?t = Inr ti" and l: "mm4 ti ?t = id4"
    by (rule inv4_left)
  have "unpad_poses (mm4 ti (pad_poses (scale_translation s (unpad_poses (mm4 t1 (pad_poses p)))))) =
        scale_rot ?m p" for p
  proof -
    have "mm4 ti (mm4 ?t (pad_poses (scale_rot ?m p))) = mm4 (mm4 ti ?t) (pad_poses (scale_rot ?m p))"
      by (rule mm4_assoc [symmetric])
    then show ?thesis
      by (simp add: scale_round_trip [OF b s] ms l)
  qed
  then show ?thesis
    by (simp add: pca_round_trip_def v i o_def)
qed

lemma pcol3_scale_rot [simp]: "pcol3 (scale_rot c p) = pcol3 p"
  by (simp add: scale_rot_def pcol3_def)

lemma two_centered: "pca_t_mean two_poses = Vec3 0 0 0"
  by (simp add: pca_t_mean_def two_poses_def sum3_def pose_defs vec_defs)

lemma two_gram: "gram3 (pca_centered two_poses) = Mat3 (Vec3 8 0 0) (Vec3 0 0 0) (Vec3 0 0 0)"
  by (simp add: pca_centered_def two_centered gram3_def sum_m3_def) (simp add: two_poses_def pose_defs mat_defs vec_defs)

lemma argsort_800: "argsort [8, 0, 0] = [1, 2, 0]"
  by (simp add: argsort_def)

lemma two_rot: "pca_rot diag_eig two_poses = Mat3 (Vec3 1 0 0) (Vec3 0 0 1) (Vec3 0 (- 1) 0)"
  by (simp add: pca_rot_def two_gram diag_eig_def list_of_vec3_def argsort_800 mcol3_def mat_defs vec_defs)

lemma two_recenter: "pca_recenter diag_eig two_poses =
   ([Mat34 (Vec4 1 0 0 2) (Vec4 0 0 (- 1) 0) (Vec4 0 1 0 0),
     Mat34 (Vec4 1 0 0 (- 2)) (Vec4 0 0 (- 1) 0) (Vec4 0 1 0 0)],
    Mat4 (Vec4 1 0 0 0) (Vec4 0 0 (- 1) 0) (Vec4 0 1 0 0) (Vec4 0 0 0 1))"
  by (simp add: pca_recenter_def two_rot two_centered mean_entry21_def) (simp add: two_poses_def mat_defs vec_defs)

lemma two_max: "max_abs_translation (fst (pca_recenter diag_eig two_poses)) = 2"
  by (simp add: two_recenter max_abs_translation_def)

lemma two_det: "det3 (snd (diag_eig (gram3 (pca_centered two_poses)))) = 1"
  by (simp add: diag_eig_def id3_def det3_def vec_defs)

text \<open>
  Claim C1, as amended. For a non-empty pose set whose recentered translations are not all
  zero (and an eigenvector matrix that is not singular), \<open>transform_poses_pca\<close> returns,
  the returned transform has an inverse, and that inverse applied to the padded
  recentered poses gives back every translation column, and every 3x3 block multiplied
  by the largest absolute recentered translation coordinate (1 / \<open>scale_factor\<close>): the
  transform carries the scale in its 3x3 block, the recentered poses keep their rotations
  unscaled.
\<close>

theorem pca_round_trip_scaled:
  assumes "poses \<noteq> []"
    and "det3 (snd (eig (gram3 (pca_centered poses)))) \<noteq> 0"
    and "max_abs_translation (fst (pca_recenter eig poses)) \<noteq> 0"
  shows "\<exists>ps. pca_round_trip eig poses = Inr ps \<and>
           ps = map (scale_rot (max_abs_translation (fst (pca_recenter eig poses)))) poses \<and>
           map pcol3 ps = map pcol3 poses"
  using round_trip_value [OF assms] by simp

theorem pca_round_trip_scaled_witness:
  "two_poses \<noteq> [] \<and>
   det3 (snd (diag_eig (gram3 (pca_centered two_poses)))) \<noteq> 0 \<and>
   max_abs_translation (fst (pca_recenter diag_eig two_poses)) = 2 \<and>
   pca_round_trip diag_eig two_poses =
     Inr [Mat34 (Vec4 2 0 0 2) (Vec4 0 2 0 0) (Vec4 0 0 2 0),
          Mat34 (Vec4 2 0 0 (- 2)) (Vec4 0 2 0 0) (Vec4 0 0 2 0)]"
proof -
  have h1: "two_poses \<noteq> []" by (simp add: two_poses_def)
  have h2: "det3 (snd (diag_eig (gram3 (pca_centered two_poses)))) \<noteq> 0" by (simp add: two_det)
  have h3: "max_abs_translation (fst (pca_recenter diag_eig two_poses)) \<noteq> 0" by (simp add: two_max)
  from pca_round_trip_scaled [OF h1 h2 h3]
  have "pca_round_trip diag_eig two_poses = Inr (map (scale_rot 2) two_poses)"
    by (simp add: two_max)
  then have "pca_round_trip diag_eig two_poses =
     Inr [Mat34 (Vec4 2 0 0 2) (Vec4 0 2 0 0) (Vec4 0 0 2 0),
          Mat34 (Vec4 2 0 0 (- 2)) (Vec4 0 2 0 0) (Vec4 0 0 2 0)]"
    by (simp add: two_poses_def scale_rot_def)
  with h1 h2 two_max show ?thesis by simp
qed

text \<open>
  Claim C1 as stated fails: for the two poses at (2, 0, 0) and (-2, 0, 0) with identity
  rotations the round trip does not give the poses back (the 3x3 blocks come back
  doubled).
\<close>

theorem pca_round_trip_counterexample:
  "pca_round_trip diag_eig two_poses \<noteq> Inr two_poses"
proof -
  have h1: "two_poses \<noteq> []" by (simp add: two_poses_def)
  have h2: "det3 (snd (diag_eig (gram3 (pca_centered two_poses)))) \<noteq> 0" by (simp add: two_det)
  have h3: "max_abs_translation (fst (pca_recenter diag_eig two_poses)) \<noteq> 0" by (simp add: two_max)
  have "pca_round_trip diag_eig two_poses = Inr (map (scale_rot 2) two_poses)"
    using round_trip_value [OF h1 h2 h3] by (simp add: two_max)
  then show ?thesis by (simp add: two_poses_def scale_rot_def)
qed

text \<open>
  Claim C8, as amended. With zero poses none of the three functions rejects the input:
  \<open>average_pose\<close> and \<open>focus_point_fn\<close> go on with the \<open>nan\<close> mean of an empty axis,
  \<open>transform_poses_pca\<close> ends in the \<open>ValueError\<close> that \<open>np.max\<close> raises on an empty
  array.
\<close>

theorem empty_input_not_rejected:
  "average_pose [] = Inl NotFinite \<and> focus_point_fn [] = Inl NotFinite \<and>
   transform_poses_pca eig [] = Inl ValueError"
  by (simp add: average_pose_def focus_point_fn_def transform_poses_pca_def mean3_def mean_m3_def)

text \<open>Claim C8 as stated fails: no \<open>EmptyInputError\<close> comes out of the three functions.\<close>

theorem empty_input_counterexample:
  "\<not> (average_pose [] = Inl EmptyInputError \<and> focus_point_fn [] = Inl EmptyInputError \<and>
      transform_poses_pca diag_eig [] = Inl EmptyInputError)"
  by (simp add: average_pose_def mean3_def)

lemma focus_mt_m_eq:
  "focus_mt_m p =
     add_m3 (focus_m p) (outer3 (smul3 (dot3 (pcol2 p) (pcol2 p) - 1) (pcol2 p)) (pcol2 p))"
  by (simp add: focus_mt_m_def focus_m_def mat_defs vec_defs algebra_simps)

lemma focus_mt_m_unit:
  assumes "dot3 (pcol2 p) (pcol2 p) = 1"
  shows "focus_mt_m p = focus_m p"
  by (simp add: focus_mt_m_eq assms) (simp add: mat_defs vec_defs)

lemma square_pose_unit:
  assumes "s * s = 1" and "a * a = 1" and "b * b = 1"
  shows "dot3 (pcol2 (square_pose s h a b c0 c1)) (pcol2 (square_pose s h a b c0 c1)) = 1"
proof -
  have "(s * a / sqrt 2) * (s * a / sqrt 2) = (s * s) * (a * a) / (sqrt 2 * sqrt 2)"
       "(s * b / sqrt 2) * (s * b / sqrt 2) = (s * s) * (b * b) / (sqrt 2 * sqrt 2)"
    by (simp_all add: algebra_simps)
  then show ?thesis
    using assms by (simp add: square_pose_def pcols_stack_cols dot3_def)
qed

lemma focus_m_square:
  assumes "s * s = 1"
  shows "focus_m (square_pose s h a b c0 c1) =
         Mat3 (Vec3 (1 - a * a / 2) (- (a * b) / 2) 0) (Vec3 (- (a * b) / 2) (1 - b * b / 2) 0) (Vec3 0 0 1)"
proof -
  have e: "(s * x / sqrt 2) * (s * y / sqrt 2) = (s * s) * (x * y) / (sqrt 2 * sqrt 2)" for x y
    by (simp add: algebra_simps)
  show ?thesis
    by (simp add: focus_m_def square_pose_def pcols_stack_cols mat_defs vec_defs e assms)
qed

lemma square_focus:
  assumes "s * s = 1"
  shows "focus_point_fn [square_pose s h 1 1 a0 a1, square_pose s h (- 1) 1 b0 b1,
                         square_pose s h (- 1) (- 1) c0 c1, square_pose s h 1 (- 1) d0 d1] =
         Inr (Vec3 0 0 0)"
proof -
  have u: "focus_mt_m (square_pose s h a b e0 e1) = focus_m (square_pose s h a b e0 e1)"
    if "a * a = 1" "b * b = 1" for a b e0 e1
    by (rule focus_mt_m_unit) (rule square_pose_unit [OF assms that])
  have o: "pcol3 (square_pose s h a b e0 e1) = Vec3 (a * h) (b * h) 0" for a b e0 e1
    by (simp add: square_pose_def pcols_stack_cols)
  show ?thesis
    by (simp add: focus_point_fn_def u o focus_m_square [OF assms] mean_m3_def mean3_def
          sum_m3_def sum3_def inv3_def mat_defs vec_defs)
qed

text \<open>
  Claim C5. Four poses at the corners (1/2, 1/2, 0), (-1/2, 1/2, 0), (-1/2, -1/2, 0),
  (1/2, -1/2, 0) of the unit square in the XY plane, the viewing-axis column of each
  along the line through the origin (pointing at the origin, or away from it for a camera
  that looks along its -Z axis): \<open>focus_point_fn\<close> returns (0, 0, 0).
\<close>

theorem focus_point_fn_unit_square:
  "focus_point_fn [square_pose (- 1) (1/2) 1 1 a0 a1, square_pose (- 1) (1/2) (- 1) 1 b0 b1,
                   square_pose (- 1) (1/2) (- 1) (- 1) c0 c1, square_pose (- 1) (1/2) 1 (- 1) d0 d1] =
     Inr (Vec3 0 0 0) \<and>
   focus_point_fn [square_pose 1 (1/2) 1 1 a0 a1, square_pose 1 (1/2) (- 1) 1 b0 b1,
                   square_pose 1 (1/2) (- 1) (- 1) c0 c1, square_pose 1 (1/2) 1 (- 1) d0 d1] =
     Inr (Vec3 0 0 0)"
  by (simp add: square_focus)

lemma two_view_poses: "view_poses two_views =
  Inr [Mat4 (Vec4 1 0 0 0) (Vec4 0 (- 1) 0 1) (Vec4 0 0 (- 1) 4) (Vec4 0 0 0 1),
       Mat4 (Vec4 0 0 (- 1) 0) (Vec4 0 (- 1) 0 (- 1)) (Vec4 (- 1) 0 0 0) (Vec4 0 0 0 1)]"
  by (simp add: view_poses_def two_views_def view_pose_def inv4_def flip_cols12_def mat_defs vec_defs)

lemma two_center: "min_line_dist [(Vec3 0 1 4, Vec3 0 0 (- 1)), (Vec3 0 (- 1) 0, Vec3 (- 1) 0 0)] = Inr (Vec3 0 0 0)"
  by (simp add: min_line_dist_def line_a_def mean3_def mean_m3_def sum3_def sum_m3_def inv3_def neg_m3_def mat_defs vec_defs)

lemma sum_sq_shift:
  "sum_list (map (\<lambda>x. (x - m) * (x - m)) xs) =
   sum_list (map (\<lambda>x. x * x) xs) - 2 * m * sum_list xs + real (length xs) * (m * m)"
  by (induction xs) (simp_all add: algebra_simps)

lemma sum_list_sq_nonneg: "0 \<le> sum_list (map (\<lambda>x. (x - m) * (x - m)) (xs :: real list))"
  by (rule sum_list_nonneg) auto

lemma mean_sq_le:
  "mean_list xs * mean_list xs \<le> mean_list (map (\<lambda>x. x * x) xs)"
proof (cases "xs = []")
  case True
  then show ?thesis by (simp add: mean_list_def)
next
  case False
  define n where "n = real (length xs)"
  have n: "0 < n" using False by (simp add: n_def)
  define m where "m = sum_list xs / n"
  have s: "sum_list xs = n * m" using n by (simp add: m_def)
  have "0 \<le> sum_list (map (\<lambda>x. x * x) xs) - 2 * m * sum_list xs + n * (m * m)"
    using sum_list_sq_nonneg [of m xs] by (simp add: sum_sq_shift n_def)
  then have "n * (m * m) \<le> sum_list (map (\<lambda>x. x * x) xs)"
    by (simp add: s algebra_simps)
  then have "m * m \<le> sum_list (map (\<lambda>x. x * x) xs) / n"
    using n by (simp add: field_simps)
  then show ?thesis by (simp add: mean_list_def m_def n_def)
qed

lemma vz_sum3: "vz (sum3 vs) = sum_list (map vz vs)"
  by (induction vs) (simp_all add: sum3_def zero3_def add3_def)

lemma vz_sum3_smul3: "vz (sum3 (map (smul3 c) vs)) = c * sum_list (map vz vs)"
  by (induction vs) (simp_all add: sum3_def zero3_def add3_def smul3_def algebra_simps)

lemma mean_list_mono:
  assumes "\<forall>i<length xs. xs ! i \<le> ys ! i" and "length xs = length ys"
  shows "mean_list xs \<le> mean_list ys"
proof -
  have "sum_list xs \<le> sum_list ys"
    using assms by (simp add: sum_list_mono2)
  then show ?thesis using assms(2) by (simp add: mean_list_def divide_right_mono)
qed

lemma spherify_rad_zh_bound:
  assumes "spherify_rad_zh poses_reset = Inr (rad, zh)"
  shows "rad = 1 \<and> zh * zh \<le> 1"
proof -
  define t where "t = map (\<lambda>p. pcol3 (unpad_poses p)) poses_reset"
  define q where "q = mean_list (map (\<lambda>v. vx v * vx v + vy v * vy v + vz v * vz v) t)"
  define r where "r = sqrt q"
  from assms have r0: "r \<noteq> 0"
    by (auto simp: spherify_rad_zh_def Let_def t_def q_def r_def split: if_splits)
  have "0 \<le> sum_list (map (\<lambda>v. vx v * vx v + vy v * vy v + vz v * vz v) t)"
    by (rule sum_list_nonneg) auto
  then have "0 \<le> q" by (simp add: q_def mean_list_def)
  moreover from r0 have "q \<noteq> 0" by (simp add: r_def)
  ultimately have q0: "0 < q" by simp
  have rpos: "0 < r" using q0 by (simp add: r_def)
  have rr: "r * r = q" using q0 by (simp add: r_def)
  from r0 have tne: "t \<noteq> []" by (auto simp: r_def q_def mean_list_def)
  from assms r0 tne have rad: "rad = r * (1 / r)" and
    zh: "zh = vz (sdiv3 (sum3 (map (smul3 (1 / r)) t)) (real (length t)))"
    by (auto simp: spherify_rad_zh_def Let_def t_def [symmetric] q_def [symmetric] r_def [symmetric]
          mean3_def split: if_splits)
  have "vz (sum3 (map (smul3 (1 / r)) t)) = (1 / r) * sum_list (map vz t)"
    by (rule vz_sum3_smul3)
  then have zh': "zh = (1 / r) * mean_list (map vz t)"
    by (simp add: zh sdiv3_def mean_list_def)
  have "mean_list (map vz t) * mean_list (map vz t) \<le> mean_list (map (\<lambda>x. x * x) (map vz t))"
    by (rule mean_sq_le)
  also have "\<dots> \<le> q"
    unfolding q_def by (rule mean_list_mono) (simp_all add: o_def)
  finally have "mean_list (map vz t) * mean_list (map vz t) \<le> r * r" by (simp add: rr)
  then have "((1 / r) * mean_list (map vz t)) * ((1 / r) * mean_list (map vz t)) \<le> 1"
    using rpos by (simp add: field_simps)
  with rad r0 zh' show ?thesis by simp
qed

lemma mm4_id4_right [simp]: "mm4 a id4 = a"
  by (simp add: mat_defs vec_defs mat4.expand vec4.expand)

lemma mm4_smul_m4_right: "mm4 a (smul_m4 c b) = smul_m4 c (mm4 a b)"
  by (simp add: mat_defs vec_defs algebra_simps)

lemma inv4_unique:
  assumes "det4 m \<noteq> 0" and "mm4 x m = id4"
  shows "inv4 m = Inr x"
proof -
  define y where "y = smul_m4 (1 / det4 m) (adjugate4 m)"
  have i: "inv4 m = Inr y" using assms(1) by (simp add: inv4_def y_def)
  have "mm4 m y = id4"
    using assms(1) by (simp add: y_def mm4_smul_m4_right adjugate4_right smul_m4_id4)
  then have "mm4 x (mm4 m y) = x" by simp
  then have "mm4 (mm4 x m) y = x" by (simp only: mm4_assoc)
  then have "y = x" by (simp add: assms(2))
  with i show ?thesis by simp
qed

lemma sqrt5_sq [simp]: "sqrt 5 * (sqrt 5 * x) = 5 * x"
  by (simp add: mult.assoc [symmetric])

lemma two_up: "mean3 [sub3 (Vec3 0 1 4) (Vec3 0 0 0), sub3 (Vec3 0 (- 1) 0) (Vec3 0 0 0)] = Inr (Vec3 0 0 2)"
  by (simp add: mean3_def sum3_def vec_defs)

lemma two_vec0: "normalize (Vec3 0 0 2) = Inr (Vec3 0 0 1)"
  by (simp add: normalize_def sq_overflows_def sq_underflows_def norm3_def vec_defs)

lemma two_vec1:
  "normalize (cross3 (Vec3 (1/10) (1/5) (3/10)) (Vec3 0 0 1)) =
     Inr (Vec3 (2 * sqrt 5 / 5) (- (sqrt 5 / 5)) 0)"
proof -
  have c: "cross3 (Vec3 (1/10) (1/5) (3/10)) (Vec3 0 0 1) = Vec3 (1/5) (- (1/10)) 0"
    by (simp add: cross3_def)
  have "sqrt (1/20) = sqrt 5 / 10"
    by (rule real_sqrt_unique) (simp_all add: power2_eq_square)
  then have n: "norm3 (Vec3 (1/5) (- (1/10)) 0) = sqrt 5 / 10"
    by (simp add: norm3_def dot3_def)
  have d: "sdiv3 (Vec3 (1/5) (- (1/10)) 0) (sqrt 5 / 10) = Vec3 (2 * sqrt 5 / 5) (- (sqrt 5 / 5)) 0"
    by (simp add: sdiv3_def field_simps)
  have "normalize (Vec3 (1/5) (- (1/10)) 0) =
        Inr (sdiv3 (Vec3 (1/5) (- (1/10)) 0) (norm3 (Vec3 (1/5) (- (1/10)) 0)))"
    by (rule normalize_value) (simp_all add: sq_overflows_def sq_underflows_def dot3_def)
  then have "normalize (Vec3 (1/5) (- (1/10)) 0) = Inr (sdiv3 (Vec3 (1/5) (- (1/10)) 0) (sqrt 5 / 10))"
    by (simp only: n)
  then show ?thesis by (simp only: c d)
qed

lemma two_vec2:
  "normalize (cross3 (Vec3 0 0 1) (Vec3 (2 * sqrt 5 / 5) (- (sqrt 5 / 5)) 0)) =
     Inr (Vec3 (sqrt 5 / 5) (2 * sqrt 5 / 5) 0)"
proof -
  have c: "cross3 (Vec3 0 0 1) (Vec3 (2 * sqrt 5 / 5) (- (sqrt 5 / 5)) 0) =
           Vec3 (sqrt 5 / 5) (2 * sqrt 5 / 5) 0"
    by (simp add: cross3_def)
  have "dot3 (Vec3 (sqrt 5 / 5) (2 * sqrt 5 / 5) 0) (Vec3 (sqrt 5 / 5) (2 * sqrt 5 / 5) 0) = 1"
    by (simp add: dot3_def)
  then show ?thesis unfolding c by (rule normalize_of_unit)
qed

lemma two_c2w_inv:
  "inv4 (pad_poses (stack_cols (Vec3 (2 * sqrt 5 / 5) (- (sqrt 5 / 5)) 0)
                               (Vec3 (sqrt 5 / 5) (2 * sqrt 5 / 5) 0) (Vec3 0 0 1) (Vec3 0 0 0))) =
   Inr (Mat4 (Vec4 (2 * sqrt 5 / 5) (- (sqrt 5 / 5)) 0 0) (Vec4 (sqrt 5 / 5) (2 * sqrt 5 / 5) 0 0)
             (Vec4 0 0 1 0) (Vec4 0 0 0 1))"
proof (rule inv4_unique)
  show "det4 (pad_poses (stack_cols (Vec3 (2 * sqrt 5 / 5) (- (sqrt 5 / 5)) 0)
                               (Vec3 (sqrt 5 / 5) (2 * sqrt 5 / 5) 0) (Vec3 0 0 1) (Vec3 0 0 0))) \<noteq> 0"
    by (simp add: pad_poses_def stack_cols_def det4_def cofactors_def det3_def del0_def del1_def
          del2_def del3_def dot4_def vec_defs)
  show "mm4 (Mat4 (Vec4 (2 * sqrt 5 / 5) (- (sqrt 5 / 5)) 0 0) (Vec4 (sqrt 5 / 5) (2 * sqrt 5 / 5) 0 0)
             (Vec4 0 0 1 0) (Vec4 0 0 0 1))
          (pad_poses (stack_cols (Vec3 (2 * sqrt 5 / 5) (- (sqrt 5 / 5)) 0)
                               (Vec3 (sqrt 5 / 5) (2 * sqrt 5 / 5) 0) (Vec3 0 0 1) (Vec3 0 0 0))) = id4"
    by (simp add: pad_poses_def stack_cols_def mm4_def vm4_def add4_def smul4_def id4_def)
qed

lemma two_tenth: "(1 / 5 :: real) = 2 / 10"
  by simp

lemma two_rays:
  "map (\<lambda>p. (pcol3 (unpad_poses p), pcol2 (unpad_poses p)))
     [Mat4 (Vec4 1 0 0 0) (Vec4 0 (- 1) 0 1) (Vec4 0 0 (- 1) 4) (Vec4 0 0 0 1),
      Mat4 (Vec4 0 0 (- 1) 0) (Vec4 0 (- 1) 0 (- 1)) (Vec4 (- 1) 0 0 0) (Vec4 0 0 0 1)] =
   [(Vec3 0 1 4, Vec3 0 0 (- 1)), (Vec3 0 (- 1) 0, Vec3 (- 1) 0 0)]"
  by (simp add: pcol2_def pcol3_def unpad_poses_def)

lemma two_offsets:
  "map (\<lambda>p. sub3 (pcol3 (unpad_poses p)) (Vec3 0 0 0))
     [Mat4 (Vec4 1 0 0 0) (Vec4 0 (- 1) 0 1) (Vec4 0 0 (- 1) 4) (Vec4 0 0 0 1),
      Mat4 (Vec4 0 0 (- 1) 0) (Vec4 0 (- 1) 0 (- 1)) (Vec4 (- 1) 0 0 0) (Vec4 0 0 0 1)] =
   [sub3 (Vec3 0 1 4) (Vec3 0 0 0), sub3 (Vec3 0 (- 1) 0) (Vec3 0 0 0)]"
  by (simp add: pcol3_def unpad_poses_def)

lemma two_reset:
  "spherify_reset two_views =
     Inr [Mat4 (Vec4 (2 * sqrt 5 / 5) (sqrt 5 / 5) 0 (- (sqrt 5 / 5)))
               (Vec4 (sqrt 5 / 5) (- (2 * sqrt 5 / 5)) 0 (2 * sqrt 5 / 5))
               (Vec4 0 0 (- 1) 4) (Vec4 0 0 0 1),
          Mat4 (Vec4 0 (sqrt 5 / 5) (- (2 * sqrt 5 / 5)) (sqrt 5 / 5))
               (Vec4 0 (- (2 * sqrt 5 / 5)) (- (sqrt 5 / 5)) (- (2 * sqrt 5 / 5)))
               (Vec4 (- 1) 0 0 0) (Vec4 0 0 0 1)]"
  unfolding spherify_reset_def two_view_poses and_then_simps two_rays two_center two_offsets
    two_up two_vec0
  apply (simp only: divide_numeral_1 two_vec1 and_then_simps two_vec2 two_c2w_inv
      flip: two_tenth)
  apply (simp add: pad_poses_def unpad_poses_def mm4_def vm4_def add4_def smul4_def)
  done

lemma two_rad_zh:
  "spherify_rad_zh
     [Mat4 (Vec4 (2 * sqrt 5 / 5) (sqrt 5 / 5) 0 (- (sqrt 5 / 5)))
               (Vec4 (sqrt 5 / 5) (- (2 * sqrt 5 / 5)) 0 (2 * sqrt 5 / 5))
               (Vec4 0 0 (- 1) 4) (Vec4 0 0 0 1),
          Mat4 (Vec4 0 (sqrt 5 / 5) (- (2 * sqrt 5 / 5)) (sqrt 5 / 5))
               (Vec4 0 (- (2 * sqrt 5 / 5)) (- (sqrt 5 / 5)) (- (2 * sqrt 5 / 5)))
               (Vec4 (- 1) 0 0 0) (Vec4 0 0 0 1)] = Inr (1, 2/3)"
  by (simp add: spherify_rad_zh_def pcol3_def unpad_poses_def mean_list_def Let_def mean3_def
        sum3_def vec_defs)

lemma sequence_length: "sequence ms = Inr xs \<Longrightarrow> length xs = length ms"
proof (induction ms arbitrary: xs)
  case Nil
  then show ?case by simp
next
  case (Cons m ms)
  then show ?case
    by (cases m; cases "sequence ms") auto
qed

lemma sequence_nth: "sequence ms = Inr xs \<Longrightarrow> i < length ms \<Longrightarrow> ms ! i = Inr (xs ! i)"
proof (induction ms arbitrary: xs i)
  case Nil
  then show ?case by simp
next
  case (Cons m ms)
  then show ?case
    by (cases m; cases "sequence ms"; cases i) auto
qed

lemma sequence_total:
  "(\<And>m. m \<in> set ms \<Longrightarrow> \<exists>x. m = Inr x) \<Longrightarrow> \<exists>xs. sequence ms = Inr xs"
proof (induction ms)
  case Nil
  then show ?case by simp
next
  case (Cons m ms)
  then obtain x xs where "m = Inr x" "sequence ms = Inr xs" by (meson list.set_intros)
  then show ?case by simp
qed

lemma length_linspace [simp]: "length (linspace a b n) = n"
  by (simp add: linspace_def)

lemma linspace_first: "0 < n \<Longrightarrow> linspace a b n ! 0 = a"
  by (simp add: linspace_def)

lemma linspace_last: "1 < n \<Longrightarrow> linspace a b n ! (n - 1) = b"
  by (simp add: linspace_def)

lemma spherify_pose_period: "spherify_pose radcircle zh (2 * pi) = spherify_pose radcircle zh 0"
  by (simp add: spherify_pose_def)

lemma spherify_pose_total:
  assumes "radcircle \<noteq> 0"
    and "sq_normal (radcircle * radcircle + zh * zh)"
    and "sq_normal (radcircle * radcircle / (radcircle * radcircle + zh * zh))"
  shows "\<exists>p. spherify_pose radcircle zh th = Inr p"
proof -
  define c where "c = Vec3 (radcircle * cos th) (radcircle * sin th) zh"
  have t: "cos th * cos th + sin th * sin th = 1" by simp
  have e: "radcircle * cos th * (radcircle * cos th) + radcircle * sin th * (radcircle * sin th) =
        radcircle * radcircle * (cos th * cos th + sin th * sin th)"
    by (simp only: distrib_left mult_ac)
  then have cc: "dot3 c c = radcircle * radcircle + zh * zh"
    unfolding c_def dot3_def vec3.sel t by (simp only: mult_1_right)
  from assms(2) have rc: "\<not> sq_overflows (dot3 c c)" "\<not> sq_underflows (dot3 c c)"
    by (simp_all only: cc sq_normal_range not_False_eq_True)
  have cpos: "0 < dot3 c c" by (rule sq_underflows_pos [OF rc(2)])
  define vec2 where "vec2 = sdiv3 c (norm3 c)"
  have n2: "normalize c = Inr vec2" unfolding vec2_def by (rule normalize_value [OF rc])
  have u2: "dot3 vec2 vec2 = 1" unfolding vec2_def by (rule sdiv3_norm3_unit [OF cpos])
  have "cross3 vec2 (Vec3 0 0 (- 1)) = sdiv3 (Vec3 (- vy c) (vx c) 0) (norm3 c)"
    by (simp add: vec2_def sdiv3_def cross3_def)
  then have "dot3 (cross3 vec2 (Vec3 0 0 (- 1))) (cross3 vec2 (Vec3 0 0 (- 1))) =
             dot3 (Vec3 (- vy c) (vx c) 0) (Vec3 (- vy c) (vx c) 0) / dot3 c c"
    by (simp only: dot3_sdiv3 norm3_sq)
  also have "dot3 (Vec3 (- vy c) (vx c) 0) (Vec3 (- vy c) (vx c) 0) = radcircle * radcircle"
    using e by (simp add: dot3_def c_def)
  finally have d0: "dot3 (cross3 vec2 (Vec3 0 0 (- 1))) (cross3 vec2 (Vec3 0 0 (- 1))) =
             radcircle * radcircle / (radcircle * radcircle + zh * zh)"
    by (simp only: cc)
  from assms(3) have r0: "\<not> sq_overflows (dot3 (cross3 vec2 (Vec3 0 0 (- 1))) (cross3 vec2 (Vec3 0 0 (- 1))))"
    "\<not> sq_underflows (dot3 (cross3 vec2 (Vec3 0 0 (- 1))) (cross3 vec2 (Vec3 0 0 (- 1))))"
    by (simp_all only: d0 sq_normal_range not_False_eq_True)
  define vec0 where "vec0 = sdiv3 (cross3 vec2 (Vec3 0 0 (- 1))) (norm3 (cross3 vec2 (Vec3 0 0 (- 1))))"
  have n0: "normalize (cross3 vec2 (Vec3 0 0 (- 1))) = Inr vec0"
    unfolding vec0_def by (rule normalize_value [OF r0])
  have u0: "dot3 vec0 vec0 = 1"
    unfolding vec0_def by (rule sdiv3_norm3_unit) (rule sq_underflows_pos [OF r0(2)])
  have o: "dot3 vec2 vec0 = 0" by (simp add: vec0_def dot3_sdiv3_right)
  have "dot3 (cross3 vec2 vec0) (cross3 vec2 vec0) = 1"
    by (simp add: lagrange3 u2 u0 o)
  then have n1: "normalize (cross3 vec2 vec0) = Inr (cross3 vec2 vec0)"
    by (rule normalize_of_unit)
  show ?thesis
    by (simp add: spherify_pose_def c_def [symmetric] n2 n0 n1)
qed

lemma generate_spherify_path_shape:
  assumes "generate_spherify_path views = Inr ps"
  shows "length ps = 120 \<and> ps ! 0 = ps ! 119"
proof -
  from assms obtain radcircle zh where
    s: "sequence (map (spherify_pose radcircle zh) (linspace 0 (2 * pi) 120)) = Inr ps"
    by (auto simp: generate_spherify_path_def and_then_def split: sum.splits)
  let ?ms = "map (spherify_pose radcircle zh) (linspace 0 (2 * pi) 120)"
  have len: "length ps = 120" using sequence_length [OF s] by simp
  have a: "?ms ! 0 = Inr (ps ! 0)" by (rule sequence_nth [OF s]) simp
  have b: "?ms ! 119 = Inr (ps ! 119)" by (rule sequence_nth [OF s]) simp
  have "linspace 0 (2 * pi) 120 ! 0 = 0" by (rule linspace_first) simp
  then have a': "?ms ! 0 = spherify_pose radcircle zh 0" by simp
  have "linspace 0 (2 * pi) 120 ! (120 - 1) = 2 * pi" by (rule linspace_last) simp
  then have b': "?ms ! 119 = spherify_pose radcircle zh (2 * pi)" by simp
  from a a' b b' have "ps ! 0 = ps ! 119" by (simp add: spherify_pose_period)
  with len show ?thesis by simp
qed

lemma two_views_returns: "\<exists>ps. generate_spherify_path two_views = Inr ps"
proof -
  have r: "sqrt (5 / 9) * sqrt (5 / 9) = 5 / 9" by simp
  have "sqrt (5 / 9) \<noteq> 0" by simp
  moreover have "sq_normal (sqrt (5 / 9) * sqrt (5 / 9) + 2 / 3 * (2 / 3))"
    unfolding r by (simp add: sq_normal_def)
  moreover have "sq_normal (sqrt (5 / 9) * sqrt (5 / 9) / (sqrt (5 / 9) * sqrt (5 / 9) + 2 / 3 * (2 / 3)))"
    unfolding r by (simp add: sq_normal_def)
  ultimately have "\<exists>p. spherify_pose (sqrt (5 / 9)) (2 / 3) th = Inr p" for th
    by (rule spherify_pose_total)
  then have "\<exists>xs. sequence (map (spherify_pose (sqrt (5 / 9)) (2 / 3)) (linspace 0 (2 * pi) 120)) = Inr xs"
    by (intro sequence_total) auto
  moreover have "np_sqrt (1\<^sup>2 - (2 / 3)\<^sup>2) = Inr (sqrt (5 / 9))"
    by (simp add: np_sqrt_def power2_eq_square)
  ultimately show ?thesis
    by (simp add: generate_spherify_path_def two_reset two_rad_zh)
qed

lemma one_fails: "generate_spherify_path one_view = Inl LinAlgError"
  by (simp add: generate_spherify_path_def spherify_reset_def view_poses_def one_view_def view_pose_def inv4_def flip_cols12_def
     min_line_dist_def line_a_def mean3_def mean_m3_def sum3_def sum_m3_def inv3_def neg_m3_def pose_defs mat_defs vec_defs)

lemma none_fails: "generate_spherify_path [] = Inl ValueError"
  by (simp add: generate_spherify_path_def spherify_reset_def view_poses_def)

text \<open>
  Claim C10, as amended. Whenever \<open>generate_spherify_path\<close> returns, it returns exactly
  120 poses, whatever the number of views, and the first and the last of them are the same
  pose (the angles run from 0 to 2 pi inclusive).
\<close>

theorem generate_spherify_path_120:
  assumes "generate_spherify_path views = Inr ps"
  shows "length ps = 120 \<and> ps ! 0 = ps ! 119 \<and> hd ps = last ps"
proof -
  from generate_spherify_path_shape [OF assms] have l: "length ps = 120" and e: "ps ! 0 = ps ! 119"
    by simp_all
  from l have "ps \<noteq> []" by auto
  then have "hd ps = ps ! 0" "last ps = ps ! 119"
    using l by (simp_all add: hd_conv_nth last_conv_nth)
  with l e show ?thesis by simp
qed

theorem generate_spherify_path_120_witness:
  "\<exists>ps. generate_spherify_path two_views = Inr ps \<and> length ps = 120 \<and> hd ps = last ps"
proof -
  from two_views_returns obtain ps where r: "generate_spherify_path two_views = Inr ps" ..
  from generate_spherify_path_120 [OF r] r show ?thesis by blast
qed

text \<open>
  Claim C10 as stated fails: the function does not return for every number of views. With
  no view \<open>np.stack\<close> raises. With the single view of rotation I and translation 0 the
  matrix of the ray fit is diag(1, 1, 0), exactly singular in float64 as well, and
  \<open>np.linalg.inv\<close> raises.
\<close>

theorem generate_spherify_path_counterexample:
  "generate_spherify_path one_view = Inl LinAlgError \<and> generate_spherify_path [] = Inl ValueError"
  by (simp add: one_fails none_fails)

lemma ring_view_poses: "view_poses ring_views = Inr ring_poses"
  by (simp add: view_poses_def ring_views_def ring_poses_def view_pose_def inv4_def flip_cols12_def mat_defs vec_defs)

lemma ring_t_mean: "pca_t_mean (map unpad_poses ring_poses) = Vec3 0 0 0"
  by (simp add: pca_t_mean_def ring_poses_def sum3_def pose_defs unpad_poses_def vec_defs)

lemma ring_gram: "gram3 (pca_centered (map unpad_poses ring_poses)) = Mat3 (Vec3 8 0 0) (Vec3 0 8 0) (Vec3 0 0 0)"
  by (simp add: pca_centered_def ring_t_mean gram3_def sum_m3_def) (simp add: ring_poses_def pose_defs unpad_poses_def mat_defs vec_defs)

lemma argsort_880: "argsort [8, 8, 0] = [2, 0, 1]"
  by (simp add: argsort_def)

lemma ring_rot: "pca_rot diag_eig (map unpad_poses ring_poses) = Mat3 (Vec3 0 1 0) (Vec3 1 0 0) (Vec3 0 0 (- 1))"
  by (simp add: pca_rot_def ring_gram diag_eig_def list_of_vec3_def argsort_880 mcol3_def mat_defs vec_defs)

lemma ring_recenter: "pca_recenter diag_eig (map unpad_poses ring_poses) =
   ([Mat34 (Vec4 1 0 0 0) (Vec4 0 0 (- 1) (- 2)) (Vec4 0 1 0 0),
     Mat34 (Vec4 0 0 1 2) (Vec4 1 0 0 0) (Vec4 0 1 0 0),
     Mat34 (Vec4 (- 1) 0 0 0) (Vec4 0 0 1 2) (Vec4 0 1 0 0),
     Mat34 (Vec4 0 0 (- 1) (- 2)) (Vec4 (- 1) 0 0 0) (Vec4 0 1 0 0)],
    Mat4 (Vec4 0 1 0 0) (Vec4 (- 1) 0 0 0) (Vec4 0 0 1 0) (Vec4 0 0 0 1))"
  by (simp add: pca_recenter_def ring_rot ring_t_mean mean_entry21_def) (simp add: ring_poses_def mat_defs vec_defs)

lemma ring_pca: "transform_poses_pca diag_eig (map unpad_poses ring_poses) =
   Inr ([Mat34 (Vec4 1 0 0 0) (Vec4 0 0 (- 1) (- 1)) (Vec4 0 1 0 0),
     Mat34 (Vec4 0 0 1 1) (Vec4 1 0 0 0) (Vec4 0 1 0 0),
     Mat34 (Vec4 (- 1) 0 0 0) (Vec4 0 0 1 1) (Vec4 0 1 0 0),
     Mat34 (Vec4 0 0 (- 1) (- 1)) (Vec4 (- 1) 0 0 0) (Vec4 0 1 0 0)],
    Mat4 (Vec4 0 (1/2) 0 0) (Vec4 (- (1/2)) 0 0 0) (Vec4 0 0 (1/2) 0) (Vec4 0 0 0 1))"
  by (simp add: transform_poses_pca_def ring_recenter max_abs_translation_def scale_translation_def Let_def)
     (simp add: ring_poses_def mat_defs vec_defs)

lemma ring_focus: "focus_point_fn [Mat34 (Vec4 1 0 0 0) (Vec4 0 0 (- 1) (- 1)) (Vec4 0 1 0 0),
     Mat34 (Vec4 0 0 1 1) (Vec4 1 0 0 0) (Vec4 0 1 0 0),
     Mat34 (Vec4 (- 1) 0 0 0) (Vec4 0 0 1 1) (Vec4 0 1 0 0),
     Mat34 (Vec4 0 0 (- 1) (- 1)) (Vec4 (- 1) 0 0 0) (Vec4 0 1 0 0)] = Inr (Vec3 0 0 0)"
  by (simp add: focus_point_fn_def focus_mt_m_def focus_m_def mean_m3_def mean3_def
          sum_m3_def sum3_def inv3_def pose_defs mat_defs vec_defs)

lemma ring_up: "ellipse_up [Mat34 (Vec4 1 0 0 0) (Vec4 0 0 (- 1) (- 1)) (Vec4 0 1 0 0),
     Mat34 (Vec4 0 0 1 1) (Vec4 1 0 0 0) (Vec4 0 1 0 0),
     Mat34 (Vec4 (- 1) 0 0 0) (Vec4 0 0 1 1) (Vec4 0 1 0 0),
     Mat34 (Vec4 0 0 (- 1) (- 1)) (Vec4 (- 1) 0 0 0) (Vec4 0 1 0 0)] = Inr (Vec3 0 0 1)"
  by (simp add: ellipse_up_def mean3_def sum3_def pose_defs normalize_def sq_overflows_def
        sq_underflows_def norm3_def vec_defs)

lemma ring_first_pose:
  "ellipse_render_pose (Mat4 (Vec4 0 (1/2) 0 0) (Vec4 (- (1/2)) 0 0 0) (Vec4 0 0 (1/2) 0) (Vec4 0 0 0 1))
     (Vec3 0 0 0) (Vec3 0 0 1) (Vec3 1 0 0) =
   Inr (Mat4 (Vec4 (- (1/2)) 0 0 0) (Vec4 0 0 (- (1/2)) 0) (Vec4 0 (- (1/2)) 0 1) (Vec4 0 0 0 1))"
  by (simp add: ellipse_render_pose_def viewmatrix_def normalize_def sq_overflows_def
       sq_underflows_def norm3_def inv4_def flip_top_cols12_def
       pose_defs mat_defs vec_defs)

lemma mm3_assoc: "mm3 (mm3 a b) c = mm3 a (mm3 b c)"
  by (simp add: mat_defs vec_defs algebra_simps)

lemma mm3_id3_left [simp]: "mm3 id3 a = a"
  by (simp add: mat_defs vec_defs)

lemma mm3_id3_right [simp]: "mm3 a id3 = a"
  by (simp add: mat_defs vec_defs mat3.expand vec3.expand)

lemma det3_mm3: "det3 (mm3 a b) = det3 a * det3 b"
  by (simp add: mat_defs vec_defs algebra_simps)

lemma det3_id3 [simp]: "det3 id3 = 1"
  by (simp add: mat_defs vec_defs)

lemma transpose3_mm3: "transpose3 (mm3 a b) = mm3 (transpose3 b) (transpose3 a)"
  by (simp add: mat_defs vec_defs algebra_simps)

lemma inv3_right:
  assumes "det3 m \<noteq> 0"
  obtains mi where "inv3 m = Inr mi" "mm3 m mi = id3"
proof
  let ?mi = "transpose3 (Mat3 (sdiv3 (cross3 (r1 m) (r2 m)) (det3 m))
                              (sdiv3 (cross3 (r2 m) (r0 m)) (det3 m))
                              (sdiv3 (cross3 (r0 m) (r1 m)) (det3 m)))"
  show "inv3 m = Inr ?mi" using assms by (simp add: inv3_def)
  have "det3 m * x / det3 m = x" for x using assms by simp
  have a: "mm3 m (transpose3 (Mat3 (cross3 (r1 m) (r2 m)) (cross3 (r2 m) (r0 m)) (cross3 (r0 m) (r1 m)))) =
        Mat3 (Vec3 (det3 m) 0 0) (Vec3 0 (det3 m) 0) (Vec3 0 0 (det3 m))"
    by (simp add: mat_defs vec_defs algebra_simps)
  have b: "mm3 m ?mi = sdiv_m3 (mm3 m (transpose3 (Mat3 (cross3 (r1 m) (r2 m)) (cross3 (r2 m) (r0 m)) (cross3 (r0 m) (r1 m))))) (det3 m)"
    by (simp add: mat_defs vec_defs add_divide_distrib)
  show "mm3 m ?mi = id3"
    unfolding b a using assms by (simp add: sdiv_m3_def sdiv3_def id3_def)
qed

lemma mm3_left_right:
  assumes "mm3 a b = id3"
  shows "mm3 b a = id3"
proof -
  have "det3 a * det3 b = 1" using assms det3_mm3 [of a b] by simp
  then have "det3 b \<noteq> 0" by auto
  then obtain c where c: "mm3 b c = id3" by (rule inv3_right)
  have "a = mm3 a (mm3 b c)" by (simp add: c)
  also have "\<dots> = mm3 (mm3 a b) c" by (simp only: mm3_assoc)
  also have "\<dots> = c" by (simp add: assms)
  finally show ?thesis using c by simp
qed

lemma affine_decomp:
  "q3 m = Vec4 0 0 0 1 \<Longrightarrow>
   m = pad_poses (hcat (rot_block (unpad_poses m)) (pcol3 (unpad_poses m)))"
  by (simp add: pad_poses_def hcat_def unpad_poses_def pose_defs transpose3_def mat4.expand vec4.expand)

lemma hcat_decomp: "p = hcat (rot_block p) (pcol3 p)"
  by (simp add: hcat_def pose_defs transpose3_def mat34.expand vec4.expand)

lemma rot_block_hcat [simp]: "rot_block (hcat a v) = a"
  by (simp add: hcat_def pose_defs transpose3_def mat3.expand vec3.expand)

lemma pcol3_hcat [simp]: "pcol3 (hcat a v) = v"
  by (simp add: hcat_def pose_defs vec3.expand)

lemma affine_mm4:
  "mm4 (pad_poses (hcat a u)) (pad_poses (hcat b v)) = pad_poses (hcat (mm3 a b) (add3 (mv3 a v) u))"
  by (simp add: mat_defs vec_defs algebra_simps)

lemma affine_flip:
  "flip_top_cols12 (pad_poses (hcat a u)) = pad_poses (hcat (mm3 a (diag3 1 (- 1) (- 1))) u)"
  by (simp add: flip_top_cols12_def mat_defs vec_defs)

lemma affine_det4: "det4 (pad_poses (hcat a u)) = det3 a"
  by (simp add: pad_poses_def det4_pad_hcat)

lemma affine_id4: "pad_poses (hcat id3 zero3) = id4"
  by (simp add: mat_defs vec_defs)

lemma affine_inv4:
  assumes "det3 a \<noteq> 0"
  obtains ai ui where "inv4 (pad_poses (hcat a u)) = Inr (pad_poses (hcat ai ui))" "mm3 ai a = id3"
proof -
  from assms obtain ai where r: "mm3 a ai = id3" by (rule inv3_right)
  then have l: "mm3 ai a = id3" by (rule mm3_left_right)
  have z: "add3 (mv3 ai u) (neg3 (mv3 ai u)) = zero3" by (simp add: vec_defs)
  have "inv4 (pad_poses (hcat a u)) = Inr (pad_poses (hcat ai (neg3 (mv3 ai u))))"
  proof (rule inv4_unique)
    show "det4 (pad_poses (hcat a u)) \<noteq> 0" using assms by (simp add: affine_det4)
    show "mm4 (pad_poses (hcat ai (neg3 (mv3 ai u)))) (pad_poses (hcat a u)) = id4"
      by (simp add: affine_mm4 l z affine_id4)
  qed
  then show thesis using l by (rule that)
qed

lemma viewmatrix_Inr_rotation:
  assumes "viewmatrix z up pos = Inr P"
  shows "is_rotation (rot_block P)"
proof -
  from assms obtain vec2 vec0 vec1 where
    n2: "normalize z = Inr vec2" and n0: "normalize (cross3 up vec2) = Inr vec0" and
    n1: "normalize (cross3 vec2 vec0) = Inr vec1"
    by (auto simp: viewmatrix_def and_then_def split: sum.splits)
  have "vec2 \<noteq> zero3"
  proof
    assume "vec2 = zero3"
    with n0 show False by simp
  qed
  with normalize_Inr [OF n2] have z: "\<not> sq_overflows (dot3 z z)" "\<not> sq_underflows (dot3 z z)"
    and v2: "vec2 = sdiv3 z (norm3 z)" by auto
  have "vec0 \<noteq> zero3"
  proof
    assume "vec0 = zero3"
    with n1 show False by simp
  qed
  with normalize_Inr [OF n0] have
    "\<not> sq_overflows (dot3 (cross3 up vec2) (cross3 up vec2))"
    "\<not> sq_underflows (dot3 (cross3 up vec2) (cross3 up vec2))" by auto
  then have c:
    "\<not> sq_overflows (dot3 (cross3 up (sdiv3 z (norm3 z))) (cross3 up (sdiv3 z (norm3 z))))"
    "\<not> sq_underflows (dot3 (cross3 up (sdiv3 z (norm3 z))) (cross3 up (sdiv3 z (norm3 z))))"
    unfolding v2 by simp_all
  from viewmatrix_facts [OF z c, of pos] assms show ?thesis by auto
qed

lemma diag_flip_sq: "mm3 (diag3 1 (- 1) (- 1)) (diag3 1 (- 1) (- 1)) = id3"
  by (simp add: mat_defs vec_defs)

lemma det3_diag_flip: "det3 (diag3 1 (- 1) (- 1)) = 1"
  by (simp add: mat_defs vec_defs)

lemma ellipse_render_pose_block:
  assumes t: "q3 t = Vec4 0 0 0 1"
    and d: "det3 (rot_block (unpad_poses t)) \<noteq> 0"
    and e: "ellipse_render_pose t center up p = Inr m"
  shows "\<exists>v. is_rotation v \<and> q3 m = Vec4 0 0 0 1 \<and>
           rot_block (unpad_poses m) =
             mm3 (mm3 (diag3 1 (- 1) (- 1)) (transpose3 v)) (rot_block (unpad_poses t))"
proof -
  define b where "b = rot_block (unpad_poses t)"
  define u where "u = pcol3 (unpad_poses t)"
  have tt: "t = pad_poses (hcat b u)" unfolding b_def u_def by (rule affine_decomp [OF t])
  from e obtain vm where vm: "viewmatrix (sub3 p center) up p = Inr vm"
    by (auto simp: ellipse_render_pose_def and_then_def split: sum.splits)
  define v where "v = rot_block vm"
  have rot: "is_rotation v" unfolding v_def by (rule viewmatrix_Inr_rotation [OF vm])
  then have vtv: "mm3 (transpose3 v) v = id3" and dv: "det3 v = 1"
    by (simp_all add: is_rotation_def)
  from vtv have vvt: "mm3 v (transpose3 v) = id3" by (rule mm3_left_right)
  have vmm: "pad_poses vm = pad_poses (hcat v (pcol3 vm))"
    unfolding v_def using hcat_decomp [of vm] by simp
  from d obtain bi ui where
    ti: "inv4 t = Inr (pad_poses (hcat bi ui))" and bib: "mm3 bi b = id3"
    unfolding tt b_def [symmetric] using affine_inv4 [of b u] by (metis rot_block_hcat unpad_pad)
  let ?D = "diag3 1 (- 1) (- 1)"
  define a where "a = mm3 (mm3 bi v) ?D"
  define w where "w = add3 (mv3 bi (pcol3 vm)) ui"
  have f: "flip_top_cols12 (mm4 (pad_poses (hcat bi ui)) (pad_poses vm)) = pad_poses (hcat a w)"
    by (simp add: vmm affine_mm4 affine_flip a_def w_def)
  from e have m: "inv4 (pad_poses (hcat a w)) = Inr m"
    by (simp add: ellipse_render_pose_def vm ti f)
  have "det3 bi * det3 b = 1" using bib det3_mm3 [of bi b] by simp
  then have "det3 bi \<noteq> 0" by auto
  then have da: "det3 a \<noteq> 0" by (simp add: a_def det3_mm3 dv det3_diag_flip)
  then obtain y yu where
    y: "inv4 (pad_poses (hcat a w)) = Inr (pad_poses (hcat y yu))" and ya: "mm3 y a = id3"
    by (rule affine_inv4)
  from m y have my: "m = pad_poses (hcat y yu)" by simp
  let ?c = "mm3 (mm3 ?D (transpose3 v)) b"
  have "mm3 a ?c = mm3 bi (mm3 (mm3 v (mm3 (mm3 ?D ?D) (transpose3 v))) b)"
    by (simp only: a_def mm3_assoc)
  also have "\<dots> = id3" by (simp add: diag_flip_sq vvt bib)
  finally have ac: "mm3 a ?c = id3" .
  have "y = mm3 y (mm3 a ?c)" by (simp add: ac)
  also have "\<dots> = mm3 (mm3 y a) ?c" by (simp only: mm3_assoc)
  also have "\<dots> = ?c" by (simp add: ya)
  finally have "y = ?c" .
  then have "rot_block (unpad_poses m) = ?c" by (simp add: my)
  moreover have "q3 m = Vec4 0 0 0 1" by (simp add: my pad_poses_def)
  ultimately show ?thesis using rot unfolding b_def by blast
qed

lemma gram_rows:
  "mm3 (Mat3 a b c) (transpose3 (Mat3 a b c)) =
     Mat3 (Vec3 (dot3 a a) (dot3 a b) (dot3 a c))
          (Vec3 (dot3 b a) (dot3 b b) (dot3 b c))
          (Vec3 (dot3 c a) (dot3 c b) (dot3 c c))"
  using gram_cols [of a b c] by simp

lemma gram_mcol3:
  "mm3 (transpose3 e) e =
     Mat3 (Vec3 (dot3 (mcol3 e 0) (mcol3 e 0)) (dot3 (mcol3 e 0) (mcol3 e 1)) (dot3 (mcol3 e 0) (mcol3 e 2)))
          (Vec3 (dot3 (mcol3 e 1) (mcol3 e 0)) (dot3 (mcol3 e 1) (mcol3 e 1)) (dot3 (mcol3 e 1) (mcol3 e 2)))
          (Vec3 (dot3 (mcol3 e 2) (mcol3 e 0)) (dot3 (mcol3 e 2) (mcol3 e 1)) (dot3 (mcol3 e 2) (mcol3 e 2)))"
  by (simp add: mcol3_def mat_defs vec_defs algebra_simps)

lemma rows_perm_orthogonal:
  assumes "mm3 (transpose3 e) e = id3"
    and "js \<in> {[0, 1, 2], [0, 2, 1], [1, 0, 2], [1, 2, 0], [2, 0, 1], [2, 1, 0]}"
  shows "mm3 (Mat3 (mcol3 e (js ! 0)) (mcol3 e (js ! 1)) (mcol3 e (js ! 2)))
             (transpose3 (Mat3 (mcol3 e (js ! 0)) (mcol3 e (js ! 1)) (mcol3 e (js ! 2)))) = id3"
proof -
  from assms(1) have
    "dot3 (mcol3 e 0) (mcol3 e 0) = 1" "dot3 (mcol3 e 0) (mcol3 e 1) = 0" "dot3 (mcol3 e 0) (mcol3 e 2) = 0"
    "dot3 (mcol3 e 1) (mcol3 e 0) = 0" "dot3 (mcol3 e 1) (mcol3 e 1) = 1" "dot3 (mcol3 e 1) (mcol3 e 2) = 0"
    "dot3 (mcol3 e 2) (mcol3 e 0) = 0" "dot3 (mcol3 e 2) (mcol3 e 1) = 0" "dot3 (mcol3 e 2) (mcol3 e 2) = 1"
    unfolding gram_mcol3 id3_def by simp_all
  with assms(2) show ?thesis
    unfolding gram_rows by (auto simp: id3_def)
qed

lemma flip_z_orthogonal:
  assumes "mm3 m (transpose3 m) = id3"
  shows "mm3 (mm3 (diag3 1 1 (- 1)) m) (transpose3 (mm3 (diag3 1 1 (- 1)) m)) = id3"
proof -
  have "mm3 (mm3 (diag3 1 1 (- 1)) m) (transpose3 (mm3 (diag3 1 1 (- 1)) m)) =
        mm3 (diag3 1 1 (- 1)) (mm3 (mm3 m (transpose3 m)) (transpose3 (diag3 1 1 (- 1))))"
    by (simp only: transpose3_mm3 mm3_assoc)
  also have "\<dots> = id3" by (simp add: assms) (simp add: mat_defs vec_defs)
  finally show ?thesis .
qed

lemma flip_yz_orthogonal:
  assumes "mm3 m (transpose3 m) = id3"
  shows "mm3 (mm3 (diag3 1 (- 1) (- 1)) m) (transpose3 (mm3 (diag3 1 (- 1) (- 1)) m)) = id3"
proof -
  have "mm3 (mm3 (diag3 1 (- 1) (- 1)) m) (transpose3 (mm3 (diag3 1 (- 1) (- 1)) m)) =
        mm3 (diag3 1 (- 1) (- 1)) (mm3 (mm3 m (transpose3 m)) (transpose3 (diag3 1 (- 1) (- 1))))"
    by (simp only: transpose3_mm3 mm3_assoc)
  also have "\<dots> = id3" by (simp add: assms) (simp add: mat_defs vec_defs)
  finally show ?thesis .
qed

lemma pca_rot_orthogonal:
  assumes "mm3 (transpose3 (snd (eig (gram3 (pca_centered poses)))))
               (snd (eig (gram3 (pca_centered poses)))) = id3"
  shows "mm3 (pca_rot eig poses) (transpose3 (pca_rot eig poses)) = id3"
proof -
  obtain eigval eigvec where e: "eig (gram3 (pca_centered poses)) = (eigval, eigvec)"
    by (cases "eig (gram3 (pca_centered poses))")
  define js where "js = rev (argsort (list_of_vec3 eigval))"
  define rot where "rot = Mat3 (mcol3 eigvec (js ! 0)) (mcol3 eigvec (js ! 1)) (mcol3 eigvec (js ! 2))"
  have "js \<in> {[0, 1, 2], [0, 2, 1], [1, 0, 2], [1, 2, 0], [2, 0, 1], [2, 1, 0]}"
    by (simp only: js_def list_of_vec3_def rev_argsort3)
  with assms have o: "mm3 rot (transpose3 rot) = id3"
    unfolding rot_def e snd_conv by (rule rows_perm_orthogonal)
  have "pca_rot eig poses = (if det3 rot < 0 then mm3 (diag3 1 1 (- 1)) rot else rot)"
    by (simp add: pca_rot_def e Let_def rot_def js_def)
  then show ?thesis using o flip_z_orthogonal [OF o] by simp
qed

lemma orthogonal_det3:
  assumes "mm3 (transpose3 e) e = id3"
  shows "\<bar>det3 e\<bar> = 1"
proof -
  have "det3 e * det3 e = 1"
    using det3_mm3 [of "transpose3 e" e] assms by (simp add: det3_transpose3)
  then show ?thesis by (metis abs_mult_self_eq abs_one real_sqrt_abs2 real_sqrt_one)
qed

lemma pca_recenter_block:
  "q3 (snd (pca_recenter eig poses)) = Vec4 0 0 0 1 \<and>
   (rot_block (unpad_poses (snd (pca_recenter eig poses))) = pca_rot eig poses \<or>
    rot_block (unpad_poses (snd (pca_recenter eig poses))) =
      mm3 (diag3 1 (- 1) (- 1)) (pca_rot eig poses))"
  by (simp add: pca_recenter_def Let_def)
     (simp add: hcat_def unpad_poses_def pose_defs mat_defs vec_defs)

lemma scale_block:
  "q3 t = Vec4 0 0 0 1 \<Longrightarrow>
   q3 (mm4 (diag4 s s s 1) t) = Vec4 0 0 0 1 \<and>
   rot_block (unpad_poses (mm4 (diag4 s s s 1) t)) = mm3 (diag3 s s s) (rot_block (unpad_poses t))"
  by (simp add: unpad_poses_def pose_defs mat_defs vec_defs)

lemma diag3_scalar_commute: "mm3 x (diag3 c c c) = mm3 (diag3 c c c) x"
  by (simp add: mat_defs vec_defs algebra_simps)

lemma diag3_scalar_sq: "mm3 (diag3 s s s) (transpose3 (diag3 s s s)) = diag3 (s * s) (s * s) (s * s)"
  by (simp add: mat_defs vec_defs)

lemma det3_diag3: "det3 (diag3 a b c) = a * b * c"
  by (simp add: mat_defs vec_defs)

lemma conj_gram:
  assumes "mm3 x (transpose3 x) = id3" and "mm3 b (transpose3 b) = diag3 c c c"
  shows "mm3 (mm3 x b) (transpose3 (mm3 x b)) = diag3 c c c"
proof -
  have "mm3 (mm3 x b) (transpose3 (mm3 x b)) = mm3 x (mm3 (mm3 b (transpose3 b)) (transpose3 x))"
    by (simp only: transpose3_mm3 mm3_assoc)
  also have "\<dots> = mm3 (mm3 x (diag3 c c c)) (transpose3 x)"
    by (simp only: assms(2) mm3_assoc)
  also have "\<dots> = mm3 (diag3 c c c) (mm3 x (transpose3 x))"
    by (simp only: diag3_scalar_commute mm3_assoc)
  finally show ?thesis by (simp add: assms(1))
qed

lemma cube_one:
  assumes "0 < (s::real)" and "s * s * s = 1"
  shows "s = 1"
proof (rule ccontr)
  assume "s \<noteq> 1"
  then consider "s < 1" | "1 < s" by linarith
  then show False
  proof cases
    case 1
    have "s * s < s" using mult_strict_right_mono [OF 1 assms(1)] by (simp only: mult_1)
    then have a: "s * s < 1" using 1 by (rule less_trans)
    have "s * s * s < s" using mult_strict_right_mono [OF a assms(1)] by (simp only: mult_1)
    then have "s * s * s < 1" using 1 by (rule less_trans)
    with assms(2) show False by simp
  next
    case 2
    have "s < s * s" using mult_strict_right_mono [OF 2 assms(1)] by (simp only: mult_1)
    with 2 have a: "1 < s * s" by (rule less_trans)
    have "s < s * s * s" using mult_strict_right_mono [OF a assms(1)] by (simp only: mult_1)
    with 2 have "1 < s * s * s" by (rule less_trans)
    with assms(2) show False by simp
  qed
qed

lemma pca_transform_block:
  assumes pca: "transform_poses_pca eig poses = Inr (ps, transform)"
    and orth: "mm3 (transpose3 (snd (eig (gram3 (pca_centered poses)))))
                   (snd (eig (gram3 (pca_centered poses)))) = id3"
  shows "q3 transform = Vec4 0 0 0 1 \<and> 0 < pca_scale_factor eig poses \<and>
         mm3 (rot_block (unpad_poses transform)) (transpose3 (rot_block (unpad_poses transform))) =
           diag3 (pca_scale_factor eig poses * pca_scale_factor eig poses)
                 (pca_scale_factor eig poses * pca_scale_factor eig poses)
                 (pca_scale_factor eig poses * pca_scale_factor eig poses) \<and>
         det3 (rot_block (unpad_poses transform)) =
           pca_scale_factor eig poses * pca_scale_factor eig poses * pca_scale_factor eig poses"
proof -
  define s where "s = pca_scale_factor eig poses"
  define t1 where "t1 = snd (pca_recenter eig poses)"
  define b1 where "b1 = rot_block (unpad_poses t1)"
  from pca have ne: "poses \<noteq> []" and m0: "max_abs_translation (fst (pca_recenter eig poses)) \<noteq> 0"
    by (auto simp: transform_poses_pca_def Let_def split_beta split: if_splits)
  from transform_poses_pca_value [OF ne m0] pca have tr: "transform = mm4 (diag4 s s s 1) t1"
    by (simp add: s_def pca_scale_factor_def t1_def)
  have spos: "0 < s"
    using m0 max_abs_translation_nonneg [of "fst (pca_recenter eig poses)"]
    by (simp add: s_def pca_scale_factor_def)
  have q: "q3 t1 = Vec4 0 0 0 1" and
    c: "b1 = pca_rot eig poses \<or> b1 = mm3 (diag3 1 (- 1) (- 1)) (pca_rot eig poses)"
    using pca_recenter_block [of eig poses] by (simp_all add: t1_def b1_def)
  have ro: "mm3 (pca_rot eig poses) (transpose3 (pca_rot eig poses)) = id3"
    by (rule pca_rot_orthogonal [of eig poses, OF orth])
  have rd: "det3 (pca_rot eig poses) = 1"
    by (simp add: det3_pca_rot orthogonal_det3 [OF orth])
  from c ro have o1: "mm3 b1 (transpose3 b1) = id3"
    using flip_yz_orthogonal [OF ro] by auto
  from c rd have d1: "det3 b1 = 1"
    by (auto simp: det3_mm3 det3_diag3)
  have bl: "rot_block (unpad_poses transform) = mm3 (diag3 s s s) b1" and
    qt: "q3 transform = Vec4 0 0 0 1"
    using scale_block [OF q, of s] by (simp_all add: tr b1_def)
  have "mm3 (mm3 (diag3 s s s) b1) (transpose3 (mm3 (diag3 s s s) b1)) =
        mm3 (diag3 s s s) (mm3 (mm3 b1 (transpose3 b1)) (transpose3 (diag3 s s s)))"
    by (simp only: transpose3_mm3 mm3_assoc)
  also have "\<dots> = diag3 (s * s) (s * s) (s * s)"
    by (simp add: o1 diag3_scalar_sq)
  finally have g: "mm3 (rot_block (unpad_poses transform)) (transpose3 (rot_block (unpad_poses transform))) =
      diag3 (s * s) (s * s) (s * s)" by (simp only: bl)
  have "det3 (rot_block (unpad_poses transform)) = s * s * s"
    by (simp add: bl det3_mm3 det3_diag3 d1)
  with qt spos g show ?thesis unfolding s_def by simp
qed

lemma ellipse_render_pose_gram:
  assumes pca: "transform_poses_pca eig poses = Inr (ps, transform)"
    and orth: "mm3 (transpose3 (snd (eig (gram3 (pca_centered poses)))))
                   (snd (eig (gram3 (pca_centered poses)))) = id3"
    and e: "ellipse_render_pose transform center up p = Inr m"
  shows "mm3 (rot_block (unpad_poses m)) (transpose3 (rot_block (unpad_poses m))) =
           diag3 (pca_scale_factor eig poses * pca_scale_factor eig poses)
                 (pca_scale_factor eig poses * pca_scale_factor eig poses)
                 (pca_scale_factor eig poses * pca_scale_factor eig poses) \<and>
         det3 (rot_block (unpad_poses m)) =
           pca_scale_factor eig poses * pca_scale_factor eig poses * pca_scale_factor eig poses \<and>
         (is_rotation (rot_block (unpad_poses m)) \<longleftrightarrow> pca_scale_factor eig poses = 1)"
proof -
  define s where "s = pca_scale_factor eig poses"
  define b where "b = rot_block (unpad_poses transform)"
  from pca_transform_block [OF pca orth] have
    q: "q3 transform = Vec4 0 0 0 1" and spos: "0 < s" and
    g: "mm3 b (transpose3 b) = diag3 (s * s) (s * s) (s * s)" and d: "det3 b = s * s * s"
    by (simp_all add: s_def b_def)
  from d spos have "det3 b \<noteq> 0" by simp
  from ellipse_render_pose_block [OF q this [unfolded b_def] e] obtain v where
    rot: "is_rotation v" and
    mb: "rot_block (unpad_poses m) = mm3 (mm3 (diag3 1 (- 1) (- 1)) (transpose3 v)) b"
    by (auto simp: b_def)
  define x where "x = mm3 (diag3 1 (- 1) (- 1)) (transpose3 v)"
  from rot have vtv: "mm3 (transpose3 v) v = id3" and dv: "det3 v = 1"
    by (simp_all add: is_rotation_def)
  have "mm3 x (transpose3 x) =
        mm3 (diag3 1 (- 1) (- 1)) (mm3 (mm3 (transpose3 v) v) (transpose3 (diag3 1 (- 1) (- 1))))"
    unfolding x_def by (simp only: transpose3_mm3 mm3_assoc transpose3_transpose3)
  also have "\<dots> = id3" by (simp add: vtv) (simp add: mat_defs vec_defs)
  finally have xx: "mm3 x (transpose3 x) = id3" .
  have dx: "det3 x = 1" by (simp add: x_def det3_mm3 det3_diag3 det3_transpose3 dv)
  let ?m = "rot_block (unpad_poses m)"
  have mx: "?m = mm3 x b" by (simp add: mb x_def)
  have gm: "mm3 ?m (transpose3 ?m) = diag3 (s * s) (s * s) (s * s)"
    unfolding mx by (rule conj_gram [OF xx g])
  have dm: "det3 ?m = s * s * s" by (simp add: mx det3_mm3 dx d)
  have "is_rotation ?m \<longleftrightarrow> s = 1"
  proof
    assume "is_rotation ?m"
    then have "det3 ?m = 1" by (simp add: is_rotation_def)
    with dm have "s * s * s = 1" by simp
    with spos show "s = 1" by (rule cube_one)
  next
    assume "s = 1"
    with gm have "mm3 ?m (transpose3 ?m) = id3" by (simp add: diag3_def id3_def)
    then have "mm3 (transpose3 ?m) ?m = id3" by (rule mm3_left_right)
    moreover have "det3 ?m = 1" using dm \<open>s = 1\<close> by simp
    ultimately show "is_rotation ?m" by (simp add: is_rotation_def)
  qed
  with gm dm show ?thesis unfolding s_def by simp
qed

lemma ring_scale: "pca_scale_factor diag_eig (map unpad_poses ring_poses) = 1 / 2"
  by (simp add: pca_scale_factor_def ring_recenter max_abs_translation_def)

lemma ring_orth:
  "mm3 (transpose3 (snd (diag_eig (gram3 (pca_centered (map unpad_poses ring_poses))))))
       (snd (diag_eig (gram3 (pca_centered (map unpad_poses ring_poses))))) = id3"
  by (simp add: diag_eig_def) (simp add: mat_defs vec_defs)

lemma ring_render:
  "ellipse_render_poses diag_eig ring_views [Vec3 1 0 0] =
     Inr [Mat4 (Vec4 (- (1/2)) 0 0 0) (Vec4 0 0 (- (1/2)) 0) (Vec4 0 (- (1/2)) 0 1) (Vec4 0 0 0 1)]"
  by (simp add: ellipse_render_poses_def ring_view_poses ring_pca ring_focus ring_up ring_first_pose)

lemma ellipse_render_poses_member:
  assumes v: "view_poses views = Inr poses"
    and r: "ellipse_render_poses eig views positions = Inr ms"
    and m: "m \<in> set ms"
  shows "\<exists>ps transform center up p.
           transform_poses_pca eig (map unpad_poses poses) = Inr (ps, transform) \<and>
           ellipse_render_pose transform center up p = Inr m"
proof -
  from r v obtain ps transform center up where
    pca: "transform_poses_pca eig (map unpad_poses poses) = Inr (ps, transform)" and
    s: "sequence (map (ellipse_render_pose transform center up) positions) = Inr ms"
    by (auto simp: ellipse_render_poses_def and_then_def split: sum.splits)
  from m obtain i where i: "i < length ms" and mi: "m = ms ! i" by (auto simp: in_set_conv_nth)
  from sequence_length [OF s] i have ip: "i < length positions" by simp
  then have "map (ellipse_render_pose transform center up) positions ! i = Inr (ms ! i)"
    using sequence_nth [OF s, of i] by simp
  with ip have "ellipse_render_pose transform center up (positions ! i) = Inr m"
    by (simp add: mi)
  with pca show ?thesis by blast
qed

text \<open>
  Claim C6. Every pose that \<open>generate_ellipse_path\<close> returns is said to have an
  orthonormal, right-handed 3x3 block. What the loop returns (for orthonormal eigenvectors
  from \<open>np.linalg.eig\<close>, and whatever the positions of the path) is a block whose rows are
  orthogonal with squared norm \<open>scale_factor\<close> squared and whose determinant is
  \<open>scale_factor\<close> cubed: right-handed, but orthonormal only when \<open>scale_factor\<close> is 1,
  because the inverse of the PCA transform carries the scale into the rotation. For the
  four views on a circle of radius 2 the scale factor is 1/2 and the block of the first
  pose has determinant 1/8.
\<close>

theorem ellipse_poses_scaled_rotation:
  assumes "view_poses views = Inr poses"
    and "mm3 (transpose3 (snd (eig (gram3 (pca_centered (map unpad_poses poses))))))
             (snd (eig (gram3 (pca_centered (map unpad_poses poses))))) = id3"
    and "ellipse_render_poses eig views positions = Inr ms"
    and "m \<in> set ms"
  shows "mm3 (rot_block (unpad_poses m)) (transpose3 (rot_block (unpad_poses m))) =
           diag3 (pca_scale_factor eig (map unpad_poses poses) * pca_scale_factor eig (map unpad_poses poses))
                 (pca_scale_factor eig (map unpad_poses poses) * pca_scale_factor eig (map unpad_poses poses))
                 (pca_scale_factor eig (map unpad_poses poses) * pca_scale_factor eig (map unpad_poses poses)) \<and>
         det3 (rot_block (unpad_poses m)) =
           pca_scale_factor eig (map unpad_poses poses) * pca_scale_factor eig (map unpad_poses poses) *
           pca_scale_factor eig (map unpad_poses poses) \<and>
         (is_rotation (rot_block (unpad_poses m)) \<longleftrightarrow>
            pca_scale_factor eig (map unpad_poses poses) = 1)"
proof -
  from ellipse_render_poses_member [OF assms(1,3,4)] obtain ps transform center up p where
    pca: "transform_poses_pca eig (map unpad_poses poses) = Inr (ps, transform)" and
    e: "ellipse_render_pose transform center up p = Inr m"
    by blast
  show ?thesis
    by (rule ellipse_render_pose_gram [of eig "map unpad_poses poses", OF pca assms(2) e])
qed

theorem ellipse_poses_scaled_rotation_witness:
  "view_poses ring_views = Inr ring_poses \<and>
   ellipse_render_poses diag_eig ring_views [Vec3 1 0 0] =
     Inr [Mat4 (Vec4 (- (1/2)) 0 0 0) (Vec4 0 0 (- (1/2)) 0) (Vec4 0 (- (1/2)) 0 1) (Vec4 0 0 0 1)] \<and>
   pca_scale_factor diag_eig (map unpad_poses ring_poses) = 1 / 2 \<and>
   det3 (Mat3 (Vec3 (- (1/2)) 0 0) (Vec3 0 0 (- (1/2))) (Vec3 0 (- (1/2)) 0)) = 1 / 8 \<and>
   \<not> is_rotation (Mat3 (Vec3 (- (1/2)) 0 0) (Vec3 0 0 (- (1/2))) (Vec3 0 (- (1/2)) 0))"
proof -
  let ?m = "Mat4 (Vec4 (- (1/2)) 0 0 0) (Vec4 0 0 (- (1/2)) 0) (Vec4 0 (- (1/2)) 0 1) (Vec4 0 0 0 1)"
  have b: "rot_block (unpad_poses ?m) = Mat3 (Vec3 (- (1/2)) 0 0) (Vec3 0 0 (- (1/2))) (Vec3 0 (- (1/2)) 0)"
    by (simp add: unpad_poses_def pose_defs transpose3_def)
  have m: "?m \<in> set [?m]" by simp
  from ellipse_poses_scaled_rotation [of ring_views ring_poses diag_eig "[Vec3 1 0 0]" "[?m]" ?m,
      OF ring_view_poses ring_orth ring_render m]
  have "det3 (rot_block (unpad_poses ?m)) = 1 / 8" and "\<not> is_rotation (rot_block (unpad_poses ?m))"
    by (simp_all add: ring_scale)
  then show ?thesis
    by (simp add: ring_view_poses ring_render ring_scale b)
qed

subsection \<open>Facts about the rounding to float64\<close>

lemma round_even_lower: "x - 1 / 2 \<le> of_int (round_even x)"
  unfolding round_even_def Let_def by (auto; linarith)

lemma round_even_upper: "of_int (round_even x) \<le> x + 1 / 2"
  unfolding round_even_def Let_def by (auto; linarith)

lemma round_even_of_int [simp]: "round_even (of_int n) = n"
  by (simp add: round_even_def)

lemma round_even_zero [simp]: "round_even 0 = 0"
  by (simp add: round_even_def)

lemma round_even_floor: "\<lfloor>x\<rfloor> \<le> round_even x" "round_even x \<le> \<lfloor>x\<rfloor> + 1"
  by (simp_all add: round_even_def Let_def)

lemma round_even_mono:
  assumes "x \<le> y" shows "round_even x \<le> round_even y"
proof (cases "\<lfloor>x\<rfloor> = \<lfloor>y\<rfloor>")
  case True
  with assms show ?thesis by (auto simp: round_even_def Let_def)
next
  case False
  with assms have "\<lfloor>x\<rfloor> < \<lfloor>y\<rfloor>" using floor_mono [OF assms] by linarith
  then have "round_even x \<le> \<lfloor>y\<rfloor>" using round_even_floor(2) [of x] by linarith
  also have "\<dots> \<le> round_even y" by (rule round_even_floor)
  finally show ?thesis .
qed

lemma round_even_uminus: "round_even (- x) = - round_even x"
proof (cases "x = of_int \<lfloor>x\<rfloor>")
  case True
  then obtain n where "x = of_int n" ..
  then have "- x = of_int (- n)" by simp
  then show ?thesis unfolding \<open>x = of_int n\<close> by (simp only: round_even_of_int)
next
  case False
  define f where "f = \<lfloor>x\<rfloor>"
  define d where "d = x - of_int f"
  have d: "0 < d" "d < 1" using False by (simp_all add: d_def f_def) linarith+
  have "of_int (- f - 1) \<le> - x" "- x < of_int (- f - 1) + 1" using d by (simp_all add: d_def)
  then have g: "\<lfloor>- x\<rfloor> = - f - 1" by (simp only: floor_unique)
  have e: "- x - of_int (- f - 1) = 1 - d" by (simp add: d_def)
  have r: "round_even x = (if d < 1 / 2 then f else if 1 / 2 < d then f + 1 else if even f then f else f + 1)"
    by (simp add: round_even_def Let_def f_def d_def)
  have "round_even (- x) = (if 1 - d < 1 / 2 then - f - 1 else if 1 / 2 < 1 - d then - f else if even (- f - 1) then - f - 1 else - f)"
    unfolding round_even_def Let_def g e by simp
  with r show ?thesis by auto
qed

lemma ulp_pos [simp]: "0 < ulp x"
  by (simp add: ulp_def)

lemma ulp_nonneg [simp]: "0 \<le> ulp x"
  by (simp add: ulp_def)

lemma ulp_neq0 [simp]: "ulp x \<noteq> 0"
  by (simp add: ulp_def)

lemma floor_log2:
  assumes "0 < x"
  shows "2 powr of_int \<lfloor>log 2 x\<rfloor> \<le> x" "x < 2 powr of_int (\<lfloor>log 2 x\<rfloor> + 1)"
proof -
  have x: "2 powr log 2 x = x" using assms by simp
  have "(2::real) powr of_int \<lfloor>log 2 x\<rfloor> \<le> 2 powr log 2 x" by (intro powr_mono) simp_all
  then show "2 powr of_int \<lfloor>log 2 x\<rfloor> \<le> x" by (simp only: x)
  have "log 2 x < of_int (\<lfloor>log 2 x\<rfloor> + 1)" by linarith
  then have "(2::real) powr log 2 x < 2 powr of_int (\<lfloor>log 2 x\<rfloor> + 1)"
    by (intro powr_less_mono) simp_all
  then show "x < 2 powr of_int (\<lfloor>log 2 x\<rfloor> + 1)" by (simp only: x)
qed

lemma floor_log2_eq:
  assumes "2 powr of_int e \<le> x" "x < 2 powr of_int (e + 1)"
  shows "\<lfloor>log 2 x\<rfloor> = e"
proof -
  have "0 < (2::real) powr of_int e" by simp
  with assms(1) have x: "0 < x" by linarith
  from assms(1) x have "of_int e \<le> log 2 x" by (simp add: le_log_iff)
  moreover from assms(2) x have "log 2 x < of_int e + 1" by (simp add: log_less_iff)
  ultimately show ?thesis by (simp add: floor_unique)
qed

lemma binade_eq:
  assumes "- 1022 \<le> e" "2 powr of_int e \<le> \<bar>x\<bar>" "\<bar>x\<bar> < 2 powr of_int (e + 1)"
  shows "binade x = e"
  using floor_log2_eq [OF assms(2,3)] assms(1) by (simp add: binade_def)

lemma binade_abs [simp]: "binade \<bar>x\<bar> = binade x" "binade (- x) = binade x"
  by (simp_all add: binade_def)

lemma ulp_abs [simp]: "ulp \<bar>x\<bar> = ulp x" "ulp (- x) = ulp x"
  by (simp_all add: ulp_def)

lemma binade_upper:
  assumes "x \<noteq> 0" shows "\<bar>x\<bar> < 2 powr of_int (binade x + 1)"
proof -
  from assms have "\<bar>x\<bar> < 2 powr of_int (\<lfloor>log 2 \<bar>x\<bar>\<rfloor> + 1)" by (intro floor_log2) simp
  also have "\<dots> \<le> 2 powr of_int (binade x + 1)" by (simp add: binade_def)
  finally show ?thesis .
qed

lemma binade_lower:
  assumes "1 / 2 ^ 1022 \<le> \<bar>x\<bar>"
  shows "2 powr of_int (binade x) \<le> \<bar>x\<bar>" "binade x = \<lfloor>log 2 \<bar>x\<bar>\<rfloor>"
proof -
  have "0 < 1 / (2::real) ^ 1022" by simp
  with assms have p: "0 < \<bar>x\<bar>" by linarith
  have "2 powr of_int (- 1022) \<le> \<bar>x\<bar>" using assms by (simp add: powr_minus_divide)
  with p have "of_int (- 1022) \<le> log 2 \<bar>x\<bar>" by (subst le_log_iff) simp_all
  then have "- 1022 \<le> \<lfloor>log 2 \<bar>x\<bar>\<rfloor>" by (simp only: le_floor_iff)
  then show b: "binade x = \<lfloor>log 2 \<bar>x\<bar>\<rfloor>" by (simp add: binade_def)
  show "2 powr of_int (binade x) \<le> \<bar>x\<bar>" unfolding b by (rule floor_log2 [OF p])
qed

lemma binade_mono:
  assumes "0 < x" "x \<le> y" shows "binade x \<le> binade y"
proof -
  from assms have "log 2 x \<le> log 2 y" by simp
  then have "\<lfloor>log 2 x\<rfloor> \<le> \<lfloor>log 2 y\<rfloor>" by (rule floor_mono)
  with assms show ?thesis by (simp add: binade_def)
qed

lemma fl64_zero [simp]: "fl64 0 = 0"
  by (simp add: fl64_def)

lemma fl64_uminus: "fl64 (- x) = - fl64 x"
  by (simp add: fl64_def round_even_uminus)

lemma fl64_error: "\<bar>fl64 x - x\<bar> \<le> ulp x / 2"
proof -
  have "\<bar>of_int (round_even (x / ulp x)) - x / ulp x\<bar> \<le> 1 / 2"
    using round_even_lower [of "x / ulp x"] round_even_upper [of "x / ulp x"] by linarith
  then have "\<bar>of_int (round_even (x / ulp x)) - x / ulp x\<bar> * ulp x \<le> 1 / 2 * ulp x"
    by (rule mult_right_mono) simp
  moreover have "\<bar>of_int (round_even (x / ulp x)) - x / ulp x\<bar> * ulp x = \<bar>fl64 x - x\<bar>"
  proof -
    have "(of_int (round_even (x / ulp x)) - x / ulp x) * ulp x = fl64 x - x"
      by (simp add: fl64_def left_diff_distrib)
    then have "\<bar>(of_int (round_even (x / ulp x)) - x / ulp x) * ulp x\<bar> = \<bar>fl64 x - x\<bar>"
      by (simp only:)
    then show ?thesis by (simp only: abs_mult abs_of_pos [OF ulp_pos])
  qed
  ultimately show ?thesis by simp
qed

lemma fl64_nonneg: assumes "0 \<le> x" shows "0 \<le> fl64 x"
proof -
  have "0 \<le> x / ulp x" using assms by simp
  then have "round_even 0 \<le> round_even (x / ulp x)" by (rule round_even_mono)
  then have "0 \<le> real_of_int (round_even (x / ulp x))" by simp
  then show ?thesis unfolding fl64_def by (intro mult_nonneg_nonneg) simp_all
qed

lemma powr_53: "(2::real) powr of_int (e + 1) = 2 ^ 53 * 2 powr of_int (e - 52)"
proof -
  have "of_int (e + 1) = 53 + (of_int (e - 52) :: real)" by simp
  then have "(2::real) powr of_int (e + 1) = 2 powr 53 * 2 powr of_int (e - 52)"
    by (simp only: powr_add)
  then show ?thesis by simp
qed

lemma powr_52: "(2::real) powr of_int e = 2 ^ 52 * 2 powr of_int (e - 52)"
proof -
  have "of_int e = 52 + (of_int (e - 52) :: real)" by simp
  then have "(2::real) powr of_int e = 2 powr 52 * 2 powr of_int (e - 52)"
    by (simp only: powr_add)
  then show ?thesis by simp
qed

lemma fl64_upper:
  assumes "0 < x" shows "fl64 x \<le> 2 powr of_int (binade x + 1)"
proof -
  from assms have "x < 2 powr of_int (binade x + 1)" using binade_upper [of x] by simp
  then have "x < 2 ^ 53 * ulp x" by (simp only: powr_53 ulp_def)
  then have "x / ulp x \<le> of_int (2 ^ 53)" by (simp add: field_simps)
  then have "round_even (x / ulp x) \<le> round_even (of_int (2 ^ 53))" by (rule round_even_mono)
  then have "round_even (x / ulp x) \<le> 2 ^ 53" by (simp only: round_even_of_int)
  then have "real_of_int (round_even (x / ulp x)) \<le> 2 ^ 53" by (metis of_int_le_iff of_int_numeral of_int_power)
  then have "fl64 x \<le> 2 ^ 53 * ulp x" unfolding fl64_def by (rule mult_right_mono) simp
  then show ?thesis by (simp only: powr_53 ulp_def)
qed

lemma fl64_lower:
  assumes "1 / 2 ^ 1022 \<le> x" shows "2 powr of_int (binade x) \<le> fl64 x"
proof -
  have "0 < 1 / (2::real) ^ 1022" by simp
  with assms have p: "0 < x" by linarith
  then have "1 / 2 ^ 1022 \<le> \<bar>x\<bar>" using assms by simp
  from binade_lower(1) [OF this] p have "2 powr of_int (binade x) \<le> x" by simp
  then have "2 ^ 52 * ulp x \<le> x" by (simp only: powr_52 [of "binade x"] ulp_def)
  then have "of_int (2 ^ 52) \<le> x / ulp x" by (simp add: field_simps)
  then have "round_even (of_int (2 ^ 52)) \<le> round_even (x / ulp x)" by (rule round_even_mono)
  then have "2 ^ 52 \<le> round_even (x / ulp x)" by (simp only: round_even_of_int)
  then have "2 ^ 52 \<le> real_of_int (round_even (x / ulp x))" by (metis of_int_le_iff of_int_numeral of_int_power)
  then have "2 ^ 52 * ulp x \<le> fl64 x" unfolding fl64_def by (rule mult_right_mono) simp
  then show ?thesis by (simp only: powr_52 [of "binade x"] ulp_def)
qed

lemma fl64_mono_pos:
  assumes "0 < x" "x \<le> y" shows "fl64 x \<le> fl64 y"
proof (cases "binade x = binade y")
  case True
  then have u: "ulp x = ulp y" by (simp add: ulp_def)
  from assms(2) have "x / ulp y \<le> y / ulp y" by (simp add: divide_right_mono)
  then have "round_even (x / ulp y) \<le> round_even (y / ulp y)" by (rule round_even_mono)
  then have "real_of_int (round_even (x / ulp y)) * ulp y \<le> real_of_int (round_even (y / ulp y)) * ulp y"
    by (intro mult_right_mono) simp_all
  then show ?thesis by (simp add: fl64_def u)
next
  case False
  with binade_mono [OF assms] have l: "binade x + 1 \<le> binade y" by linarith
  have "- 1022 \<le> binade x" by (simp add: binade_def)
  with l have "- 1022 < binade y" by linarith
  then have b: "binade y = \<lfloor>log 2 \<bar>y\<bar>\<rfloor>" by (simp add: binade_def max_def split: if_splits)
  from assms have y: "0 < y" by linarith
  then have "2 powr of_int (binade y) \<le> y" unfolding b using floor_log2(1) [of y] by simp
  moreover have "(2::real) powr of_int (- 1021) \<le> 2 powr of_int (binade y)"
    using \<open>- 1022 < binade y\<close> by (intro powr_mono) simp_all
  moreover have "1 / (2::real) ^ 1022 \<le> 2 powr of_int (- 1021)" by (simp add: powr_minus_divide)
  ultimately have "1 / 2 ^ 1022 \<le> y" by linarith
  then have ly: "2 powr of_int (binade y) \<le> fl64 y" by (rule fl64_lower)
  have "fl64 x \<le> 2 powr of_int (binade x + 1)" by (rule fl64_upper [OF assms(1)])
  also have "\<dots> \<le> 2 powr of_int (binade y)" using l by (intro powr_mono) simp_all
  finally show ?thesis using ly by linarith
qed

lemma fl64_mono:
  assumes "x \<le> y" shows "fl64 x \<le> fl64 y"
proof -
  consider "0 < x" | "x \<le> 0" "0 \<le> y" | "y < 0" by linarith
  then show ?thesis
  proof cases
    case 1
    then show ?thesis using assms by (rule fl64_mono_pos)
  next
    case 2
    then have "0 \<le> fl64 (- x)" "0 \<le> fl64 y" by (simp_all add: fl64_nonneg)
    then show ?thesis by (simp add: fl64_uminus)
  next
    case 3
    then have "fl64 (- y) \<le> fl64 (- x)" using assms by (intro fl64_mono_pos) simp_all
    then show ?thesis by (simp add: fl64_uminus)
  qed
qed

lemma fl64_abs: "\<bar>fl64 x\<bar> = fl64 \<bar>x\<bar>"
proof (cases "0 \<le> x")
  case True
  then show ?thesis using fl64_nonneg [of x] by simp
next
  case False
  then have "0 \<le> fl64 (- x)" by (intro fl64_nonneg) simp
  with False show ?thesis by (simp add: fl64_uminus)
qed

lemma fl64_value:
  assumes "- 1022 \<le> e" "2 powr of_int e \<le> \<bar>x\<bar>" "\<bar>x\<bar> < 2 powr of_int (e + 1)"
  shows "fl64 x = of_int (round_even (x / 2 powr of_int (e - 52))) * 2 powr of_int (e - 52)"
  by (simp add: fl64_def ulp_def binade_eq [OF assms])

lemma fl64_near_one:
  assumes "1 - 1 / 2 ^ 53 \<le> y" "y \<le> 1 + 1 / 2 ^ 53"
  shows "fl64 y = 1 \<or> fl64 y = 1 - 1 / 2 ^ 53"
proof (cases "1 \<le> y")
  case True
  have v: "fl64 y = of_int (round_even (y / 2 powr of_int (0 - 52))) * 2 powr of_int (0 - 52)"
    using True assms(2) by (intro fl64_value) simp_all
  have p: "(2::real) powr of_int (0 - 52) = 1 / 2 ^ 52" by (simp add: powr_minus_divide)
  have q: "y / (1 / 2 ^ 52) = y * 2 ^ 52" by simp
  have l: "of_int (2 ^ 52) \<le> y * 2 ^ 52" using True by simp
  have u: "y * 2 ^ 52 \<le> of_int (2 ^ 52) + 1 / 2" using assms(2) by simp
  then have "y * 2 ^ 52 < of_int (2 ^ 52) + 1" by linarith
  with l have f: "\<lfloor>y * 2 ^ 52\<rfloor> = 2 ^ 52" by (simp only: floor_unique)
  have "round_even (y * 2 ^ 52) = 2 ^ 52"
    using u unfolding round_even_def Let_def f by auto
  then show ?thesis unfolding v p q by simp
next
  case False
  have v: "fl64 y = of_int (round_even (y / 2 powr of_int (- 1 - 52))) * 2 powr of_int (- 1 - 52)"
    using False assms(1) by (intro fl64_value) (simp_all add: powr_minus_divide)
  have p: "(2::real) powr of_int (- 1 - 52) = 1 / 2 ^ 53" by (simp add: powr_minus_divide)
  have q: "y / (1 / 2 ^ 53) = y * 2 ^ 53" by simp
  have l: "of_int (2 ^ 53 - 1) \<le> y * 2 ^ 53" using assms(1) by (simp add: field_simps)
  have u: "y * 2 ^ 53 < of_int (2 ^ 53 - 1) + 1" using False by simp
  from l u have f: "\<lfloor>y * 2 ^ 53\<rfloor> = 2 ^ 53 - 1" by (simp only: floor_unique)
  have "round_even (y * 2 ^ 53) = 2 ^ 53 - 1 \<or> round_even (y * 2 ^ 53) = 2 ^ 53"
    unfolding round_even_def Let_def f by auto
  then show ?thesis unfolding v p q by auto
qed

lemma fl64_recip:
  assumes "1 / 2 ^ 1021 \<le> m" "m \<le> 2 ^ 1021"
  shows "\<bar>m * fl64 (1 / m) - 1\<bar> \<le> 1 / 2 ^ 53"
    and "0 < fl64 (1 / m)" and "fl64 (1 / m) < 2 ^ 1024"
proof -
  have "0 < 1 / (2::real) ^ 1021" by simp
  with assms(1) have m: "0 < m" by linarith
  define x where "x = 1 / m"
  have x: "0 < x" using m by (simp add: x_def)
  have xl: "1 / 2 ^ 1021 \<le> x" using assms(2) m by (simp add: x_def field_simps)
  have xu: "x \<le> 2 ^ 1021" using assms(1) m by (simp add: x_def field_simps)
  have "1 / (2::real) ^ 1022 \<le> 1 / 2 ^ 1021" by (simp add: field_simps)
  with xl have xn: "1 / 2 ^ 1022 \<le> x" by linarith
  then have xa: "1 / 2 ^ 1022 \<le> \<bar>x\<bar>" using x by simp
  define e where "e = binade x"
  have le: "2 powr of_int e \<le> x" using binade_lower(1) [OF xa] x by (simp add: e_def)
  have err: "\<bar>fl64 x - x\<bar> \<le> 2 powr of_int (e - 52) / 2"
    using fl64_error [of x] by (simp add: ulp_def e_def)
  have "m * x = 1" using m by (simp add: x_def)
  have "m * 2 powr of_int e \<le> m * x" using le m by (intro mult_left_mono) simp_all
  then have me: "m * 2 powr of_int e \<le> 1" by (simp only: \<open>m * x = 1\<close>)
  have "\<bar>m * fl64 x - 1\<bar> = m * \<bar>fl64 x - x\<bar>"
  proof -
    have "m * fl64 x - 1 = m * (fl64 x - x)" using \<open>m * x = 1\<close> by (simp add: right_diff_distrib)
    then show ?thesis using m by (simp add: abs_mult)
  qed
  also have "\<dots> \<le> m * (2 powr of_int (e - 52) / 2)" using err m by (intro mult_left_mono) simp_all
  also have "\<dots> = m * 2 powr of_int e / 2 ^ 53"
  proof -
    have "(2::real) powr of_int (e - 52) = 2 powr of_int e / 2 ^ 52"
      by (simp add: powr_52 [of e])
    then show ?thesis by simp
  qed
  also have "\<dots> \<le> 1 / 2 ^ 53" using me by (intro divide_right_mono) simp_all
  finally show "\<bar>m * fl64 (1 / m) - 1\<bar> \<le> 1 / 2 ^ 53" by (simp only: x_def)
  have "0 < (2::real) powr of_int e" by simp
  also have "\<dots> \<le> fl64 x" unfolding e_def by (rule fl64_lower [OF xn])
  finally show "0 < fl64 (1 / m)" by (simp only: x_def)
  have "x < 2 powr of_int (1021 + 1)"
  proof -
    have "(2::real) ^ 1021 < 2 ^ 1022" by (rule power_strict_increasing) simp_all
    then show ?thesis using xu by simp
  qed
  moreover have "(2::real) powr of_int e \<le> x" by (rule le)
  ultimately have "(2::real) powr of_int e < 2 powr of_int (1021 + 1)" by linarith
  then have "e < 1021 + 1" by (simp only: powr_less_cancel_iff of_int_less_iff)
  then have "e + 1 \<le> 1022" by simp
  have "fl64 x \<le> 2 powr of_int (e + 1)" unfolding e_def by (rule fl64_upper [OF x])
  also have "\<dots> \<le> 2 powr of_int 1022" using \<open>e + 1 \<le> 1022\<close> by (intro powr_mono) simp_all
  also have "\<dots> = 2 ^ 1022" by simp
  also have "\<dots> < (2::real) ^ 1024" by (rule power_strict_increasing) simp_all
  finally show "fl64 (1 / m) < 2 ^ 1024" by (simp only: x_def)
qed

lemma fl64_eval:
  assumes "- 1022 \<le> e" "2 powr of_int e \<le> \<bar>x\<bar>" "\<bar>x\<bar> < 2 powr of_int (e + 1)"
    and "round_even (x / 2 powr of_int (e - 52)) = k"
  shows "fl64 x = of_int k * 2 powr of_int (e - 52)"
  using fl64_value [OF assms(1-3)] assms(4) by simp

lemma f64_value: "\<bar>fl64 x\<bar> < 2 ^ 1024 \<Longrightarrow> f64 x = Inr (fl64 x)"
  by (simp add: f64_def)

lemma f64_zero [simp]: "f64 0 = Inr 0"
  by (simp add: f64_def)

lemma amax_mono_map:
  assumes "\<And>x y. x \<le> y \<Longrightarrow> f x \<le> f y" and "f 0 = 0"
  shows "amax (map f xs) = f (amax xs)"
proof (induction xs rule: amax.induct)
  case 1
  then show ?case by (simp add: assms(2))
next
  case (2 x)
  then show ?case by simp
next
  case (3 x y ys)
  have "max (f x) (f (amax (y # ys))) = f (max x (amax (y # ys)))"
  proof (cases "x \<le> amax (y # ys)")
    case True
    then have "f x \<le> f (amax (y # ys))" by (rule assms(1))
    with True show ?thesis by (simp add: max_def)
  next
    case False
    then have "amax (y # ys) \<le> x" by simp
    then have "f (amax (y # ys)) \<le> f x" by (rule assms(1))
    with False show ?thesis by (simp add: max_def)
  qed
  with 3 show ?case by simp
qed

lemma abs_translations_scale_f64:
  "0 \<le> s \<Longrightarrow>
   concat (map (\<lambda>p. [\<bar>ww (p0 p)\<bar>, \<bar>ww (p1 p)\<bar>, \<bar>ww (p2 p)\<bar>]) (map (scale_translation_f64 s) ps)) =
   map (\<lambda>x. fl64 (x * s)) (concat (map (\<lambda>p. [\<bar>ww (p0 p)\<bar>, \<bar>ww (p1 p)\<bar>, \<bar>ww (p2 p)\<bar>]) ps))"
  by (induction ps) (simp_all add: scale_translation_f64_def fl64_abs abs_mult)

lemma max_abs_translation_scale_f64:
  assumes "0 \<le> s"
  shows "max_abs_translation (map (scale_translation_f64 s) ps) = fl64 (max_abs_translation ps * s)"
proof -
  have "amax (map (\<lambda>x. fl64 (x * s)) xs) = fl64 (amax xs * s)" for xs
    using assms by (intro amax_mono_map [where f = "\<lambda>x. fl64 (x * s)"] fl64_mono mult_right_mono) simp_all
  then show ?thesis
    by (simp only: max_abs_translation_def abs_translations_scale_f64 [OF assms])
qed

lemma far_centered: "pca_t_mean far_poses = Vec3 0 0 0"
  by (simp add: pca_t_mean_def far_poses_def sum3_def pose_defs vec_defs)

lemma far_gram: "gram3 (pca_centered far_poses) = Mat3 (Vec3 4802 0 0) (Vec3 0 0 0) (Vec3 0 0 0)"
  by (simp add: pca_centered_def far_centered gram3_def sum_m3_def) (simp add: far_poses_def pose_defs mat_defs vec_defs)

lemma argsort_far: "argsort [4802, 0, 0] = [1, 2, 0]"
  by (simp add: argsort_def)

lemma far_rot: "pca_rot diag_eig far_poses = Mat3 (Vec3 1 0 0) (Vec3 0 0 1) (Vec3 0 (- 1) 0)"
  by (simp add: pca_rot_def far_gram diag_eig_def list_of_vec3_def argsort_far mcol3_def mat_defs vec_defs)

lemma far_recenter: "pca_recenter diag_eig far_poses =
   ([Mat34 (Vec4 1 0 0 49) (Vec4 0 0 (- 1) 0) (Vec4 0 1 0 0),
     Mat34 (Vec4 1 0 0 (- 49)) (Vec4 0 0 (- 1) 0) (Vec4 0 1 0 0)],
    Mat4 (Vec4 1 0 0 0) (Vec4 0 0 (- 1) 0) (Vec4 0 1 0 0) (Vec4 0 0 0 1))"
  by (simp add: pca_recenter_def far_rot far_centered mean_entry21_def) (simp add: far_poses_def mat_defs vec_defs)

lemma far_max: "max_abs_translation (fst (pca_recenter diag_eig far_poses)) = 49"
  by (simp add: far_recenter max_abs_translation_def)

lemma na_sq1: "fl64 ((49 - 1 / 2 ^ 28) * (49 - 1 / 2 ^ 28)) = 322256764879 / 134217728"
proof -
  have "fl64 ((49 - 1 / 2 ^ 28) * (49 - 1 / 2 ^ 28)) = of_int (5279854835777536) * 2 powr of_int (11 - 52)"
    by (rule fl64_eval) (simp_all add: powr_minus_divide round_even_def Let_def)
  then show ?thesis by (simp add: powr_minus_divide)
qed

lemma na_sq1_f: "f64 ((49 - 1 / 2 ^ 28) * (49 - 1 / 2 ^ 28)) = Inr (322256764879 / 134217728)"
  unfolding f64_def na_sq1 by simp

lemma na_sq2: "fl64 ((49 + 1 / 2 ^ 28) * (49 + 1 / 2 ^ 28)) = 322256764977 / 134217728"
proof -
  have "fl64 ((49 + 1 / 2 ^ 28) * (49 + 1 / 2 ^ 28)) = of_int (5279854837383168) * 2 powr of_int (11 - 52)"
    by (rule fl64_eval) (simp_all add: powr_minus_divide round_even_def Let_def)
  then show ?thesis by (simp add: powr_minus_divide)
qed

lemma na_sq2_f: "f64 ((49 + 1 / 2 ^ 28) * (49 + 1 / 2 ^ 28)) = Inr (322256764977 / 134217728)"
  unfolding f64_def na_sq2 by simp

lemma na_id1: "fl64 (322256764879 / 134217728) = 322256764879 / 134217728"
proof -
  have "fl64 (322256764879 / 134217728) = of_int (5279854835777536) * 2 powr of_int (11 - 52)"
    by (rule fl64_eval) (simp_all add: powr_minus_divide round_even_def Let_def)
  then show ?thesis by (simp add: powr_minus_divide)
qed

lemma na_id1_f: "f64 (322256764879 / 134217728) = Inr (322256764879 / 134217728)"
  unfolding f64_def na_id1 by simp

lemma na_id2: "fl64 (322256764977 / 134217728) = 322256764977 / 134217728"
proof -
  have "fl64 (322256764977 / 134217728) = of_int (5279854837383168) * 2 powr of_int (11 - 52)"
    by (rule fl64_eval) (simp_all add: powr_minus_divide round_even_def Let_def)
  then show ?thesis by (simp add: powr_minus_divide)
qed

lemma na_id2_f: "f64 (322256764977 / 134217728) = Inr (322256764977 / 134217728)"
  unfolding f64_def na_id2 by simp

lemma na_sum: "fl64 (322256764879 / 134217728 + 322256764977 / 134217728) = 4802"
proof -
  have "fl64 (322256764879 / 134217728 + 322256764977 / 134217728) = of_int (5279854836580352) * 2 powr of_int (12 - 52)"
    by (rule fl64_eval) (simp_all add: powr_minus_divide round_even_def Let_def)
  then show ?thesis by (simp add: powr_minus_divide)
qed

lemma na_sum_f: "f64 (322256764879 / 134217728 + 322256764977 / 134217728) = Inr (4802)"
  unfolding f64_def na_sum by simp

lemma na_mean: "fl64 (4802 / 2) = 2401"
proof -
  have "fl64 (4802 / 2) = of_int (5279854836580352) * 2 powr of_int (11 - 52)"
    by (rule fl64_eval) (simp_all add: powr_minus_divide round_even_def Let_def)
  then show ?thesis by (simp add: powr_minus_divide)
qed

lemma na_mean_f: "f64 (4802 / 2) = Inr (2401)"
  unfolding f64_def na_mean by simp

lemma na_49: "fl64 (49) = 49"
proof -
  have "fl64 (49) = of_int (6896136929411072) * 2 powr of_int (5 - 52)"
    by (rule fl64_eval) (simp_all add: powr_minus_divide round_even_def Let_def)
  then show ?thesis by (simp add: powr_minus_divide)
qed

lemma na_sc: "fl64 (1 / 49) = 5882252574524729 / 288230376151711744"
proof -
  have "fl64 (1 / 49) = of_int (5882252574524729) * 2 powr of_int (- 6 - 52)"
    by (rule fl64_eval) (simp_all add: powr_minus_divide round_even_def Let_def)
  then show ?thesis by (simp add: powr_minus_divide)
qed

lemma na_sc_f: "f64 (1 / 49) = Inr (5882252574524729 / 288230376151711744)"
  unfolding f64_def na_sc by simp

lemma na_t1: "fl64 ((49 - 1 / 2 ^ 28) * (5882252574524729 / 288230376151711744)) = 9007199254056207 / 9007199254740992"
proof -
  have "fl64 ((49 - 1 / 2 ^ 28) * (5882252574524729 / 288230376151711744)) = of_int (9007199254056207) * 2 powr of_int (- 1 - 52)"
    by (rule fl64_eval) (simp_all add: powr_minus_divide round_even_def Let_def)
  then show ?thesis by (simp add: powr_minus_divide)
qed

lemma na_t1_f: "f64 ((49 - 1 / 2 ^ 28) * (5882252574524729 / 288230376151711744)) = Inr (9007199254056207 / 9007199254740992)"
  unfolding f64_def na_t1 by simp

lemma na_t2: "fl64 ((49 + 1 / 2 ^ 28) * (5882252574524729 / 288230376151711744)) = 562949953464111 / 562949953421312"
proof -
  have "fl64 ((49 + 1 / 2 ^ 28) * (5882252574524729 / 288230376151711744)) = of_int (4503599627712888) * 2 powr of_int (0 - 52)"
    by (rule fl64_eval) (simp_all add: powr_minus_divide round_even_def Let_def)
  then show ?thesis by (simp add: powr_minus_divide)
qed

lemma na_t2_f: "f64 ((49 + 1 / 2 ^ 28) * (5882252574524729 / 288230376151711744)) = Inr (562949953464111 / 562949953421312)"
  unfolding f64_def na_t2 by simp

lemma na_rad: "fl64 (49 * (5882252574524729 / 288230376151711744)) = 9007199254740991 / 9007199254740992"
proof -
  have "fl64 (49 * (5882252574524729 / 288230376151711744)) = of_int (9007199254740991) * 2 powr of_int (- 1 - 52)"
    by (rule fl64_eval) (simp_all add: powr_minus_divide round_even_def Let_def)
  then show ?thesis by (simp add: powr_minus_divide)
qed

lemma na_rad_f: "f64 (49 * (5882252574524729 / 288230376151711744)) = Inr (9007199254740991 / 9007199254740992)"
  unfolding f64_def na_rad by simp

lemma na_radneg: "fl64 (- 49 * (5882252574524729 / 288230376151711744)) = - (9007199254740991 / 9007199254740992)"
proof -
  have "fl64 (- 49 * (5882252574524729 / 288230376151711744)) = of_int (- 9007199254740991) * 2 powr of_int (- 1 - 52)"
    by (rule fl64_eval) (simp_all add: powr_minus_divide round_even_def Let_def)
  then show ?thesis by (simp add: powr_minus_divide)
qed

lemma na_zid: "fl64 (9007199254056207 / 9007199254740992) = 9007199254056207 / 9007199254740992"
proof -
  have "fl64 (9007199254056207 / 9007199254740992) = of_int (9007199254056207) * 2 powr of_int (- 1 - 52)"
    by (rule fl64_eval) (simp_all add: powr_minus_divide round_even_def Let_def)
  then show ?thesis by (simp add: powr_minus_divide)
qed

lemma na_zid_f: "f64 (9007199254056207 / 9007199254740992) = Inr (9007199254056207 / 9007199254740992)"
  unfolding f64_def na_zid by simp

lemma na_zsum: "fl64 (9007199254056207 / 9007199254740992 + 562949953464111 / 562949953421312) = 2"
proof -
  have "fl64 (9007199254056207 / 9007199254740992 + 562949953464111 / 562949953421312) = of_int (9007199254740992) * 2 powr of_int (0 - 52)"
    by (rule fl64_eval) (simp_all add: powr_minus_divide round_even_def Let_def)
  then show ?thesis by (simp add: powr_minus_divide)
qed

lemma na_zsum_f: "f64 (9007199254056207 / 9007199254740992 + 562949953464111 / 562949953421312) = Inr (2)"
  unfolding f64_def na_zsum by simp

lemma na_zh: "fl64 (2 / 2) = 1"
proof -
  have "fl64 (2 / 2) = of_int (4503599627370496) * 2 powr of_int (0 - 52)"
    by (rule fl64_eval) (simp_all add: powr_minus_divide round_even_def Let_def)
  then show ?thesis by (simp add: powr_minus_divide)
qed

lemma na_zh_f: "f64 (2 / 2) = Inr (1)"
  unfolding f64_def na_zh by simp

lemma na_rad2: "fl64 (9007199254740991 / 9007199254740992 * (9007199254740991 / 9007199254740992)) = 4503599627370495 / 4503599627370496"
proof -
  have "fl64 (9007199254740991 / 9007199254740992 * (9007199254740991 / 9007199254740992)) = of_int (9007199254740990) * 2 powr of_int (- 1 - 52)"
    by (rule fl64_eval) (simp_all add: powr_minus_divide round_even_def Let_def)
  then show ?thesis by (simp add: powr_minus_divide)
qed

lemma na_rad2_f: "f64 (9007199254740991 / 9007199254740992 * (9007199254740991 / 9007199254740992)) = Inr (4503599627370495 / 4503599627370496)"
  unfolding f64_def na_rad2 by simp

lemma na_zh2: "fl64 (1 * 1) = 1"
proof -
  have "fl64 (1 * 1) = of_int (4503599627370496) * 2 powr of_int (0 - 52)"
    by (rule fl64_eval) (simp_all add: powr_minus_divide round_even_def Let_def)
  then show ?thesis by (simp add: powr_minus_divide)
qed

lemma na_zh2_f: "f64 (1 * 1) = Inr (1)"
  unfolding f64_def na_zh2 by simp

lemma na_diff: "fl64 (4503599627370495 / 4503599627370496 - 1) = - (1 / 4503599627370496)"
proof -
  have "fl64 (4503599627370495 / 4503599627370496 - 1) = of_int (- 4503599627370496) * 2 powr of_int (- 52 - 52)"
    by (rule fl64_eval) (simp_all add: powr_minus_divide round_even_def Let_def)
  then show ?thesis by (simp add: powr_minus_divide)
qed

lemma na_diff_f: "f64 (4503599627370495 / 4503599627370496 - 1) = Inr (- (1 / 4503599627370496))"
  unfolding f64_def na_diff by simp

lemma na_half: "fl64 (1 / 2) = 1 / 2"
proof -
  have "fl64 (1 / 2) = of_int (4503599627370496) * 2 powr of_int (- 1 - 52)"
    by (rule fl64_eval) (simp_all add: powr_minus_divide round_even_def Let_def)
  then show ?thesis by (simp add: powr_minus_divide)
qed

lemma na_half_f: "f64 (1 / 2) = Inr (1 / 2)"
  unfolding f64_def na_half by simp


lemma mean_f64_two:
  "mean_f64 [a, b] = and_then (f64 (0 + a)) (\<lambda>s. and_then (f64 (s + b)) (\<lambda>s. f64 (s / 2)))"
  by (simp add: mean_f64_def and_then_def split: sum.splits)

lemma sqrt_2401: "sqrt 2401 = 49"
  by (rule real_sqrt_unique) simp_all

lemma near_axis_t:
  "map (\<lambda>p. pcol3 (unpad_poses p)) near_axis_reset =
     [Vec3 0 0 (49 - 1 / 2 ^ 28), Vec3 0 0 (49 + 1 / 2 ^ 28)]"
  by (simp only: near_axis_reset_def list.map pcol3_def unpad_poses_def mat4.sel vec4.sel mat34.sel)

lemma near_axis_sq:
  "sequence (map sq_norm_f64 [Vec3 0 0 (49 - 1 / 2 ^ 28), Vec3 0 0 (49 + 1 / 2 ^ 28)]) =
     Inr [322256764879 / 134217728, 322256764977 / 134217728]"
  by (simp only: list.map sq_norm_f64_def vec3.sel mult_zero_left add_0_left f64_zero and_then_simps
        na_sq1_f na_sq2_f na_id1_f na_id2_f sequence.simps)

lemma near_axis_msq: "mean_f64 [322256764879 / 134217728, 322256764977 / 134217728] = Inr 2401"
  by (simp only: mean_f64_two add_0_left na_id1_f and_then_simps na_sum_f na_mean_f)

lemma near_axis_tz:
  "sequence (map (\<lambda>v. f64 (vz v * (5882252574524729 / 288230376151711744)))
      [Vec3 0 0 (49 - 1 / 2 ^ 28), Vec3 0 0 (49 + 1 / 2 ^ 28)]) =
     Inr [9007199254056207 / 9007199254740992, 562949953464111 / 562949953421312]"
  by (simp only: list.map vec3.sel na_t1_f na_t2_f sequence.simps and_then_simps)

lemma near_axis_zh:
  "mean_f64 [9007199254056207 / 9007199254740992, 562949953464111 / 562949953421312] = Inr 1"
  by (simp only: mean_f64_two add_0_left na_zid_f and_then_simps na_zsum_f na_zh_f)

lemma near_axis_rad_zh:
  "spherify_rad_zh_f64 near_axis_reset = Inr (9007199254740991 / 9007199254740992, 1)"
proof -
  have n: "((49::real) = 0) = False" by simp
  show ?thesis
    unfolding spherify_rad_zh_f64_def Let_def near_axis_t near_axis_sq and_then_simps near_axis_msq
      sqrt_2401 na_49 n if_False na_sc_f near_axis_tz na_rad_f near_axis_zh ..
qed

lemma near_axis_radcircle:
  "radcircle_f64 (9007199254740991 / 9007199254740992) 1 = Inl NotFinite"
proof -
  have n: "np_sqrt (- (1 / 4503599627370496)) = Inl NotFinite" by (simp add: np_sqrt_def)
  show ?thesis
    unfolding radcircle_f64_def na_rad2_f and_then_simps na_zh2_f na_diff_f n ..
qed

text \<open>
  Claim C2, as amended. For a non-empty pose set whose largest absolute recentered
  translation coordinate \<open>m\<close> lies between \<open>2^-1021\<close> and \<open>2^1021\<close>, the poses that
  \<open>transform_poses_pca\<close> returns have a largest absolute translation coordinate of 1 or
  of \<open>1 - 2^-53\<close>: it is the rounded product of \<open>m\<close> with the rounded quotient \<open>1. / m\<close>.
\<close>

theorem transform_poses_pca_f64_unit_max:
  assumes "poses \<noteq> []"
    and "1 / 2 ^ 1021 \<le> max_abs_translation (fst (pca_recenter eig poses))"
    and "max_abs_translation (fst (pca_recenter eig poses)) \<le> 2 ^ 1021"
  shows "\<exists>ps. transform_poses_pca_poses_f64 eig poses = Inr ps \<and>
           (max_abs_translation ps = 1 \<or> max_abs_translation ps = 1 - 1 / 2 ^ 53)"
proof -
  define pr where "pr = fst (pca_recenter eig poses)"
  define m where "m = max_abs_translation pr"
  define s where "s = fl64 (1 / m)"
  have ml: "1 / 2 ^ 1021 \<le> m" and mu: "m \<le> 2 ^ 1021" using assms(2,3) by (simp_all add: m_def pr_def)
  have "0 < 1 / (2::real) ^ 1021" by simp
  with ml have m0: "m \<noteq> 0" by linarith
  from fl64_recip [OF ml mu] have r: "\<bar>m * s - 1\<bar> \<le> 1 / 2 ^ 53" and s0: "0 < s" and su: "s < 2 ^ 1024"
    by (simp_all add: s_def)
  have "f64 (1 / m) = Inr s" using s0 su by (simp add: f64_def s_def)
  then have v: "transform_poses_pca_poses_f64 eig poses = Inr (map (scale_translation_f64 s) pr)"
    using assms(1) m0 by (simp add: transform_poses_pca_poses_f64_def Let_def pr_def [symmetric] m_def [symmetric])
  have "max_abs_translation (map (scale_translation_f64 s) pr) = fl64 (m * s)"
    using s0 by (simp add: max_abs_translation_scale_f64 m_def)
  moreover have "fl64 (m * s) = 1 \<or> fl64 (m * s) = 1 - 1 / 2 ^ 53"
  proof (rule fl64_near_one)
    show "1 - 1 / 2 ^ 53 \<le> m * s" using r by linarith
    show "m * s \<le> 1 + 1 / 2 ^ 53" using r by linarith
  qed
  ultimately show ?thesis using v by auto
qed

theorem transform_poses_pca_f64_unit_max_witness:
  "two_poses \<noteq> [] \<and>
   1 / 2 ^ 1021 \<le> max_abs_translation (fst (pca_recenter diag_eig two_poses)) \<and>
   max_abs_translation (fst (pca_recenter diag_eig two_poses)) \<le> 2 ^ 1021 \<and>
   (\<exists>ps. transform_poses_pca_poses_f64 diag_eig two_poses = Inr ps \<and>
      (max_abs_translation ps = 1 \<or> max_abs_translation ps = 1 - 1 / 2 ^ 53))"
proof -
  have h1: "two_poses \<noteq> []" by (simp add: two_poses_def)
  have "(1::real) \<le> 2 ^ 1021" by (rule one_le_power) simp
  then have h2: "1 / 2 ^ 1021 \<le> max_abs_translation (fst (pca_recenter diag_eig two_poses))"
    unfolding two_max by (simp add: field_simps)
  have "(2::real) ^ 1 \<le> 2 ^ 1021" by (rule power_increasing) simp_all
  then have h3: "max_abs_translation (fst (pca_recenter diag_eig two_poses)) \<le> 2 ^ 1021"
    unfolding two_max by simp
  from transform_poses_pca_f64_unit_max [OF h1 h2 h3] h1 h2 h3 show ?thesis by blast
qed

text \<open>
  Claim C2 as stated fails: the largest absolute translation coordinate is not always
  exactly 1. For the two poses at (49, 0, 0) and (-49, 0, 0) with identity rotations,
  \<open>scale_factor\<close> is the float64 number next to 1/49 and its product with 49 rounds to
  \<open>1 - 2^-53\<close> = 0.9999999999999999.
\<close>

theorem transform_poses_pca_max_counterexample:
  "far_poses \<noteq> [] \<and>
   max_abs_translation (fst (pca_recenter diag_eig far_poses)) = 49 \<and>
   transform_poses_pca_poses_f64 diag_eig far_poses =
     Inr [Mat34 (Vec4 1 0 0 (1 - 1 / 2 ^ 53)) (Vec4 0 0 (- 1) 0) (Vec4 0 1 0 0),
          Mat34 (Vec4 1 0 0 (- (1 - 1 / 2 ^ 53))) (Vec4 0 0 (- 1) 0) (Vec4 0 1 0 0)] \<and>
   max_abs_translation
     [Mat34 (Vec4 1 0 0 (1 - 1 / 2 ^ 53)) (Vec4 0 0 (- 1) 0) (Vec4 0 1 0 0),
      Mat34 (Vec4 1 0 0 (- (1 - 1 / 2 ^ 53))) (Vec4 0 0 (- 1) 0) (Vec4 0 1 0 0)] = 1 - 1 / 2 ^ 53 \<and>
   max_abs_translation
     [Mat34 (Vec4 1 0 0 (1 - 1 / 2 ^ 53)) (Vec4 0 0 (- 1) 0) (Vec4 0 1 0 0),
      Mat34 (Vec4 1 0 0 (- (1 - 1 / 2 ^ 53))) (Vec4 0 0 (- 1) 0) (Vec4 0 1 0 0)] \<noteq> 1"
proof -
  have h1: "far_poses \<noteq> []" by (simp add: far_poses_def)
  have e: "(1 - 1 / 2 ^ 53 :: real) = 9007199254740991 / 9007199254740992" by simp
  have n: "((49::real) = 0) = False" by simp
  have l: "(far_poses = []) = False" using h1 by simp
  have r: "fst (pca_recenter diag_eig far_poses) =
     [Mat34 (Vec4 1 0 0 49) (Vec4 0 0 (- 1) 0) (Vec4 0 1 0 0),
      Mat34 (Vec4 1 0 0 (- 49)) (Vec4 0 0 (- 1) 0) (Vec4 0 1 0 0)]"
    by (simp add: far_recenter)
  have m: "max_abs_translation
     [Mat34 (Vec4 1 0 0 49) (Vec4 0 0 (- 1) 0) (Vec4 0 1 0 0),
      Mat34 (Vec4 1 0 0 (- 49)) (Vec4 0 0 (- 1) 0) (Vec4 0 1 0 0)] = 49"
    using far_max unfolding r .
  have v: "transform_poses_pca_poses_f64 diag_eig far_poses =
     Inr [Mat34 (Vec4 1 0 0 (9007199254740991 / 9007199254740992)) (Vec4 0 0 (- 1) 0) (Vec4 0 1 0 0),
          Mat34 (Vec4 1 0 0 (- (9007199254740991 / 9007199254740992))) (Vec4 0 0 (- 1) 0) (Vec4 0 1 0 0)]"
    unfolding transform_poses_pca_poses_f64_def l if_False r Let_def m n na_sc_f and_then_simps
      list.map scale_translation_f64_def mat34.sel vec4.sel mult_zero_left fl64_zero na_rad na_radneg ..
  have x: "max_abs_translation
     [Mat34 (Vec4 1 0 0 (9007199254740991 / 9007199254740992)) (Vec4 0 0 (- 1) 0) (Vec4 0 1 0 0),
      Mat34 (Vec4 1 0 0 (- (9007199254740991 / 9007199254740992))) (Vec4 0 0 (- 1) 0) (Vec4 0 1 0 0)] =
      9007199254740991 / 9007199254740992"
    by (simp add: max_abs_translation_def)
  show ?thesis unfolding e using h1 far_max v x by simp
qed


end
